theory Spec2Isabelle
  imports Main "HOL-Library.Word" "HOL-Library.Monad_Syntax"
begin

unbundle bit_operations_syntax

section \<open>Constants and enumerations (libgearman/constants.h)\<close>

type_synonym u32 = "32 word"

definition GEARMAN_DEFAULT_MAX_QUEUE_SIZE :: u32 where
  "GEARMAN_DEFAULT_MAX_QUEUE_SIZE = 0"

definition GEARMAN_JOB_HANDLE_SIZE :: nat where
  "GEARMAN_JOB_HANDLE_SIZE = 64"

definition GEARMAN_UNIQUE_SIZE :: nat where
  "GEARMAN_UNIQUE_SIZE = 64"

definition GEARMAN_JOB_HASH_SIZE :: nat where
  "GEARMAN_JOB_HASH_SIZE = 383"

definition GEARMAN_MAX_FREE_SERVER_JOB :: u32 where
  "GEARMAN_MAX_FREE_SERVER_JOB = 1000"

datatype gearman_return_t =
    GEARMAN_SUCCESS
  | GEARMAN_IO_WAIT
  | GEARMAN_SHUTDOWN
  | GEARMAN_SHUTDOWN_GRACEFUL
  | GEARMAN_ERRNO
  | GEARMAN_EVENT
  | GEARMAN_TOO_MANY_ARGS
  | GEARMAN_NO_ACTIVE_FDS
  | GEARMAN_INVALID_MAGIC
  | GEARMAN_INVALID_COMMAND
  | GEARMAN_INVALID_PACKET
  | GEARMAN_UNEXPECTED_PACKET
  | GEARMAN_GETADDRINFO
  | GEARMAN_NO_SERVERS
  | GEARMAN_LOST_CONNECTION
  | GEARMAN_MEMORY_ALLOCATION_FAILURE
  | GEARMAN_JOB_EXISTS
  | GEARMAN_JOB_QUEUE_FULL
  | GEARMAN_SERVER_ERROR
  | GEARMAN_WORK_ERROR
  | GEARMAN_WORK_DATA
  | GEARMAN_WORK_WARNING
  | GEARMAN_WORK_STATUS
  | GEARMAN_WORK_EXCEPTION
  | GEARMAN_WORK_FAIL
  | GEARMAN_NOT_CONNECTED
  | GEARMAN_COULD_NOT_CONNECT
  | GEARMAN_SEND_IN_PROGRESS
  | GEARMAN_RECV_IN_PROGRESS
  | GEARMAN_NOT_FLUSHING
  | GEARMAN_DATA_TOO_LARGE
  | GEARMAN_INVALID_FUNCTION_NAME
  | GEARMAN_INVALID_WORKER_FUNCTION
  | GEARMAN_NO_REGISTERED_FUNCTIONS
  | GEARMAN_NO_JOBS
  | GEARMAN_ECHO_DATA_CORRUPTION
  | GEARMAN_NEED_WORKLOAD_FN
  | GEARMAN_PAUSE
  | GEARMAN_UNKNOWN_STATE
  | GEARMAN_PTHREAD
  | GEARMAN_PIPE_EOF
  | GEARMAN_QUEUE_ERROR
  | GEARMAN_FLUSH_DATA
  | GEARMAN_SEND_BUFFER_TOO_SMALL
  | GEARMAN_IGNORE_PACKET
  | GEARMAN_UNKNOWN_OPTION

datatype gearman_magic_t =
    GEARMAN_MAGIC_TEXT
  | GEARMAN_MAGIC_REQUEST
  | GEARMAN_MAGIC_RESPONSE

datatype gearman_command_t =
    GEARMAN_COMMAND_TEXT
  | GEARMAN_COMMAND_CAN_DO
  | GEARMAN_COMMAND_CANT_DO
  | GEARMAN_COMMAND_RESET_ABILITIES
  | GEARMAN_COMMAND_PRE_SLEEP
  | GEARMAN_COMMAND_UNUSED
  | GEARMAN_COMMAND_NOOP
  | GEARMAN_COMMAND_SUBMIT_JOB
  | GEARMAN_COMMAND_JOB_CREATED
  | GEARMAN_COMMAND_GRAB_JOB
  | GEARMAN_COMMAND_NO_JOB
  | GEARMAN_COMMAND_JOB_ASSIGN
  | GEARMAN_COMMAND_WORK_STATUS
  | GEARMAN_COMMAND_WORK_COMPLETE
  | GEARMAN_COMMAND_WORK_FAIL
  | GEARMAN_COMMAND_GET_STATUS
  | GEARMAN_COMMAND_ECHO_REQ
  | GEARMAN_COMMAND_ECHO_RES
  | GEARMAN_COMMAND_SUBMIT_JOB_BG
  | GEARMAN_COMMAND_ERROR
  | GEARMAN_COMMAND_STATUS_RES
  | GEARMAN_COMMAND_SUBMIT_JOB_HIGH
  | GEARMAN_COMMAND_SET_CLIENT_ID
  | GEARMAN_COMMAND_CAN_DO_TIMEOUT
  | GEARMAN_COMMAND_ALL_YOURS
  | GEARMAN_COMMAND_WORK_EXCEPTION
  | GEARMAN_COMMAND_OPTION_REQ
  | GEARMAN_COMMAND_OPTION_RES
  | GEARMAN_COMMAND_WORK_DATA
  | GEARMAN_COMMAND_WORK_WARNING
  | GEARMAN_COMMAND_GRAB_JOB_UNIQ
  | GEARMAN_COMMAND_JOB_ASSIGN_UNIQ
  | GEARMAN_COMMAND_SUBMIT_JOB_HIGH_BG
  | GEARMAN_COMMAND_SUBMIT_JOB_LOW
  | GEARMAN_COMMAND_SUBMIT_JOB_LOW_BG
  | GEARMAN_COMMAND_SUBMIT_JOB_SCHED
  | GEARMAN_COMMAND_SUBMIT_JOB_EPOCH

datatype gearman_job_priority_t =
    GEARMAN_JOB_PRIORITY_HIGH
  | GEARMAN_JOB_PRIORITY_NORMAL
  | GEARMAN_JOB_PRIORITY_LOW

text \<open>
  The option enumerations are bit masks in C (\<open>1 << 0\<close>, \<open>1 << 1\<close>, ...). An options
  word is modelled as the set of the flags that are set in it: \<open>x |= F\<close> is
  \<open>insert F x\<close>, \<open>x &= ~F\<close> is \<open>x - {F}\<close> and \<open>x & F\<close> is \<open>F \<in> x\<close>.
\<close>

datatype gearman_server_options_t =
    GEARMAN_SERVER_ALLOCATED
  | GEARMAN_SERVER_PROC_THREAD
  | GEARMAN_SERVER_QUEUE_REPLAY

datatype gearman_server_con_options_t =
    GEARMAN_SERVER_CON_SLEEPING
  | GEARMAN_SERVER_CON_EXCEPTIONS
  | GEARMAN_SERVER_CON_DEAD

datatype gearman_server_function_options_t =
    GEARMAN_SERVER_FUNCTION_ALLOCATED

datatype gearman_server_job_options_t =
    GEARMAN_SERVER_JOB_ALLOCATED
  | GEARMAN_SERVER_JOB_QUEUED
  | GEARMAN_SERVER_JOB_IGNORE

section \<open>The hash of job handles and unique ids (server\_job.c, \_server\_job\_hash)\<close>

text \<open>
  The key is a \<open>const char *\<close>. Whether plain \<open>char\<close> is signed is left to the platform
  by C; \<open>value += *ptr++\<close> converts the character to \<open>int\<close> and then to \<open>uint32_t\<close>, so a
  byte above 127 is sign-extended where \<open>char\<close> is signed. The flag \<open>sg\<close> says which.
\<close>

definition char_value :: "bool \<Rightarrow> char \<Rightarrow> u32" where
  "char_value sg c =
     (if sg \<and> 128 \<le> (of_char c :: nat) then of_char c - 256 else of_char c)"

fun hash_loop :: "bool \<Rightarrow> string \<Rightarrow> u32 \<Rightarrow> u32" where
  "hash_loop sg [] v = v"
| "hash_loop sg (c # ptr) v =
     (let v1 = v + char_value sg c;
          v2 = v1 + push_bit 10 v1;
          v3 = v2 XOR drop_bit 6 v2
      in hash_loop sg ptr v3)"

definition server_job_hash :: "bool \<Rightarrow> string \<Rightarrow> u32" where
  "server_job_hash sg key =
     (let v = hash_loop sg key 0;
          v1 = v + push_bit 3 v;
          v2 = v1 XOR drop_bit 11 v1;
          v3 = v2 + push_bit 15 v2
      in if v3 = 0 then 1 else v3)"

text \<open>
  The hash as the specification words it: over the values of the bytes, one mixing step
  for each byte, then the finalisation, and 0 mapped to 1.
\<close>

definition spec_hash_mix :: "u32 \<Rightarrow> u32 \<Rightarrow> u32" where
  "spec_hash_mix v b = (v + b + push_bit 10 (v + b)) XOR drop_bit 6 (v + b + push_bit 10 (v + b))"

definition spec_hash_final :: "u32 \<Rightarrow> u32" where
  "spec_hash_final v =
     (((v + push_bit 3 v) XOR drop_bit 11 (v + push_bit 3 v))
        + push_bit 15 ((v + push_bit 3 v) XOR drop_bit 11 (v + push_bit 3 v)))"

definition spec_hash :: "u32 list \<Rightarrow> u32" where
  "spec_hash bs = (let v = spec_hash_final (foldl spec_hash_mix 0 bs) in if v = 0 then 1 else v)"

section \<open>Structures\<close>

text \<open>
  The structures are those of the server (their declarations are in structs.h, which is
  not among the sources; the fields are the ones the functions below read and write).
  Pointers are addresses into explicit heaps, \<open>None\<close> is \<open>NULL\<close>. The intrusive lists
  of the C code are kept as lists of addresses in the structure that owns the list head:
  \<^item> \<open>job_list p\<close> of a function is the chain from \<open>job_list[p]\<close> along
    \<open>function_next\<close> up to \<open>job_end[p]\<close>;
  \<^item> \<open>worker_list\<close> of a function is the chain along the workers' \<open>function_next\<close>,
    \<open>con_worker_list\<close> of a connection the chain along \<open>con_next\<close>;
  \<^item> a bucket of \<open>job_hash\<close> or \<open>unique_hash\<close> is the chain along \<open>next\<close> or
    \<open>unique_next\<close>; \<open>GEARMAN_HASH_ADD\<close> and \<open>GEARMAN_LIST_ADD\<close> put an object in
    front, \<open>GEARMAN_HASH_DEL\<close> and \<open>GEARMAN_LIST_DEL\<close> unlink it.
\<close>

record gearman_server_job_st =
  job_options :: "gearman_server_job_options_t set"
  job_priority :: gearman_job_priority_t
  job_function :: "nat option"
  job_handle :: string
  job_unique :: string
  job_data :: "string option"
  job_data_size :: nat
  job_unique_key :: u32
  job_handle_key :: u32
  job_worker :: "nat option"
  job_client_list :: "nat list"
  job_client_count :: u32
  job_numerator :: u32
  job_denominator :: u32

record gearman_server_function_st =
  function_options :: "gearman_server_function_options_t set"
  job_count :: u32
  job_total :: u32
  job_running :: u32
  max_queue_size :: u32
  function_name :: string
  worker_list :: "nat list"
  job_list :: "gearman_job_priority_t \<Rightarrow> nat list"

record gearman_server_worker_st =
  worker_con :: nat
  worker_function :: nat
  worker_job :: "nat option"

record gearman_server_con_st =
  con_options :: "gearman_server_con_options_t set"
  noop_queued :: bool
  con_worker_list :: "nat list"
  io_packet_list :: "(gearman_magic_t \<times> gearman_command_t) list"

record gearman_server_client_st =
  client_job :: "nat option"

text \<open>
  The persistent queue is reached through three function pointers of \<open>server->gearman\<close>.
  A call is recorded in \<open>queue_calls\<close>; what a callback returns may depend on the calls
  made before it (the state behind \<open>queue_fn_arg\<close>) and on its arguments.
\<close>

datatype queue_call =
    QUEUE_ADD string nat string string gearman_job_priority_t
  | QUEUE_FLUSH
  | QUEUE_DONE string nat string

type_synonym queue_fn = "queue_call list \<Rightarrow> queue_call \<Rightarrow> gearman_return_t"

record gearman_st =
  queue_add_fn :: "queue_fn option"
  queue_flush_fn :: "queue_fn option"
  queue_done_fn :: "queue_fn option"

text \<open>
  The server, with the heaps of the structures it points to. \<open>malloc_results\<close> holds the
  outcomes of the coming calls of \<open>malloc\<close> (\<open>True\<close>: memory is returned; past the end of
  the list every call succeeds), so that every allocation failure the code handles is a
  run of the model. A job or a function allocated by \<open>malloc\<close> gets the next address of
  its heap.
\<close>

record gearman_server_st =
  server_options :: "gearman_server_options_t set"
  job_handle_prefix :: string
  job_handle_count :: u32
  function_list :: "nat list"
  function_count :: u32
  job_hash :: "nat \<Rightarrow> nat list"
  server_job_count :: u32
  unique_hash :: "nat \<Rightarrow> nat list"
  unique_count :: u32
  free_job_list :: "nat list"
  free_job_count :: u32
  gearman :: gearman_st
  function_heap :: "gearman_server_function_st option list"
  job_heap :: "gearman_server_job_st option list"
  worker_heap :: "nat \<rightharpoonup> gearman_server_worker_st"
  con_heap :: "nat \<rightharpoonup> gearman_server_con_st"
  client_heap :: "nat \<rightharpoonup> gearman_server_client_st"
  malloc_results :: "bool list"
  queue_calls :: "queue_call list"

text \<open>
  Reading through a pointer: \<open>None\<close> when the address holds no live structure. A function
  of the model returns \<open>None\<close> where the C code dereferences such a pointer (or \<open>NULL\<close>),
  or indexes \<open>job_list\<close> out of bounds; its behaviour is undefined there.
\<close>

definition heap_at :: "'a option list \<Rightarrow> nat \<Rightarrow> 'a option" where
  "heap_at h a = (if a < length h then h ! a else None)"

definition job_at :: "gearman_server_st \<Rightarrow> nat \<Rightarrow> gearman_server_job_st option" where
  "job_at st j = heap_at (job_heap st) j"

definition function_at :: "gearman_server_st \<Rightarrow> nat \<Rightarrow> gearman_server_function_st option" where
  "function_at st f = heap_at (function_heap st) f"

definition set_job :: "nat \<Rightarrow> gearman_server_job_st \<Rightarrow> gearman_server_st \<Rightarrow> gearman_server_st" where
  "set_job j job st = st\<lparr>job_heap := (job_heap st)[j := Some job]\<rparr>"

definition set_function ::
  "nat \<Rightarrow> gearman_server_function_st \<Rightarrow> gearman_server_st \<Rightarrow> gearman_server_st" where
  "set_function f fn st = st\<lparr>function_heap := (function_heap st)[f := Some fn]\<rparr>"

definition malloc :: "gearman_server_st \<Rightarrow> bool \<times> gearman_server_st" where
  "malloc st =
     (case malloc_results st of
        [] \<Rightarrow> (True, st)
      | ok # rest \<Rightarrow> (ok, st\<lparr>malloc_results := rest\<rparr>))"

section \<open>Strings of C\<close>

definition c_str :: "string \<Rightarrow> string" where
  "c_str s = takeWhile (\<lambda>c. c \<noteq> CHR 0x00) s"

definition digit :: "nat \<Rightarrow> char" where
  "digit d = ''0123456789'' ! d"

fun decimal :: "nat \<Rightarrow> string" where
  "decimal n = (if n < 10 then [digit n] else decimal (n div 10) @ [digit (n mod 10)])"

declare decimal.simps [simp del]

text \<open>\<open>snprintf(job_handle, GEARMAN_JOB_HANDLE_SIZE, "%s:%u", prefix, count)\<close>\<close>

definition snprintf_job_handle :: "string \<Rightarrow> u32 \<Rightarrow> string" where
  "snprintf_job_handle prefix n =
     take (GEARMAN_JOB_HANDLE_SIZE - 1) (c_str prefix @ '':'' @ decimal (unat n))"

text \<open>
  \<open>snprintf(unique, GEARMAN_UNIQUE_SIZE, "%.*s", (uint32_t)unique_size, unique)\<close>, where
  the buffer \<open>unique\<close> holds \<open>unique_size\<close> characters (fewer than \<open>2^31\<close>).
\<close>

definition snprintf_unique :: "string \<Rightarrow> string" where
  "snprintf_unique uniq = take (GEARMAN_UNIQUE_SIZE - 1) (c_str uniq)"

section \<open>Functions (server\_function.c)\<close>

definition gearman_server_function_create ::
  "gearman_server_st \<Rightarrow> nat option \<times> gearman_server_st" where
  "gearman_server_function_create st =
     (let (ok, st1) = malloc st in
      if \<not> ok then (None, st1)
      else
        let a = length (function_heap st1);
            fn = \<lparr>function_options = {GEARMAN_SERVER_FUNCTION_ALLOCATED},
                  job_count = 0, job_total = 0, job_running = 0,
                  max_queue_size = GEARMAN_DEFAULT_MAX_QUEUE_SIZE,
                  function_name = [], worker_list = [], job_list = (\<lambda>p. [])\<rparr>
        in (Some a,
            st1\<lparr>function_heap := function_heap st1 @ [Some fn],
                function_list := a # function_list st1,
                function_count := function_count st1 + 1\<rparr>))"

definition gearman_server_function_free ::
  "gearman_server_st \<Rightarrow> nat \<Rightarrow> gearman_server_st option" where
  "gearman_server_function_free st f =
     (case function_at st f of
        None \<Rightarrow> None
      | Some fn \<Rightarrow>
          let st1 = st\<lparr>function_list := remove1 f (function_list st),
                       function_count := function_count st - 1\<rparr>
          in if GEARMAN_SERVER_FUNCTION_ALLOCATED \<in> function_options fn
             then Some (st1\<lparr>function_heap := (function_heap st1)[f := None]\<rparr>)
             else Some st1)"

text \<open>The loop of \<open>gearman_server_function_get\<close> over \<open>server->function_list\<close>.\<close>

fun function_find ::
  "gearman_server_function_st option list \<Rightarrow> string \<Rightarrow> nat list \<Rightarrow> nat option option" where
  "function_find h name [] = Some None"
| "function_find h name (f # rest) =
     (case heap_at h f of
        None \<Rightarrow> None
      | Some fn \<Rightarrow> if function_name fn = name then Some (Some f) else function_find h name rest)"

definition gearman_server_function_get ::
  "gearman_server_st \<Rightarrow> string \<Rightarrow> (nat option \<times> gearman_server_st) option" where
  "gearman_server_function_get st name =
     (case function_find (function_heap st) name (function_list st) of
        None \<Rightarrow> None
      | Some (Some f) \<Rightarrow> Some (Some f, st)
      | Some None \<Rightarrow>
          (case gearman_server_function_create st of
             (None, st1) \<Rightarrow> Some (None, st1)
           | (Some f, st1) \<Rightarrow>
               (let (ok, st2) = malloc st1 in
                if \<not> ok then
                  (case gearman_server_function_free st2 f of
                     None \<Rightarrow> None
                   | Some st3 \<Rightarrow> Some (None, st3))
                else
                  (case function_at st2 f of
                     None \<Rightarrow> None
                   | Some fn \<Rightarrow>
                       Some (Some f, set_function f (fn\<lparr>function_name := name\<rparr>) st2)))))"

section \<open>Collaborators that are not among the sources\<close>

text \<open>
  Modelled from the spec: \<open>gearman_server_io_packet_add\<close> (server\_con.c is missing).
  The specification has one outbound FIFO of packets for each connection, and a packet is
  enqueued at its end; the packet structure is allocated, and the call fails with
  \<open>GEARMAN_MEMORY_ALLOCATION_FAILURE\<close> when there is no memory.
\<close>

definition gearman_server_io_packet_add ::
  "gearman_server_st \<Rightarrow> nat \<Rightarrow> gearman_magic_t \<Rightarrow> gearman_command_t
     \<Rightarrow> (gearman_return_t \<times> gearman_server_st) option" where
  "gearman_server_io_packet_add st c magic command =
     (case con_heap st c of
        None \<Rightarrow> None
      | Some con \<Rightarrow>
          (let (ok, st1) = malloc st in
           if \<not> ok then Some (GEARMAN_MEMORY_ALLOCATION_FAILURE, st1)
           else Some (GEARMAN_SUCCESS,
                  st1\<lparr>con_heap := (con_heap st1)(c \<mapsto>
                         con\<lparr>io_packet_list := io_packet_list con @ [(magic, command)]\<rparr>)\<rparr>)))"

text \<open>
  Modelled from the spec: \<open>gearman_server_client_free\<close> (server\_client.c is missing).
  The specification: when a client goes, its job is marked IGNORE if it is still queued,
  and the client is removed from the job's client list.
\<close>

definition gearman_server_client_free ::
  "gearman_server_st \<Rightarrow> nat \<Rightarrow> gearman_server_st option" where
  "gearman_server_client_free st cl =
     (case client_heap st cl of
        None \<Rightarrow> None
      | Some client \<Rightarrow>
          (case client_job client of
             None \<Rightarrow> Some (st\<lparr>client_heap := (client_heap st)(cl := None)\<rparr>)
           | Some j \<Rightarrow>
               (case job_at st j of
                  None \<Rightarrow> None
                | Some job \<Rightarrow>
                    Some ((set_job j
                       (job\<lparr>job_client_list := remove1 cl (job_client_list job),
                            job_client_count := job_client_count job - 1,
                            job_options :=
                              (if job_worker job = None
                               then insert GEARMAN_SERVER_JOB_IGNORE (job_options job)
                               else job_options job)\<rparr>) st)
                       \<lparr>client_heap := (client_heap st)(cl := None)\<rparr>))))"

section \<open>Jobs (server\_job.c)\<close>

text \<open>
  The loop of \<open>_server_job_get_unique\<close> over one bucket of \<open>unique_hash\<close>.
  \<open>strcmp\<close> compares the stored unique with the characters of \<open>uniq\<close> up to its first
  NUL (the buffer is terminated after \<open>unique_size\<close> characters), \<open>memcmp\<close> compares
  \<open>data_size\<close> bytes.
\<close>

fun get_unique_chain ::
  "gearman_server_st \<Rightarrow> u32 \<Rightarrow> nat \<Rightarrow> string \<Rightarrow> nat \<Rightarrow> nat list \<Rightarrow> nat option option" where
  "get_unique_chain st unique_key server_function uniq dsize [] = Some None"
| "get_unique_chain st unique_key server_function uniq dsize (j # rest) =
     (case job_at st j of
        None \<Rightarrow> None
      | Some job \<Rightarrow>
          if dsize = 0 then
            (if job_function job = Some server_function \<and> job_unique_key job = unique_key
                \<and> c_str (job_unique job) = c_str uniq
             then Some (Some j)
             else get_unique_chain st unique_key server_function uniq dsize rest)
          else
            (if job_function job = Some server_function \<and> job_unique_key job = unique_key
                \<and> job_data_size job = dsize
             then (case job_data job of
                     None \<Rightarrow> None
                   | Some d \<Rightarrow>
                       if take dsize d = take dsize uniq then Some (Some j)
                       else get_unique_chain st unique_key server_function uniq dsize rest)
             else get_unique_chain st unique_key server_function uniq dsize rest))"

definition server_job_get_unique ::
  "gearman_server_st \<Rightarrow> u32 \<Rightarrow> nat \<Rightarrow> string \<Rightarrow> nat \<Rightarrow> nat option option" where
  "server_job_get_unique st unique_key server_function uniq dsize =
     get_unique_chain st unique_key server_function uniq dsize
       (unique_hash st (unat unique_key mod GEARMAN_JOB_HASH_SIZE))"

text \<open>\<open>gearman_server_job_create(server, NULL)\<close>: a structure of the free list, or a new one.\<close>

definition zero_job :: gearman_server_job_st where
  "zero_job =
     \<lparr>job_options = {}, job_priority = GEARMAN_JOB_PRIORITY_HIGH, job_function = None,
      job_handle = [], job_unique = [], job_data = None, job_data_size = 0,
      job_unique_key = 0, job_handle_key = 0, job_worker = None, job_client_list = [],
      job_client_count = 0, job_numerator = 0, job_denominator = 0\<rparr>"

definition gearman_server_job_create ::
  "gearman_server_st \<Rightarrow> (nat option \<times> gearman_server_st) option" where
  "gearman_server_job_create st =
     (let job = zero_job\<lparr>job_options := {GEARMAN_SERVER_JOB_ALLOCATED}\<rparr> in
      if free_job_count st > 0 then
        (case free_job_list st of
           [] \<Rightarrow> None
         | j # rest \<Rightarrow>
             if j < length (job_heap st) then
               Some (Some j, set_job j job
                  (st\<lparr>free_job_list := rest, free_job_count := free_job_count st - 1\<rparr>))
             else None)
      else
        (let (ok, st1) = malloc st in
         if \<not> ok then Some (None, st1)
         else Some (Some (length (job_heap st1)),
                st1\<lparr>job_heap := job_heap st1 @ [Some job]\<rparr>)))"

text \<open>
  The loop of \<open>gearman_server_job_free\<close> over the job's clients,
  \<open>while (client_list != NULL) gearman_server_client_free(client_list)\<close>: each call
  unlinks the first client of the list.
\<close>

fun free_clients :: "gearman_server_st \<Rightarrow> nat list \<Rightarrow> gearman_server_st option" where
  "free_clients st [] = Some st"
| "free_clients st (cl # rest) =
     (case gearman_server_client_free st cl of
        None \<Rightarrow> None
      | Some st1 \<Rightarrow> free_clients st1 rest)"

text \<open>
  \<open>gearman_server_job_free\<close>. The structure goes to the free list or to \<open>free\<close>; in
  both cases the address holds no job afterwards.
\<close>

definition gearman_server_job_free :: "gearman_server_st \<Rightarrow> nat \<Rightarrow> gearman_server_st option" where
  "gearman_server_job_free st j =
     do {
       job \<leftarrow> job_at st j;
       f \<leftarrow> job_function job;
       fn \<leftarrow> function_at st f;
       let fn1 = (if job_worker job \<noteq> None then fn\<lparr>job_running := job_running fn - 1\<rparr> else fn);
       let st1 = set_function f (fn1\<lparr>job_total := job_total fn1 - 1\<rparr>) st;
       st2 \<leftarrow> free_clients st1 (job_client_list job);
       st3 \<leftarrow> (case job_worker job of
                 None \<Rightarrow> Some st2
               | Some w \<Rightarrow>
                   (case worker_heap st2 w of
                      None \<Rightarrow> None
                    | Some worker \<Rightarrow>
                        Some (st2\<lparr>worker_heap :=
                                (worker_heap st2)(w \<mapsto> worker\<lparr>worker_job := None\<rparr>)\<rparr>)));
       let ukey = unat (job_unique_key job) mod GEARMAN_JOB_HASH_SIZE;
       let st4 = st3\<lparr>unique_hash := (unique_hash st3)(ukey := remove1 j (unique_hash st3 ukey)),
                    unique_count := unique_count st3 - 1\<rparr>;
       let hkey = unat (job_handle_key job) mod GEARMAN_JOB_HASH_SIZE;
       let st5 = st4\<lparr>job_hash := (job_hash st4)(hkey := remove1 j (job_hash st4 hkey)),
                    server_job_count := server_job_count st4 - 1\<rparr>;
       let st6 = (if GEARMAN_SERVER_JOB_ALLOCATED \<in> job_options job
                    \<and> free_job_count st5 < GEARMAN_MAX_FREE_SERVER_JOB
                  then st5\<lparr>free_job_list := j # free_job_list st5,
                           free_job_count := free_job_count st5 + 1\<rparr>
                  else st5);
       Some (st6\<lparr>job_heap := (job_heap st6)[j := None]\<rparr>)
     }"

text \<open>The loop of \<open>gearman_server_job_queue\<close> over the workers of the function.\<close>

fun queue_noop ::
  "gearman_server_st \<Rightarrow> nat list \<Rightarrow> (gearman_return_t \<times> gearman_server_st) option" where
  "queue_noop st [] = Some (GEARMAN_SUCCESS, st)"
| "queue_noop st (w # rest) =
     (case worker_heap st w of
        None \<Rightarrow> None
      | Some worker \<Rightarrow>
          (case con_heap st (worker_con worker) of
             None \<Rightarrow> None
           | Some con \<Rightarrow>
               if \<not> noop_queued con \<and> GEARMAN_SERVER_CON_SLEEPING \<notin> con_options con
               then queue_noop st rest
               else
                 (case gearman_server_io_packet_add st (worker_con worker)
                         GEARMAN_MAGIC_RESPONSE GEARMAN_COMMAND_NOOP of
                    None \<Rightarrow> None
                  | Some (ret, st1) \<Rightarrow>
                      if ret \<noteq> GEARMAN_SUCCESS then Some (ret, st1)
                      else
                        (case con_heap st1 (worker_con worker) of
                           None \<Rightarrow> None
                         | Some con1 \<Rightarrow>
                             queue_noop
                               (st1\<lparr>con_heap := (con_heap st1)(worker_con worker \<mapsto>
                                       con1\<lparr>noop_queued := True\<rparr>)\<rparr>)
                               rest))))"

text \<open>
  \<open>gearman_server_job_queue\<close>. The lists of a function are linked through the field
  \<open>function_next\<close> of the jobs, which the code resets only for a job that has a worker.
  For a job that is on no list the new link is the last one, and the list of the model
  is the list of the code. For a job that is still on some list, lines 391 to 398 would
  link \<open>job_end->function_next\<close> to a job that has a successor already (or to itself),
  and the chain is no list any more: such a call has no result in the model.
\<close>

definition job_linked :: "gearman_server_st \<Rightarrow> nat \<Rightarrow> bool" where
  "job_linked st j =
     list_ex (\<lambda>cell. case cell of
                None \<Rightarrow> False
              | Some fn \<Rightarrow> j \<in> set (job_list fn GEARMAN_JOB_PRIORITY_HIGH)
                         \<or> j \<in> set (job_list fn GEARMAN_JOB_PRIORITY_NORMAL)
                         \<or> j \<in> set (job_list fn GEARMAN_JOB_PRIORITY_LOW))
       (function_heap st)"

definition gearman_server_job_queue ::
  "gearman_server_st \<Rightarrow> nat \<Rightarrow> (gearman_return_t \<times> gearman_server_st) option" where
  "gearman_server_job_queue st j =
     (if job_linked st j then None
      else do {
       job \<leftarrow> job_at st j;
       f \<leftarrow> job_function job;
       fn \<leftarrow> function_at st f;
       let fn1 = (if job_worker job \<noteq> None then fn\<lparr>job_running := job_running fn - 1\<rparr> else fn);
       let job1 = job\<lparr>job_worker := None, job_numerator := 0, job_denominator := 0\<rparr>;
       let st1 = set_job j job1 (set_function f fn1 st);
       (ret, st2) \<leftarrow> queue_noop st1 (worker_list fn1);
       if ret \<noteq> GEARMAN_SUCCESS then Some (ret, st2)
       else do {
         fn2 \<leftarrow> function_at st2 f;
         let p = job_priority job1;
         Some (GEARMAN_SUCCESS,
               set_function f
                 (fn2\<lparr>job_list := (job_list fn2)(p := job_list fn2 p @ [j]),
                      job_count := job_count fn2 + 1\<rparr>) st2)
       }
     })"

text \<open>
  \<open>gearman_server_job_add\<close>, in the order of its text. First the duplicate check
  (lines 66 to 92). The local variable \<open>key\<close> is \<open>None\<close> as long as nothing was
  assigned to it.
\<close>

definition job_add_lookup ::
  "bool \<Rightarrow> gearman_server_st \<Rightarrow> nat \<Rightarrow> string \<Rightarrow> string \<Rightarrow> (u32 option \<times> nat option) option" where
  "job_add_lookup sg st server_function uniq dat =
     (if length uniq = 0 then Some (None, None)
      else if length uniq = 1 \<and> hd uniq = CHR ''-'' then
        (if length dat = 0 then Some (Some 0, None)
         else
           (let key = server_job_hash sg dat in
            case server_job_get_unique st key server_function dat (length dat) of
              None \<Rightarrow> None
            | Some server_job \<Rightarrow> Some (Some key, server_job)))
      else
        (let key = server_job_hash sg uniq in
         case server_job_get_unique st key server_function uniq 0 of
           None \<Rightarrow> None
         | Some server_job \<Rightarrow> Some (Some key, server_job)))"

text \<open>
  Lines 133 to 164: the job is marked QUEUED during replay; otherwise, for a job without
  a client, the queue's \<open>add\<close> and \<open>flush\<close> are called. The result is the code of the
  callback that failed, and \<open>GEARMAN_SUCCESS\<close> where the text goes on to line 166.
\<close>

definition job_add_persist ::
  "gearman_server_st \<Rightarrow> nat \<Rightarrow> string \<Rightarrow> nat \<Rightarrow> string \<Rightarrow> gearman_job_priority_t
     \<Rightarrow> nat option \<Rightarrow> (gearman_return_t \<times> gearman_server_st) option" where
  "job_add_persist st j fname usize dat prio server_client =
     (case job_at st j of
        None \<Rightarrow> None
      | Some job \<Rightarrow>
          let queued = job\<lparr>job_options := insert GEARMAN_SERVER_JOB_QUEUED (job_options job)\<rparr> in
          if GEARMAN_SERVER_QUEUE_REPLAY \<in> server_options st
          then Some (GEARMAN_SUCCESS, set_job j queued st)
          else
            (case (if server_client = None then queue_add_fn (gearman st) else None) of
               None \<Rightarrow> Some (GEARMAN_SUCCESS, st)
             | Some add \<Rightarrow>
                 let call = QUEUE_ADD (job_unique job) usize fname dat prio;
                     ret = add (queue_calls st) call;
                     st1 = st\<lparr>queue_calls := queue_calls st @ [call]\<rparr>
                 in if ret \<noteq> GEARMAN_SUCCESS then Some (ret, st1)
                    else
                      (case queue_flush_fn (gearman st1) of
                         None \<Rightarrow> Some (GEARMAN_SUCCESS, set_job j queued st1)
                       | Some flush \<Rightarrow>
                           let ret = flush (queue_calls st1) QUEUE_FLUSH;
                               st2 = st1\<lparr>queue_calls := queue_calls st1 @ [QUEUE_FLUSH]\<rparr>
                           in if ret \<noteq> GEARMAN_SUCCESS then Some (ret, st2)
                              else Some (GEARMAN_SUCCESS, set_job j queued st2))))"

text \<open>Lines 186 to 192: the client, if there is one, is put on the job's client list.\<close>

definition job_add_attach ::
  "gearman_server_st \<Rightarrow> nat \<Rightarrow> gearman_return_t \<Rightarrow> nat option
     \<Rightarrow> (nat option \<times> gearman_return_t \<times> gearman_server_st) option" where
  "job_add_attach st j ret server_client =
     (case server_client of
        None \<Rightarrow> Some (Some j, ret, st)
      | Some cl \<Rightarrow>
          (case client_heap st cl of
             None \<Rightarrow> None
           | Some client \<Rightarrow>
               (case job_at st j of
                  None \<Rightarrow> None
                | Some job \<Rightarrow>
                    Some (Some j, ret,
                      (set_job j (job\<lparr>job_client_list := cl # job_client_list job,
                                      job_client_count := job_client_count job + 1\<rparr>) st)
                       \<lparr>client_heap := (client_heap st)(cl \<mapsto> client\<lparr>client_job := Some j\<rparr>)\<rparr>))))"

text \<open>
  Lines 110 to 131: the fields of the new job, and its place in the two hash tables.
  \<open>key0\<close> is the indeterminate value that the automatic variable \<open>key\<close> holds while
  nothing was assigned to it; line 123 reads the variable.
\<close>

definition job_add_fill ::
  "bool \<Rightarrow> u32 \<Rightarrow> gearman_server_st \<Rightarrow> nat \<Rightarrow> u32 option \<Rightarrow> string \<Rightarrow> string
     \<Rightarrow> gearman_job_priority_t \<Rightarrow> nat \<Rightarrow> gearman_server_st option" where
  "job_add_fill sg key0 st f key uniq dat prio j =
     do {
       job \<leftarrow> job_at st j;
       fn \<leftarrow> function_at st f;
       let k = (case key of None \<Rightarrow> key0 | Some k \<Rightarrow> k);
       let handle = snprintf_job_handle (job_handle_prefix st) (job_handle_count st);
       let hk = server_job_hash sg handle;
       let job1 = job\<lparr>job_priority := prio, job_function := Some f,
                      job_handle := handle, job_unique := snprintf_unique uniq,
                      job_data := Some dat, job_data_size := length dat,
                      job_unique_key := k, job_handle_key := hk\<rparr>;
       let ub = unat k mod GEARMAN_JOB_HASH_SIZE;
       let hb = unat hk mod GEARMAN_JOB_HASH_SIZE;
       Some ((set_job j job1 (set_function f (fn\<lparr>job_total := job_total fn + 1\<rparr>) st))
               \<lparr>job_handle_count := job_handle_count st + 1,
                unique_hash := (unique_hash st)(ub := j # unique_hash st ub),
                unique_count := unique_count st + 1,
                job_hash := (job_hash st)(hb := j # job_hash st hb),
                server_job_count := server_job_count st + 1\<rparr>)
     }"

text \<open>
  Lines 166 to 181: the job is queued; when that fails, the queue's \<open>done\<close> is called for
  a job without a client, and the job is freed.
\<close>

definition job_add_enqueue ::
  "gearman_server_st \<Rightarrow> nat \<Rightarrow> nat \<Rightarrow> nat option
     \<Rightarrow> (nat option \<times> gearman_return_t \<times> gearman_server_st) option" where
  "job_add_enqueue st j usize server_client =
     do {
       (ret, st1) \<leftarrow> gearman_server_job_queue st j;
       if ret \<noteq> GEARMAN_SUCCESS then do {
         job \<leftarrow> job_at st1 j;
         f \<leftarrow> job_function job;
         fn \<leftarrow> function_at st1 f;
         let st2 =
           (if server_client = None \<and> queue_done_fn (gearman st1) \<noteq> None
            then st1\<lparr>queue_calls := queue_calls st1 @
                   [QUEUE_DONE (job_unique job) usize (function_name fn)]\<rparr>
            else st1);
         st3 \<leftarrow> gearman_server_job_free st2 j;
         Some (None, ret, st3)
       } else job_add_attach st1 j GEARMAN_SUCCESS server_client
     }"

text \<open>Lines 94 to 182: the new job.\<close>

definition job_add_create ::
  "bool \<Rightarrow> u32 \<Rightarrow> gearman_server_st \<Rightarrow> nat \<Rightarrow> u32 option \<Rightarrow> string \<Rightarrow> string \<Rightarrow> string
     \<Rightarrow> gearman_job_priority_t \<Rightarrow> nat option
     \<Rightarrow> (nat option \<times> gearman_return_t \<times> gearman_server_st) option" where
  "job_add_create sg key0 st f key fname uniq dat prio server_client =
     do {
       fn \<leftarrow> function_at st f;
       if max_queue_size fn > 0 \<and> job_total fn \<ge> max_queue_size fn
       then Some (None, GEARMAN_JOB_QUEUE_FULL, st)
       else do {
         (created, st1) \<leftarrow> gearman_server_job_create st;
         case created of
           None \<Rightarrow> Some (None, GEARMAN_MEMORY_ALLOCATION_FAILURE, st1)
         | Some j \<Rightarrow> do {
             st2 \<leftarrow> job_add_fill sg key0 st1 f key uniq dat prio j;
             (ret, st3) \<leftarrow> job_add_persist st2 j fname (length uniq) dat prio server_client;
             if ret \<noteq> GEARMAN_SUCCESS then do {
               job3 \<leftarrow> job_at st3 j;
               st4 \<leftarrow> gearman_server_job_free (set_job j (job3\<lparr>job_data := None\<rparr>) st3) j;
               Some (None, ret, st4)
             } else job_add_enqueue st3 j (length uniq) server_client
           }
       }
     }"

definition gearman_server_job_add ::
  "bool \<Rightarrow> u32 \<Rightarrow> gearman_server_st \<Rightarrow> string \<Rightarrow> string \<Rightarrow> string
     \<Rightarrow> gearman_job_priority_t \<Rightarrow> nat option
     \<Rightarrow> (nat option \<times> gearman_return_t \<times> gearman_server_st) option" where
  "gearman_server_job_add sg key0 st fname uniq dat prio server_client =
     do {
       (server_function, st1) \<leftarrow> gearman_server_function_get st fname;
       case server_function of
         None \<Rightarrow> Some (None, GEARMAN_MEMORY_ALLOCATION_FAILURE, st1)
       | Some f \<Rightarrow> do {
           (key, server_job) \<leftarrow> job_add_lookup sg st1 f uniq dat;
           case server_job of
             None \<Rightarrow> job_add_create sg key0 st1 f key fname uniq dat prio server_client
           | Some j \<Rightarrow> job_add_attach st1 j GEARMAN_JOB_EXISTS server_client
         }
     }"

section \<open>Dispatch (server\_job.c)\<close>

text \<open>The first loop of \<open>gearman_server_job_take\<close>: the first worker of the connection
  whose function has \<open>job_count != 0\<close>.\<close>

fun take_worker :: "gearman_server_st \<Rightarrow> nat list \<Rightarrow> nat option option" where
  "take_worker st [] = Some None"
| "take_worker st (w # rest) =
     (case worker_heap st w of
        None \<Rightarrow> None
      | Some worker \<Rightarrow>
          (case function_at st (worker_function worker) of
             None \<Rightarrow> None
           | Some fn \<Rightarrow> if job_count fn \<noteq> 0 then Some (Some w) else take_worker st rest))"

text \<open>The loop over the priorities, from HIGH on. \<open>None\<close>: the loop ends with
  \<open>priority == GEARMAN_JOB_PRIORITY_MAX\<close>.\<close>

definition take_priority :: "gearman_server_function_st \<Rightarrow> gearman_job_priority_t option" where
  "take_priority fn =
     (if job_list fn GEARMAN_JOB_PRIORITY_HIGH \<noteq> [] then Some GEARMAN_JOB_PRIORITY_HIGH
      else if job_list fn GEARMAN_JOB_PRIORITY_NORMAL \<noteq> [] then Some GEARMAN_JOB_PRIORITY_NORMAL
      else if job_list fn GEARMAN_JOB_PRIORITY_LOW \<noteq> [] then Some GEARMAN_JOB_PRIORITY_LOW
      else None)"

text \<open>
  Lines 320 to 345 of \<open>gearman_server_job_take\<close>: the head of the list is unlinked
  through the job's own function pointer and given to the worker.
\<close>

definition take_assign ::
  "gearman_server_st \<Rightarrow> nat \<Rightarrow> (nat \<times> gearman_server_st) option option" where
  "take_assign st c =
     do {
       con \<leftarrow> con_heap st c;
       found \<leftarrow> take_worker st (con_worker_list con);
       case found of
         None \<Rightarrow> Some None
       | Some w \<Rightarrow> do {
           worker \<leftarrow> worker_heap st w;
           wfn \<leftarrow> function_at st (worker_function worker);
           p \<leftarrow> take_priority wfn;
           let j = hd (job_list wfn p);
           job \<leftarrow> job_at st j;
           f \<leftarrow> job_function job;
           fn \<leftarrow> function_at st f;
           let fn1 = fn\<lparr>job_list := (job_list fn)(p := tl (job_list wfn p)),
                        job_count := job_count fn - 1,
                        job_running := job_running fn + 1\<rparr>;
           Some (Some (j,
             (set_job j (job\<lparr>job_worker := Some w\<rparr>) (set_function f fn1 st))
               \<lparr>worker_heap := (worker_heap st)(w \<mapsto> worker\<lparr>worker_job := Some j\<rparr>)\<rparr>))
         }
     }"

text \<open>
  The number of live jobs bounds the recursion of \<open>gearman_server_job_take\<close> and of
  \<open>gearman_server_job_peek\<close>: each of their recursive calls follows a
  \<open>gearman_server_job_free\<close>.
\<close>

fun heap_live :: "'a option list \<Rightarrow> nat" where
  "heap_live [] = 0"
| "heap_live (None # h) = heap_live h"
| "heap_live (Some x # h) = Suc (heap_live h)"

definition live_jobs :: "gearman_server_st \<Rightarrow> nat" where
  "live_jobs st = heap_live (job_heap st)"

lemma heap_live_update_Some:
  "heap_at h j = Some x \<Longrightarrow> heap_live (h[j := Some y]) = heap_live h"
proof (induction h arbitrary: j)
  case Nil
  then show ?case by (simp add: heap_at_def)
next
  case (Cons a h)
  then show ?case by (cases j; cases a) (auto simp: heap_at_def split: if_splits)
qed

lemma heap_live_update_None:
  "heap_at h j = Some x \<Longrightarrow> Suc (heap_live (h[j := None])) = heap_live h"
proof (induction h arbitrary: j)
  case Nil
  then show ?case by (simp add: heap_at_def)
next
  case (Cons a h)
  then show ?case by (cases j; cases a) (auto simp: heap_at_def split: if_splits)
qed

lemma heap_at_update:
  "heap_at (h[i := v]) j = (if i = j \<and> j < length h then v else heap_at h j)"
  by (simp add: heap_at_def)

lemma live_jobs_client_free:
  "gearman_server_client_free st cl = Some st' \<Longrightarrow> live_jobs st' = live_jobs st"
  by (auto simp: gearman_server_client_free_def live_jobs_def set_job_def job_at_def
      heap_live_update_Some split: option.splits)

lemma live_jobs_free_clients:
  "free_clients st cls = Some st' \<Longrightarrow> live_jobs st' = live_jobs st"
  by (induction cls arbitrary: st) (auto simp: live_jobs_client_free split: option.splits)

lemma job_at_client_free:
  "gearman_server_client_free st cl = Some st' \<Longrightarrow> job_at st j \<noteq> None \<Longrightarrow> job_at st' j \<noteq> None"
  by (auto simp: gearman_server_client_free_def set_job_def job_at_def heap_at_update
      split: option.splits if_splits)

lemma job_at_free_clients:
  "free_clients st cls = Some st' \<Longrightarrow> job_at st j \<noteq> None \<Longrightarrow> job_at st' j \<noteq> None"
proof (induction cls arbitrary: st)
  case Nil
  then show ?case by simp
next
  case (Cons cl cls)
  then show ?case by (auto split: option.splits dest: job_at_client_free)
qed

lemma live_jobs_job_free:
  "gearman_server_job_free st j = Some st' \<Longrightarrow> live_jobs st' < live_jobs st"
proof -
  assume a: "gearman_server_job_free st j = Some st'"
  then obtain job f fn st2 where
    j: "job_at st j = Some job" and
    fc: "free_clients (set_function f fn st) (job_client_list job) = Some st2" and
    h: "job_heap st' = (job_heap st2)[j := None]"
    by (auto simp: gearman_server_job_free_def Let_def split: Option.bind_splits option.splits if_splits)
  have "job_at (set_function f fn st) j \<noteq> None"
    using j by (simp add: job_at_def set_function_def)
  then have "job_at st2 j \<noteq> None" using fc by (rule job_at_free_clients[rotated])
  then obtain x where "heap_at (job_heap st2) j = Some x" by (auto simp: job_at_def)
  then have "Suc (live_jobs st') = live_jobs st2"
    by (simp add: live_jobs_def h heap_live_update_None)
  moreover have "live_jobs st2 = live_jobs st"
    using live_jobs_free_clients[OF fc] by (simp add: live_jobs_def set_function_def)
  ultimately show ?thesis by simp
qed

lemma live_jobs_take_assign:
  "take_assign st c = Some (Some (j, st')) \<Longrightarrow> live_jobs st' = live_jobs st"
  by (auto simp: take_assign_def live_jobs_def set_job_def set_function_def job_at_def
      heap_live_update_Some Let_def split: option.splits Option.bind_splits)

function gearman_server_job_take ::
  "gearman_server_st \<Rightarrow> nat \<Rightarrow> (nat option \<times> gearman_server_st) option" where
  "gearman_server_job_take st c =
     (case take_assign st c of
        None \<Rightarrow> None
      | Some None \<Rightarrow> Some (None, st)
      | Some (Some (j, st1)) \<Rightarrow>
          (case job_at st1 j of
             None \<Rightarrow> None
           | Some job \<Rightarrow>
               if GEARMAN_SERVER_JOB_IGNORE \<in> job_options job then
                 (case gearman_server_job_free st1 j of
                    None \<Rightarrow> None
                  | Some st2 \<Rightarrow> gearman_server_job_take st2 c)
               else Some (Some j, st1)))"
  by pat_completeness auto
termination
  by (relation "measure (\<lambda>(st, c). live_jobs st)")
     (auto dest!: live_jobs_job_free live_jobs_take_assign)


declare gearman_server_job_take.simps [simp del]

lemma live_jobs_take:
  "gearman_server_job_take st c = Some (r, st') \<Longrightarrow> live_jobs st' \<le> live_jobs st"
proof (induction st c rule: gearman_server_job_take.induct)
  case (1 st c)
  show ?case
  proof (cases "take_assign st c")
    case None
    with "1.prems" show ?thesis by (simp add: gearman_server_job_take.simps)
  next
    case (Some a)
    show ?thesis
    proof (cases a)
      case None
      with Some "1.prems" show ?thesis by (simp add: gearman_server_job_take.simps)
    next
      case (Some b)
      obtain j st1 where b: "b = (j, st1)" by (cases b)
      note ta = \<open>take_assign st c = Some a\<close>[unfolded Some b]
      have l1: "live_jobs st1 = live_jobs st" by (rule live_jobs_take_assign[OF ta])
      from "1.prems" ta obtain job where job: "job_at st1 j = Some job"
        by (auto simp: gearman_server_job_take.simps[of st c] split: option.splits)
      show ?thesis
      proof (cases "GEARMAN_SERVER_JOB_IGNORE \<in> job_options job")
        case True
        with "1.prems" ta job obtain st2 where
          fr: "gearman_server_job_free st1 j = Some st2" and
          rec: "gearman_server_job_take st2 c = Some (r, st')"
          by (auto simp: gearman_server_job_take.simps[of st c] split: option.splits)
        have "live_jobs st' \<le> live_jobs st2"
          by (rule "1.IH"[OF ta refl refl job True fr rec])
        with live_jobs_job_free[OF fr] l1 show ?thesis by simp
      next
        case False
        with "1.prems" ta job have "st' = st1"
          by (auto simp: gearman_server_job_take.simps[of st c] split: option.splits)
        with l1 show ?thesis by simp
      qed
    qed
  qed
qed

text \<open>The two nested loops of \<open>gearman_server_job_peek\<close>: the head of the first
  non-empty list, by priority, of the first worker that has one among the workers
  whose function has \<open>job_count != 0\<close>.\<close>

fun peek_find :: "gearman_server_st \<Rightarrow> nat list \<Rightarrow> nat option option" where
  "peek_find st [] = Some None"
| "peek_find st (w # rest) =
     (case worker_heap st w of
        None \<Rightarrow> None
      | Some worker \<Rightarrow>
          (case function_at st (worker_function worker) of
             None \<Rightarrow> None
           | Some fn \<Rightarrow>
               if job_count fn \<noteq> 0 then
                 (case take_priority fn of
                    None \<Rightarrow> peek_find st rest
                  | Some p \<Rightarrow> Some (Some (hd (job_list fn p))))
               else peek_find st rest))"

function gearman_server_job_peek ::
  "gearman_server_st \<Rightarrow> nat \<Rightarrow> (nat option \<times> gearman_server_st) option" where
  "gearman_server_job_peek st c =
     (case con_heap st c of
        None \<Rightarrow> None
      | Some con \<Rightarrow>
          (case peek_find st (con_worker_list con) of
             None \<Rightarrow> None
           | Some None \<Rightarrow> Some (None, st)
           | Some (Some j) \<Rightarrow>
               (case job_at st j of
                  None \<Rightarrow> None
                | Some job \<Rightarrow>
                    if GEARMAN_SERVER_JOB_IGNORE \<in> job_options job then
                      (case gearman_server_job_take
                              (set_job j (job\<lparr>job_options :=
                                 job_options job - {GEARMAN_SERVER_JOB_IGNORE}\<rparr>) st) c of
                         None \<Rightarrow> None
                       | Some (None, st1) \<Rightarrow> None
                       | Some (Some taken, st1) \<Rightarrow>
                           (case gearman_server_job_free st1 taken of
                              None \<Rightarrow> None
                            | Some st2 \<Rightarrow> gearman_server_job_peek st2 c))
                    else Some (Some j, st))))"
  by pat_completeness auto
termination
proof (relation "measure (\<lambda>(st, c). live_jobs st)", goal_cases)
  case 1
  show ?case by simp
next
  case (2 st c con found j job r taken st1 st2)
  have "live_jobs (set_job j (job\<lparr>job_options :=
          job_options job - {GEARMAN_SERVER_JOB_IGNORE}\<rparr>) st) = live_jobs st"
    using 2 by (simp add: live_jobs_def set_job_def job_at_def heap_live_update_Some)
  with 2 show ?case
    by (auto dest!: live_jobs_take live_jobs_job_free)
qed

declare gearman_server_job_peek.simps [simp del]


section \<open>Properties of the hash\<close>

lemma hash_loop_foldl:
  "hash_loop sg key v = foldl spec_hash_mix v (map (char_value sg) key)"
  by (induction key arbitrary: v) (simp_all add: spec_hash_mix_def Let_def)

text \<open>
  Claim C9 as stated fails where plain \<open>char\<close> is signed: the byte \<open>0xFF\<close> enters the
  sum as \<open>-1\<close>, that is \<open>0xFFFFFFFF\<close>, and not as 255, and the hash of the one-byte
  string is not the value of the recurrence over the byte.
\<close>

theorem signed_char_hash_differs:
  "server_job_hash True [CHR 0xFF] = 2925896852 \<and> spec_hash [255] = 3350335261 \<and>
   server_job_hash True [CHR 0xFF] \<noteq> spec_hash (map of_char [CHR 0xFF])"
  by code_simp

text \<open>
  Claim C9, amended. The hash is never 0. Where \<open>char\<close> is unsigned, and for every string
  of bytes below 128 on any platform, it is the value of the 32-bit recurrence of the
  specification over the bytes (a mixing step for each byte, the finalisation, 0 mapped
  to 1). Where \<open>char\<close> is signed, a byte \<open>b\<close> of 128 or more enters the same recurrence
  as \<open>b + 0xFFFFFF00\<close>, its sign extension.
\<close>

theorem server_job_hash_bytes:
  "server_job_hash sg key \<noteq> 0 \<and>
   (\<not> sg \<or> (\<forall>c \<in> set key. of_char c < (128::nat)) \<longrightarrow>
      server_job_hash sg key = spec_hash (map of_char key)) \<and>
   server_job_hash True key =
     spec_hash (map (\<lambda>c. if of_char c < (128::nat) then of_char c else of_char c + 0xFFFFFF00) key)"
proof (intro conjI impI)
  show "server_job_hash sg key \<noteq> 0"
    by (simp add: server_job_hash_def Let_def)
  have eq: "server_job_hash sg key = spec_hash (map (char_value sg) key)" for sg
    by (simp add: server_job_hash_def spec_hash_def spec_hash_final_def hash_loop_foldl Let_def)
  show "server_job_hash sg key = spec_hash (map of_char key)"
    if "\<not> sg \<or> (\<forall>c \<in> set key. of_char c < (128::nat))"
  proof -
    from that have m: "map (char_value sg) key = map of_char key"
      by (auto simp: char_value_def)
    show ?thesis by (simp only: eq[of sg] m)
  qed
  have "char_value True = (\<lambda>c. if of_char c < (128::nat) then of_char c else of_char c + 0xFFFFFF00)"
    by (auto simp: char_value_def fun_eq_iff)
  with eq[of True] show "server_job_hash True key =
     spec_hash (map (\<lambda>c. if of_char c < (128::nat) then of_char c else of_char c + 0xFFFFFF00) key)"
    by simp
qed

theorem server_job_hash_bytes_witness:
  "server_job_hash True ''a'' = spec_hash [97] \<and>
   server_job_hash False [CHR 0xFF] = spec_hash [255] \<and>
   server_job_hash True [CHR 0xFF] = spec_hash [0xFFFFFFFF]"
  using server_job_hash_bytes[of True "''a''"] server_job_hash_bytes[of False "[CHR 0xFF]"]
    server_job_hash_bytes[of True "[CHR 0xFF]"]
  by simp

section \<open>Example states\<close>

definition example_server :: gearman_server_st where
  "example_server =
     \<lparr>server_options = {GEARMAN_SERVER_ALLOCATED}, job_handle_prefix = ''H:x'',
      job_handle_count = 0, function_list = [], function_count = 0,
      job_hash = (\<lambda>b. []), server_job_count = 0, unique_hash = (\<lambda>b. []), unique_count = 0,
      free_job_list = [], free_job_count = 0,
      gearman = \<lparr>queue_add_fn = None, queue_flush_fn = None, queue_done_fn = None\<rparr>,
      function_heap = [], job_heap = [], worker_heap = Map.empty, con_heap = Map.empty,
      client_heap = Map.empty, malloc_results = [], queue_calls = []\<rparr>"

section \<open>Frame lemmas\<close>

lemma malloc_frame: "malloc st = (ok, st') \<Longrightarrow> st\<lparr>malloc_results := malloc_results st'\<rparr> = st'"
  by (auto simp: malloc_def split: list.splits)

lemma io_packet_add_frame:
  "gearman_server_io_packet_add st c m cmd = Some (ret, st') \<Longrightarrow>
   st\<lparr>con_heap := con_heap st', malloc_results := malloc_results st'\<rparr> = st'"
  by (auto simp: gearman_server_io_packet_add_def malloc_def split: option.splits prod.splits if_splits list.splits)

lemma io_packet_add_ret:
  "gearman_server_io_packet_add st c m cmd = Some (ret, st') \<Longrightarrow>
   ret = GEARMAN_SUCCESS \<or> ret = GEARMAN_MEMORY_ALLOCATION_FAILURE"
  by (auto simp: gearman_server_io_packet_add_def split: option.splits prod.splits if_splits)

lemma queue_noop_frame:
  "queue_noop st ws = Some (ret, st') \<Longrightarrow>
   st\<lparr>con_heap := con_heap st', malloc_results := malloc_results st'\<rparr> = st'"
proof (induction ws arbitrary: st)
  case Nil
  then show ?case by auto
next
  case (Cons w ws)
  show ?case
  proof (cases "worker_heap st w")
    case None
    with Cons.prems show ?thesis by simp
  next
    case (Some worker)
    note wk = Some
    show ?thesis
    proof (cases "con_heap st (worker_con worker)")
      case None
      with Cons.prems wk show ?thesis by simp
    next
      case (Some con)
      show ?thesis
      proof (cases "\<not> noop_queued con \<and> GEARMAN_SERVER_CON_SLEEPING \<notin> con_options con")
        case True
        with Cons.prems wk Some have "queue_noop st ws = Some (ret, st')" by simp
        then show ?thesis by (rule Cons.IH)
      next
        case False
        with Cons.prems wk Some obtain r1 st1 where
          pa: "gearman_server_io_packet_add st (worker_con worker)
                 GEARMAN_MAGIC_RESPONSE GEARMAN_COMMAND_NOOP = Some (r1, st1)"
          by (auto split: option.splits)
        note f1 = io_packet_add_frame[OF pa]
        show ?thesis
        proof (cases "r1 = GEARMAN_SUCCESS")
          case ok: True
          with Cons.prems wk Some False pa obtain con1 where
            rec: "queue_noop (st1\<lparr>con_heap := (con_heap st1)(worker_con worker \<mapsto>
                                       con1\<lparr>noop_queued := True\<rparr>)\<rparr>) ws = Some (ret, st')"
            by (auto split: option.splits)
          from f1 obtain ch mr where s1: "st1 = st\<lparr>con_heap := ch, malloc_results := mr\<rparr>"
            by (rule that[OF sym])
          from Cons.IH[OF rec] show ?thesis unfolding s1 by simp
        next
          case bad: False
          with Cons.prems wk Some False pa have "st' = st1" by (auto split: option.splits)
          with f1 show ?thesis by simp
        qed
      qed
    qed
  qed
qed


lemma queue_noop_ret:
  "queue_noop st ws = Some (ret, st') \<Longrightarrow>
   ret = GEARMAN_SUCCESS \<or> ret = GEARMAN_MEMORY_ALLOCATION_FAILURE"
  by (induction ws arbitrary: st)
     (auto split: option.splits if_splits dest: io_packet_add_ret)

lemma function_at_set_function:
  "function_at (set_function f fn st) g =
     (if f = g \<and> g < length (function_heap st) then Some fn else function_at st g)"
  by (simp add: function_at_def set_function_def heap_at_update)

lemma job_at_set_job:
  "job_at (set_job j job st) i =
     (if j = i \<and> i < length (job_heap st) then Some job else job_at st i)"
  by (simp add: job_at_def set_job_def heap_at_update)

lemma heap_at_SomeD: "heap_at h a = Some x \<Longrightarrow> a < length h \<and> h ! a = Some x"
  by (auto simp: heap_at_def split: if_splits)

lemma job_at_SomeD: "job_at st j = Some job \<Longrightarrow> j < length (job_heap st)"
  by (auto simp: job_at_def dest: heap_at_SomeD)

lemma function_at_SomeD: "function_at st f = Some fn \<Longrightarrow> f < length (function_heap st)"
  by (auto simp: function_at_def dest: heap_at_SomeD)

lemma job_queue_result:
  assumes "gearman_server_job_queue st j = Some (ret, st')"
  shows "\<exists>job f fn st2.
           job_at st j = Some job \<and> job_function job = Some f \<and> function_at st f = Some fn \<and>
           queue_noop
             (set_job j (job\<lparr>job_worker := None, job_numerator := 0, job_denominator := 0\<rparr>)
               (set_function f
                 (if job_worker job \<noteq> None then fn\<lparr>job_running := job_running fn - 1\<rparr> else fn) st))
             (worker_list fn) = Some (ret, st2) \<and>
           st' = (if ret \<noteq> GEARMAN_SUCCESS then st2
                  else set_function f
                    ((if job_worker job \<noteq> None then fn\<lparr>job_running := job_running fn - 1\<rparr> else fn)
                       \<lparr>job_list := (job_list fn)(job_priority job := job_list fn (job_priority job) @ [j]),
                        job_count := job_count fn + 1\<rparr>) st2)"
proof -
  from assms obtain job f fn where
    j: "job_at st j = Some job" and f: "job_function job = Some f" and fn: "function_at st f = Some fn"
    by (auto simp: gearman_server_job_queue_def split: Option.bind_splits if_splits)
  let ?fn1 = "if job_worker job \<noteq> None then fn\<lparr>job_running := job_running fn - 1\<rparr> else fn"
  let ?st1 = "set_job j (job\<lparr>job_worker := None, job_numerator := 0, job_denominator := 0\<rparr>)
               (set_function f ?fn1 st)"
  from assms j f fn obtain st2 where
    qn: "queue_noop ?st1 (worker_list fn) = Some (ret, st2)"
    by (auto simp: gearman_server_job_queue_def Let_def split: Option.bind_splits if_splits)
  note fr = queue_noop_frame[OF qn]
  have "function_heap st2 = function_heap ?st1"
    using arg_cong[OF fr, of function_heap] by simp
  then have f2: "function_at st2 f = Some ?fn1"
    using function_at_SomeD[OF fn]
    by (simp add: function_at_def set_job_def set_function_def heap_at_update)
  from assms j f fn qn f2 have
    "st' = (if ret \<noteq> GEARMAN_SUCCESS then st2
            else set_function f
                    (?fn1\<lparr>job_list := (job_list fn)(job_priority job := job_list fn (job_priority job) @ [j]),
                        job_count := job_count fn + 1\<rparr>) st2)"
    by (auto simp: gearman_server_job_queue_def Let_def split: if_splits)
  with j f fn qn show ?thesis by blast
qed


definition example_worker_server :: gearman_server_st where
  "example_worker_server =
     example_server
       \<lparr>function_list := [0], function_count := 1,
        function_heap :=
          [Some \<lparr>function_options = {GEARMAN_SERVER_FUNCTION_ALLOCATED}, job_count = 0,
                 job_total = 0, job_running = 0, max_queue_size = 0, function_name = ''f'',
                 worker_list = [0], job_list = (\<lambda>p. [])\<rparr>],
        worker_heap := [0 \<mapsto> \<lparr>worker_con = 0, worker_function = 0, worker_job = None\<rparr>],
        con_heap := [0 \<mapsto> \<lparr>con_options = {}, noop_queued = False, con_worker_list = [0],
                            io_packet_list = []\<rparr>]\<rparr>"

lemmas job_add_defs =
  gearman_server_job_add_def gearman_server_function_get_def
  gearman_server_function_create_def malloc_def function_at_def heap_at_def set_function_def
  GEARMAN_DEFAULT_MAX_QUEUE_SIZE_def job_add_lookup_def job_add_create_def
  gearman_server_job_create_def job_add_fill_def job_at_def set_job_def job_add_persist_def
  job_add_enqueue_def gearman_server_job_queue_def job_linked_def job_add_attach_def
  zero_job_def Let_def
  gearman_server_io_packet_add_def server_job_get_unique_def c_str_def snprintf_unique_def
  GEARMAN_UNIQUE_SIZE_def

lemma example_handles:
  "snprintf_job_handle ''H:x'' 0 = ''H:x:0''"
  "snprintf_job_handle ''H:x'' 1 = ''H:x:1''"
  "snprintf_job_handle ''H:x'' 2 = ''H:x:2''"
  by (simp_all add: snprintf_job_handle_def c_str_def decimal.simps digit_def
      GEARMAN_JOB_HANDLE_SIZE_def)

lemma example_hashes:
  "server_job_hash False ''H:x:0'' = 1543485084"
  "server_job_hash False ''H:x:1'' = 4276944060"
  "server_job_hash False ''H:x:2'' = 72419204"
  "server_job_hash False ''a'' = 3392050242"
  "server_job_hash False ''b'' = 14385563"
  "server_job_hash False ''c'' = 4005191001"
  by code_simp+

lemmas example_evals = example_handles example_hashes GEARMAN_JOB_HASH_SIZE_def

lemmas take_defs =
  gearman_server_job_take.simps take_assign_def take_priority_def

text \<open>
  Claim C2, amended. When \<open>gearman_server_job_queue\<close> succeeds on a job that has a
  worker, the job is at the end (not at the head) of the list of its priority on its
  function, the other lists are as before, the job has no worker any more, and the
  function's \<open>job_running\<close> is one less.
\<close>

theorem job_queue_requeue_tail:
  assumes j: "job_at st j = Some job" and w: "job_worker job = Some w"
    and f: "job_function job = Some f" and fn: "function_at st f = Some fn"
    and q: "gearman_server_job_queue st j = Some (GEARMAN_SUCCESS, st')"
  shows "\<exists>fn' job'. function_at st' f = Some fn' \<and> job_at st' j = Some job' \<and>
           job_list fn' (job_priority job) = job_list fn (job_priority job) @ [j] \<and>
           (\<forall>p. p \<noteq> job_priority job \<longrightarrow> job_list fn' p = job_list fn p) \<and>
           job_running fn' = job_running fn - 1 \<and> job_count fn' = job_count fn + 1 \<and>
           job_worker job' = None"
proof -
  from job_queue_result[OF q] j f fn w obtain st2 where
    qn: "queue_noop
           (set_job j (job\<lparr>job_worker := None, job_numerator := 0, job_denominator := 0\<rparr>)
             (set_function f (fn\<lparr>job_running := job_running fn - 1\<rparr>) st))
           (worker_list fn) = Some (GEARMAN_SUCCESS, st2)"
    and st': "st' = set_function f
                (fn\<lparr>job_running := job_running fn - 1,
                    job_list := (job_list fn)(job_priority job := job_list fn (job_priority job) @ [j]),
                    job_count := job_count fn + 1\<rparr>) st2"
    by auto
  note fr = queue_noop_frame[OF qn]
  have fh: "function_heap st2 = (function_heap st)[f := Some (fn\<lparr>job_running := job_running fn - 1\<rparr>)]"
    using arg_cong[OF fr, of function_heap] by (simp add: set_job_def set_function_def)
  have jh: "job_heap st2 =
      (job_heap st)[j := Some (job\<lparr>job_worker := None, job_numerator := 0, job_denominator := 0\<rparr>)]"
    using arg_cong[OF fr, of job_heap] by (simp add: set_job_def set_function_def)
  from function_at_SomeD[OF fn] fh have
    "function_at st' f = Some (fn\<lparr>job_running := job_running fn - 1,
                    job_list := (job_list fn)(job_priority job := job_list fn (job_priority job) @ [j]),
                    job_count := job_count fn + 1\<rparr>)"
    by (simp add: st' function_at_set_function)
  moreover from job_at_SomeD[OF j] jh have
    "job_at st' j = Some (job\<lparr>job_worker := None, job_numerator := 0, job_denominator := 0\<rparr>)"
    by (simp add: st' job_at_def set_function_def heap_at_update)
  ultimately show ?thesis by simp
qed

text \<open>
  Claim C2 as stated fails: two jobs are submitted, the first is taken by a worker and
  queued again; it then stands behind the second one, which stays at the head.
\<close>

theorem requeue_goes_behind_queued_job:
  "do {
     (a, r1, s1) \<leftarrow> gearman_server_job_add False 0 example_worker_server ''f'' ''a'' ''x''
                      GEARMAN_JOB_PRIORITY_NORMAL None;
     (b, r2, s2) \<leftarrow> gearman_server_job_add False 0 s1 ''f'' ''b'' ''y''
                      GEARMAN_JOB_PRIORITY_NORMAL None;
     (t, s3) \<leftarrow> gearman_server_job_take s2 0;
     (r, s4) \<leftarrow> gearman_server_job_queue s3 0;
     fn \<leftarrow> function_at s4 0;
     Some (a, b, t, r, job_list fn GEARMAN_JOB_PRIORITY_NORMAL)
   } = Some (Some 0, Some 1, Some 0, GEARMAN_SUCCESS, [1, 0])"
  by (simp add: job_add_defs take_defs example_worker_server_def example_server_def
      example_evals)


text \<open>What one pass of the loop does to the connection of a worker.\<close>

definition noop_effect :: "gearman_server_con_st \<Rightarrow> gearman_server_con_st" where
  "noop_effect con =
     (if \<not> noop_queued con \<and> GEARMAN_SERVER_CON_SLEEPING \<notin> con_options con then con
      else con\<lparr>io_packet_list :=
                 io_packet_list con @ [(GEARMAN_MAGIC_RESPONSE, GEARMAN_COMMAND_NOOP)],
               noop_queued := True\<rparr>)"

definition worker_cons :: "gearman_server_st \<Rightarrow> nat list \<Rightarrow> nat option list" where
  "worker_cons st ws = map (\<lambda>w. map_option worker_con (worker_heap st w)) ws"

lemma queue_noop_success_cons:
  "queue_noop st ws = Some (GEARMAN_SUCCESS, st') \<Longrightarrow> distinct (worker_cons st ws) \<Longrightarrow>
   con_heap st' c =
     (if Some c \<in> set (worker_cons st ws) then map_option noop_effect (con_heap st c)
      else con_heap st c)"
proof (induction ws arbitrary: st)
  case Nil
  then show ?case by (simp add: worker_cons_def)
next
  case (Cons w ws)
  from Cons.prems(1) obtain worker con where
    wk: "worker_heap st w = Some worker" and cn: "con_heap st (worker_con worker) = Some con"
    by (auto split: option.splits)
  from Cons.prems(2) wk have
    d: "distinct (worker_cons st ws)" and nin: "Some (worker_con worker) \<notin> set (worker_cons st ws)"
    by (auto simp: worker_cons_def)
  show ?case
  proof (cases "\<not> noop_queued con \<and> GEARMAN_SERVER_CON_SLEEPING \<notin> con_options con")
    case True
    with Cons.prems(1) wk cn have rec: "queue_noop st ws = Some (GEARMAN_SUCCESS, st')" by simp
    from True have "noop_effect con = con" by (simp add: noop_effect_def)
    with Cons.IH[OF rec d] nin wk cn show ?thesis
      by (auto simp: worker_cons_def)
  next
    case False
    with Cons.prems(1) wk cn obtain st1 where
      rec: "queue_noop st1 ws = Some (GEARMAN_SUCCESS, st')" and
      c1: "con_heap st1 = (con_heap st)(worker_con worker \<mapsto> noop_effect con)" and
      w1: "worker_heap st1 = worker_heap st"
      by (auto simp: gearman_server_io_packet_add_def malloc_def noop_effect_def
          split: option.splits list.splits if_splits)
    have wc: "worker_cons st1 ws = worker_cons st ws" by (simp add: worker_cons_def w1)
    from Cons.IH[OF rec] d wc have
      "con_heap st' c =
         (if Some c \<in> set (worker_cons st ws) then map_option noop_effect (con_heap st1 c)
          else con_heap st1 c)"
      by simp
    with nin wk cn c1 show ?thesis
      by (auto simp: worker_cons_def)
  qed
qed

text \<open>
  Claim C1, amended. When \<open>gearman_server_job_queue\<close> succeeds and the workers of
  the function are on distinct connections, a worker whose connection has no NOOP queued
  gets one NOOP at the end of its connection's packets, with \<open>noop_queued\<close> set, if
  the connection sleeps, and nothing changes on its connection if it does not sleep.
\<close>

theorem job_queue_noop_wakeup:
  assumes q: "gearman_server_job_queue st j = Some (GEARMAN_SUCCESS, st')"
    and j: "job_at st j = Some job" and f: "job_function job = Some f"
    and fn: "function_at st f = Some fn"
    and d: "distinct (worker_cons st (worker_list fn))"
    and w: "w \<in> set (worker_list fn)" and wk: "worker_heap st w = Some worker"
    and cn: "con_heap st (worker_con worker) = Some con"
    and nq: "\<not> noop_queued con"
  shows "con_heap st' (worker_con worker) =
           (if GEARMAN_SERVER_CON_SLEEPING \<in> con_options con
            then Some (con\<lparr>io_packet_list :=
                       io_packet_list con @ [(GEARMAN_MAGIC_RESPONSE, GEARMAN_COMMAND_NOOP)],
                     noop_queued := True\<rparr>)
            else Some con)"
proof -
  let ?st1 = "set_job j (job\<lparr>job_worker := None, job_numerator := 0, job_denominator := 0\<rparr>)
             (set_function f
               (if job_worker job \<noteq> None then fn\<lparr>job_running := job_running fn - 1\<rparr> else fn) st)"
  from job_queue_result[OF q] j f fn obtain st2 where
    qn: "queue_noop ?st1 (worker_list fn) = Some (GEARMAN_SUCCESS, st2)"
    and st': "con_heap st' = con_heap st2"
    by (auto simp: set_function_def)
  have wc: "worker_cons ?st1 (worker_list fn) = worker_cons st (worker_list fn)"
    by (simp add: worker_cons_def set_job_def set_function_def)
  have ch: "con_heap ?st1 = con_heap st" by (simp add: set_job_def set_function_def)
  from w wk have "Some (worker_con worker) \<in> set (worker_cons st (worker_list fn))"
    by (force simp: worker_cons_def)
  with queue_noop_success_cons[OF qn, of "worker_con worker"] d wc ch cn nq st'
  show ?thesis by (simp add: noop_effect_def)
qed

text \<open>
  Claim C1 as stated fails: a worker that does not sleep and has \<open>noop_queued == false\<close>
  is among those the claim gives a NOOP to, and the code skips it.
\<close>

theorem awake_worker_gets_no_noop:
  "do {
     (a, r, s1) \<leftarrow> gearman_server_job_add False 0 example_worker_server ''f'' ''a'' ''x''
                     GEARMAN_JOB_PRIORITY_NORMAL None;
     fn \<leftarrow> function_at s1 0;
     con \<leftarrow> con_heap s1 0;
     Some (a, r, worker_list fn, GEARMAN_SERVER_CON_SLEEPING \<in> con_options con,
           noop_queued con, io_packet_list con)
   } = Some (Some 0, GEARMAN_SUCCESS, [0], False, False, [])"
  by (simp add: job_add_defs example_worker_server_def example_server_def example_evals)




definition example_two_jobs :: gearman_server_st where
  "example_two_jobs =
     (case do {
             (a, r1, s1) \<leftarrow> gearman_server_job_add False 0 example_worker_server ''f'' ''a'' ''x''
                              GEARMAN_JOB_PRIORITY_NORMAL None;
             (b, r2, s2) \<leftarrow> gearman_server_job_add False 0 s1 ''f'' ''b'' ''y''
                              GEARMAN_JOB_PRIORITY_NORMAL None;
             Some s2
           } of
        Some s \<Rightarrow> s
      | None \<Rightarrow> example_worker_server)"

definition example_running_server :: gearman_server_st where
  "example_running_server =
     (case gearman_server_job_take example_two_jobs 0 of
        Some (t, s) \<Rightarrow> s
      | None \<Rightarrow> example_two_jobs)"

lemmas example_defs =
  example_running_server_def example_two_jobs_def example_worker_server_def example_server_def
  example_evals

theorem job_queue_requeue_tail_witness:
  "\<exists>st' fn' job'.
     gearman_server_job_queue example_running_server 0 = Some (GEARMAN_SUCCESS, st') \<and>
     function_at st' 0 = Some fn' \<and> job_at st' 0 = Some job' \<and>
     job_list fn' GEARMAN_JOB_PRIORITY_NORMAL = [1, 0] \<and> job_worker job' = None"
proof -
  obtain job where j: "job_at example_running_server 0 = Some job"
    and w: "job_worker job = Some 0" and f: "job_function job = Some 0"
    and p: "job_priority job = GEARMAN_JOB_PRIORITY_NORMAL"
    by (simp add: example_defs job_add_defs take_defs)
  obtain fn where fn: "function_at example_running_server 0 = Some fn"
    and l: "job_list fn GEARMAN_JOB_PRIORITY_NORMAL = [1]"
    by (simp add: example_defs job_add_defs take_defs)
  obtain st' where q: "gearman_server_job_queue example_running_server 0 = Some (GEARMAN_SUCCESS, st')"
    by (simp add: example_defs job_add_defs take_defs)
  from job_queue_requeue_tail[OF j w f fn q] q p l show ?thesis by auto
qed

definition example_sleeping_server :: gearman_server_st where
  "example_sleeping_server =
     example_running_server
       \<lparr>con_heap := [0 \<mapsto> \<lparr>con_options = {GEARMAN_SERVER_CON_SLEEPING}, noop_queued = False,
                            con_worker_list = [0], io_packet_list = []\<rparr>]\<rparr>"

theorem job_queue_noop_wakeup_witness:
  "\<exists>st'. gearman_server_job_queue example_sleeping_server 0 = Some (GEARMAN_SUCCESS, st') \<and>
     con_heap st' 0 =
       Some \<lparr>con_options = {GEARMAN_SERVER_CON_SLEEPING}, noop_queued = True,
             con_worker_list = [0],
             io_packet_list = [(GEARMAN_MAGIC_RESPONSE, GEARMAN_COMMAND_NOOP)]\<rparr>"
proof -
  obtain job where j: "job_at example_sleeping_server 0 = Some job"
    and f: "job_function job = Some 0"
    by (simp add: example_sleeping_server_def example_defs job_add_defs take_defs)
  obtain fn where fn: "function_at example_sleeping_server 0 = Some fn"
    and l: "worker_list fn = [0]"
    by (simp add: example_sleeping_server_def example_defs job_add_defs take_defs)
  obtain worker where wk: "worker_heap example_sleeping_server 0 = Some worker"
    and wc: "worker_con worker = 0"
    by (simp add: example_sleeping_server_def example_defs job_add_defs take_defs)
  have cn: "con_heap example_sleeping_server (worker_con worker) =
        Some \<lparr>con_options = {GEARMAN_SERVER_CON_SLEEPING}, noop_queued = False,
             con_worker_list = [0], io_packet_list = []\<rparr>"
    by (simp add: wc example_sleeping_server_def)
  have d: "distinct (worker_cons example_sleeping_server (worker_list fn))"
    by (simp add: l worker_cons_def)
  have w: "0 \<in> set (worker_list fn)" by (simp add: l)
  obtain st' where q: "gearman_server_job_queue example_sleeping_server 0 = Some (GEARMAN_SUCCESS, st')"
    by (simp add: example_sleeping_server_def example_defs job_add_defs take_defs)
  from job_queue_noop_wakeup[OF q j f fn d w wk cn] q wc show ?thesis by simp
qed

section \<open>The steps of job\_add\<close>

lemma job_create_result:
  assumes "gearman_server_job_create st = Some (Some j, st')"
  shows "job_at st' j = Some (zero_job\<lparr>job_options := {GEARMAN_SERVER_JOB_ALLOCATED}\<rparr>)"
    and "st\<lparr>job_heap := job_heap st', free_job_list := free_job_list st',
            free_job_count := free_job_count st', malloc_results := malloc_results st'\<rparr> = st'"
    and "length (job_heap st) \<le> length (job_heap st')"
    and "\<And>i. i \<noteq> j \<Longrightarrow> job_at st' i = job_at st i"
    and "free_job_count st = 0 \<Longrightarrow>
           j = length (job_heap st) \<and> length (job_heap st') = Suc (length (job_heap st)) \<and>
           free_job_count st' = 0"
  using assms
  by (auto simp: gearman_server_job_create_def Let_def malloc_def job_at_def set_job_def
      heap_at_def nth_append split: if_splits list.splits prod.splits)

lemma job_create_none:
  assumes "gearman_server_job_create st = Some (None, st')"
  shows "st\<lparr>malloc_results := malloc_results st'\<rparr> = st'"
  using assms
  by (auto simp: gearman_server_job_create_def Let_def malloc_def
      split: if_splits list.splits prod.splits)

lemma job_add_persist_result:
  assumes "job_add_persist st j fname usize dat prio cl = Some (ret, st')"
  shows "\<exists>job. job_at st j = Some job \<and>
           st\<lparr>job_heap := job_heap st', queue_calls := queue_calls st'\<rparr> = st' \<and>
           (job_heap st' = job_heap st \<or>
            job_heap st' = (job_heap st)[j := Some (job\<lparr>job_options :=
                 insert GEARMAN_SERVER_JOB_QUEUED (job_options job)\<rparr>)]) \<and>
           (GEARMAN_SERVER_QUEUE_REPLAY \<in> server_options st \<longrightarrow>
              ret = GEARMAN_SUCCESS \<and> queue_calls st' = queue_calls st \<and>
              job_heap st' = (job_heap st)[j := Some (job\<lparr>job_options :=
                 insert GEARMAN_SERVER_JOB_QUEUED (job_options job)\<rparr>)])"
  using assms
  by (auto simp: job_add_persist_def Let_def set_job_def
      split: option.splits if_splits)

lemma job_add_attach_result:
  assumes "job_add_attach st j ret cl = Some (r, ret', st')"
  shows "r = Some j" and "ret' = ret"
    and "st\<lparr>job_heap := job_heap st', client_heap := client_heap st'\<rparr> = st'"
    and "cl = None \<Longrightarrow> st' = st"
    and "\<And>job. job_at st j = Some job \<Longrightarrow>
           \<exists>job'. job_at st' j = Some job' \<and>
             job'\<lparr>job_client_list := job_client_list job,
                  job_client_count := job_client_count job\<rparr> = job"
    and "\<And>i. i \<noteq> j \<Longrightarrow> job_at st' i = job_at st i"
  using assms
  by (auto simp: job_add_attach_def set_job_def job_at_def heap_at_update
      split: option.splits if_splits dest: heap_at_SomeD)


definition queue_full :: "gearman_server_function_st \<Rightarrow> bool" where
  "queue_full fn \<longleftrightarrow> max_queue_size fn > 0 \<and> job_total fn \<ge> max_queue_size fn"

lemma job_add_enqueue_cases:
  assumes "job_add_enqueue st j usize cl = Some (r, ret, st')"
  obtains
    (queue_failed) st1 job f fn where
      "gearman_server_job_queue st j = Some (ret, st1)" "ret \<noteq> GEARMAN_SUCCESS"
      "job_at st1 j = Some job" "job_function job = Some f" "function_at st1 f = Some fn"
      "gearman_server_job_free
         (if cl = None \<and> queue_done_fn (gearman st1) \<noteq> None
          then st1\<lparr>queue_calls := queue_calls st1 @
                 [QUEUE_DONE (job_unique job) usize (function_name fn)]\<rparr>
          else st1) j = Some st'"
      "r = None"
  | (queued) st1 where
      "gearman_server_job_queue st j = Some (GEARMAN_SUCCESS, st1)"
      "job_add_attach st1 j GEARMAN_SUCCESS cl = Some (r, ret, st')"
  using assms unfolding job_add_enqueue_def
  by (auto simp: Let_def split: Option.bind_splits if_splits prod.splits)

lemma job_add_create_cases:
  assumes "job_add_create sg key0 st f key fname uniq dat prio cl = Some (r, ret, st')"
  obtains
    (full) fn where
      "function_at st f = Some fn" "queue_full fn"
      "r = None" "ret = GEARMAN_JOB_QUEUE_FULL" "st' = st"
  | (no_memory) fn where
      "function_at st f = Some fn" "\<not> queue_full fn"
      "gearman_server_job_create st = Some (None, st')"
      "r = None" "ret = GEARMAN_MEMORY_ALLOCATION_FAILURE"
  | (persist_failed) fn j st1 st2 st3 job3 where
      "function_at st f = Some fn" "\<not> queue_full fn"
      "gearman_server_job_create st = Some (Some j, st1)"
      "job_add_fill sg key0 st1 f key uniq dat prio j = Some st2"
      "job_add_persist st2 j fname (length uniq) dat prio cl = Some (ret, st3)"
      "ret \<noteq> GEARMAN_SUCCESS" "job_at st3 j = Some job3"
      "gearman_server_job_free (set_job j (job3\<lparr>job_data := None\<rparr>) st3) j = Some st'"
      "r = None"
  | (enqueue) fn j st1 st2 st3 where
      "function_at st f = Some fn" "\<not> queue_full fn"
      "gearman_server_job_create st = Some (Some j, st1)"
      "job_add_fill sg key0 st1 f key uniq dat prio j = Some st2"
      "job_add_persist st2 j fname (length uniq) dat prio cl = Some (GEARMAN_SUCCESS, st3)"
      "job_add_enqueue st3 j (length uniq) cl = Some (r, ret, st')"
  using assms unfolding job_add_create_def queue_full_def
  by (auto simp: Let_def split: Option.bind_splits if_splits prod.splits option.splits)

lemma job_add_cases:
  assumes "gearman_server_job_add sg key0 st fname uniq dat prio cl = Some (r, ret, st')"
  obtains
    (no_function)
      "gearman_server_function_get st fname = Some (None, st')"
      "r = None" "ret = GEARMAN_MEMORY_ALLOCATION_FAILURE"
  | (exists) f st1 key j where
      "gearman_server_function_get st fname = Some (Some f, st1)"
      "job_add_lookup sg st1 f uniq dat = Some (key, Some j)"
      "job_add_attach st1 j GEARMAN_JOB_EXISTS cl = Some (r, ret, st')"
  | (create) f st1 key where
      "gearman_server_function_get st fname = Some (Some f, st1)"
      "job_add_lookup sg st1 f uniq dat = Some (key, None)"
      "job_add_create sg key0 st1 f key fname uniq dat prio cl = Some (r, ret, st')"
  using assms unfolding gearman_server_job_add_def
  by (auto simp: Let_def split: Option.bind_splits if_splits prod.splits option.splits)


lemma function_find_SomeD:
  "function_find h name fl = Some (Some f) \<Longrightarrow>
   f \<in> set fl \<and> (\<exists>fn. heap_at h f = Some fn \<and> function_name fn = name)"
  by (induction fl) (auto split: option.splits if_splits)

lemma function_get_frame:
  assumes "gearman_server_function_get st name = Some (r, st')"
  shows "st\<lparr>function_heap := function_heap st', function_list := function_list st',
            function_count := function_count st', malloc_results := malloc_results st'\<rparr> = st'"
  using assms
  by (auto simp: gearman_server_function_get_def gearman_server_function_create_def
      gearman_server_function_free_def malloc_def set_function_def Let_def
      split: option.splits if_splits prod.splits list.splits)

lemma function_get_Some:
  assumes "gearman_server_function_get st name = Some (Some f, st')"
  shows "\<exists>fn. function_at st' f = Some fn \<and> function_name fn = name"
proof (cases "function_find (function_heap st) name (function_list st)")
  case None
  with assms show ?thesis by (simp add: gearman_server_function_get_def)
next
  case (Some a)
  show ?thesis
  proof (cases a)
    case None
    with Some assms show ?thesis
      by (auto simp: gearman_server_function_get_def gearman_server_function_create_def
          gearman_server_function_free_def malloc_def set_function_def Let_def
          function_at_def heap_at_def
          split: option.splits if_splits prod.splits list.splits)
  next
    case (Some g)
    with \<open>function_find (function_heap st) name (function_list st) = Some a\<close> assms
    show ?thesis
      by (auto simp: gearman_server_function_get_def function_at_def dest: function_find_SomeD)
  qed
qed

lemma function_create_default:
  assumes "gearman_server_function_create st = (Some f, st')"
  shows "\<exists>fn. function_at st' f = Some fn \<and> max_queue_size fn = 0 \<and> job_total fn = 0"
  using assms
  by (auto simp: gearman_server_function_create_def malloc_def function_at_def heap_at_def
      GEARMAN_DEFAULT_MAX_QUEUE_SIZE_def Let_def split: prod.splits list.splits if_splits)

lemma job_add_fill_frame:
  assumes "job_add_fill sg key0 st f key uniq dat prio j = Some st'"
  shows "gearman st' = gearman st" "server_options st' = server_options st"
    "queue_calls st' = queue_calls st"
  using assms
  by (auto simp: job_add_fill_def Let_def set_job_def set_function_def split: Option.bind_splits)

lemma job_add_persist_ret:
  assumes "job_add_persist st j fname usize dat prio cl = Some (ret, st')"
    and "ret \<noteq> GEARMAN_SUCCESS"
  shows "(\<exists>add h c. queue_add_fn (gearman st) = Some add \<and> add h c = ret) \<or>
         (\<exists>fl h c. queue_flush_fn (gearman st) = Some fl \<and> fl h c = ret)"
  using assms
  by (auto simp: job_add_persist_def Let_def split: option.splits if_splits)

lemma job_queue_ret:
  assumes "gearman_server_job_queue st j = Some (ret, st')"
  shows "ret = GEARMAN_SUCCESS \<or> ret = GEARMAN_MEMORY_ALLOCATION_FAILURE"
  using job_queue_result[OF assms] by (auto dest: queue_noop_ret)

definition queue_fn_never_full :: "queue_fn option \<Rightarrow> bool" where
  "queue_fn_never_full q \<longleftrightarrow>
     (case q of None \<Rightarrow> True | Some fn \<Rightarrow> \<forall>h c. fn h c \<noteq> GEARMAN_JOB_QUEUE_FULL)"

lemma job_add_queue_full_iff_aux:
  assumes add: "queue_fn_never_full (queue_add_fn (gearman st))"
    and flush: "queue_fn_never_full (queue_flush_fn (gearman st))"
    and run: "gearman_server_job_add sg key0 st fname uniq dat prio cl = Some (r, ret, st')"
  shows "((r = None \<and> ret = GEARMAN_JOB_QUEUE_FULL) \<longleftrightarrow>
          (\<exists>f st1 key fn.
             gearman_server_function_get st fname = Some (Some f, st1) \<and>
             job_add_lookup sg st1 f uniq dat = Some (key, None) \<and>
             function_at st1 f = Some fn \<and>
             0 < max_queue_size fn \<and> max_queue_size fn \<le> job_total fn))"
proof
  assume l: "r = None \<and> ret = GEARMAN_JOB_QUEUE_FULL"
  from run show "\<exists>f st1 key fn.
             gearman_server_function_get st fname = Some (Some f, st1) \<and>
             job_add_lookup sg st1 f uniq dat = Some (key, None) \<and>
             function_at st1 f = Some fn \<and>
             0 < max_queue_size fn \<and> max_queue_size fn \<le> job_total fn"
  proof (cases rule: job_add_cases)
    case no_function
    with l show ?thesis by simp
  next
    case (exists f st1 key j)
    from job_add_attach_result(1)[OF exists(3)] l show ?thesis by simp
  next
    case (create f st1 key)
    have g1: "gearman st1 = gearman st"
      using arg_cong[OF function_get_frame[OF create(1)], of gearman] by simp
    from create(3) show ?thesis
    proof (cases rule: job_add_create_cases)
      case (full fn)
      with create show ?thesis by (auto simp: queue_full_def)
    next
      case (no_memory fn)
      with l show ?thesis by simp
    next
      case (persist_failed fn j st2 st3 st4 job3)
      have "gearman st3 = gearman st"
        using arg_cong[OF job_create_result(2)[OF persist_failed(3)], of gearman]
          job_add_fill_frame(1)[OF persist_failed(4)] g1 by simp
      with job_add_persist_ret[OF persist_failed(5,6)] add flush l show ?thesis
        by (auto simp: queue_fn_never_full_def)
    next
      case (enqueue fn j st2 st3 st4)
      from enqueue(6) show ?thesis
      proof (cases rule: job_add_enqueue_cases)
        case (queue_failed st5 job f' fn')
        with job_queue_ret[OF queue_failed(1)] l show ?thesis by simp
      next
        case (queued st5)
        from job_add_attach_result(1)[OF queued(2)] l show ?thesis by simp
      qed
    qed
  qed
next
  assume "\<exists>f st1 key fn.
             gearman_server_function_get st fname = Some (Some f, st1) \<and>
             job_add_lookup sg st1 f uniq dat = Some (key, None) \<and>
             function_at st1 f = Some fn \<and>
             0 < max_queue_size fn \<and> max_queue_size fn \<le> job_total fn"
  with run show "r = None \<and> ret = GEARMAN_JOB_QUEUE_FULL"
    by (auto simp: gearman_server_job_add_def job_add_create_def)
qed


text \<open>The job that \<open>gearman_server_job_add\<close> fills in, before its options and clients.\<close>

definition filled_job ::
  "bool \<Rightarrow> u32 \<Rightarrow> gearman_server_st \<Rightarrow> nat \<Rightarrow> u32 option \<Rightarrow> string \<Rightarrow> string
     \<Rightarrow> gearman_job_priority_t \<Rightarrow> gearman_server_job_st" where
  "filled_job sg key0 st f key uniq dat prio =
     zero_job\<lparr>job_priority := prio, job_function := Some f,
       job_handle := snprintf_job_handle (job_handle_prefix st) (job_handle_count st),
       job_unique := snprintf_unique uniq, job_data := Some dat, job_data_size := length dat,
       job_unique_key := (case key of None \<Rightarrow> key0 | Some k \<Rightarrow> k),
       job_handle_key :=
         server_job_hash sg (snprintf_job_handle (job_handle_prefix st) (job_handle_count st))\<rparr>"

lemma job_add_fill_result:
  assumes cr: "gearman_server_job_create st = Some (Some j, st1)"
    and fl: "job_add_fill sg key0 st1 f key uniq dat prio j = Some st2"
    and fn: "function_at st f = Some fn"
  shows "job_at st2 j = Some ((filled_job sg key0 st f key uniq dat prio)
            \<lparr>job_options := {GEARMAN_SERVER_JOB_ALLOCATED}\<rparr>)"
    and "function_at st2 f = Some (fn\<lparr>job_total := job_total fn + 1\<rparr>)"
    and "\<And>g. g \<noteq> f \<Longrightarrow> function_at st2 g = function_at st g"
    and "\<And>i. i \<noteq> j \<Longrightarrow> job_at st2 i = job_at st i"
    and "unique_hash st2 = (unique_hash st)
           (unat (case key of None \<Rightarrow> key0 | Some k \<Rightarrow> k) mod GEARMAN_JOB_HASH_SIZE :=
              j # unique_hash st
                (unat (case key of None \<Rightarrow> key0 | Some k \<Rightarrow> k) mod GEARMAN_JOB_HASH_SIZE))"
    and "job_hash st2 = (job_hash st)
           (unat (server_job_hash sg
              (snprintf_job_handle (job_handle_prefix st) (job_handle_count st)))
                mod GEARMAN_JOB_HASH_SIZE :=
              j # job_hash st
                (unat (server_job_hash sg
                   (snprintf_job_handle (job_handle_prefix st) (job_handle_count st)))
                     mod GEARMAN_JOB_HASH_SIZE))"
    and "st2\<lparr>job_heap := job_heap st, function_heap := function_heap st,
            free_job_list := free_job_list st, free_job_count := free_job_count st,
            malloc_results := malloc_results st, job_handle_count := job_handle_count st,
            unique_hash := unique_hash st, unique_count := unique_count st,
            job_hash := job_hash st, server_job_count := server_job_count st\<rparr> = st"
    and "length (job_heap st2) = length (job_heap st1)"
    and "free_job_count st2 = free_job_count st1"
proof -
  note c = job_create_result[OF cr]
  from c(2) have s1: "st1 = st\<lparr>job_heap := job_heap st1, free_job_list := free_job_list st1,
            free_job_count := free_job_count st1, malloc_results := malloc_results st1\<rparr>"
    by simp
  have f1: "function_at st1 f = Some fn"
    using fn arg_cong[OF c(2), of function_heap] by (simp add: function_at_def)
  have fh: "function_heap st1 = function_heap st"
    using arg_cong[OF c(2), of function_heap] by simp
  have hp: "job_handle_prefix st1 = job_handle_prefix st" "job_handle_count st1 = job_handle_count st"
    "unique_hash st1 = unique_hash st" "job_hash st1 = job_hash st"
    using arg_cong[OF c(2), of job_handle_prefix] arg_cong[OF c(2), of job_handle_count]
      arg_cong[OF c(2), of unique_hash] arg_cong[OF c(2), of job_hash]
    by simp_all
  from fl c(1) f1 have st2: "st2 =
      (set_job j ((filled_job sg key0 st f key uniq dat prio)
            \<lparr>job_options := {GEARMAN_SERVER_JOB_ALLOCATED}\<rparr>)
         (set_function f (fn\<lparr>job_total := job_total fn + 1\<rparr>) st1))
               \<lparr>job_handle_count := job_handle_count st1 + 1,
                unique_hash := (unique_hash st1)
                  (unat (case key of None \<Rightarrow> key0 | Some k \<Rightarrow> k) mod GEARMAN_JOB_HASH_SIZE :=
                     j # unique_hash st1
                       (unat (case key of None \<Rightarrow> key0 | Some k \<Rightarrow> k) mod GEARMAN_JOB_HASH_SIZE)),
                unique_count := unique_count st1 + 1,
                job_hash := (job_hash st1)
                  (unat (server_job_hash sg
                     (snprintf_job_handle (job_handle_prefix st1) (job_handle_count st1)))
                       mod GEARMAN_JOB_HASH_SIZE :=
                     j # job_hash st1
                       (unat (server_job_hash sg
                          (snprintf_job_handle (job_handle_prefix st1) (job_handle_count st1)))
                            mod GEARMAN_JOB_HASH_SIZE)),
                server_job_count := server_job_count st1 + 1\<rparr>"
    by (auto simp: job_add_fill_def Let_def filled_job_def hp zero_job_def)
  from job_at_SomeD[OF c(1)] show "job_at st2 j = Some ((filled_job sg key0 st f key uniq dat prio)
            \<lparr>job_options := {GEARMAN_SERVER_JOB_ALLOCATED}\<rparr>)"
    by (simp add: st2 job_at_def set_job_def set_function_def heap_at_update)
  from function_at_SomeD[OF f1] show "function_at st2 f = Some (fn\<lparr>job_total := job_total fn + 1\<rparr>)"
    by (simp add: st2 function_at_def set_job_def set_function_def heap_at_update)
  show "\<And>g. g \<noteq> f \<Longrightarrow> function_at st2 g = function_at st g"
    by (simp add: st2 function_at_def set_job_def set_function_def heap_at_update fh)
  show "\<And>i. i \<noteq> j \<Longrightarrow> job_at st2 i = job_at st i"
    using c(4) by (simp add: st2 job_at_def set_job_def set_function_def heap_at_update)
  show "unique_hash st2 = (unique_hash st)
           (unat (case key of None \<Rightarrow> key0 | Some k \<Rightarrow> k) mod GEARMAN_JOB_HASH_SIZE :=
              j # unique_hash st
                (unat (case key of None \<Rightarrow> key0 | Some k \<Rightarrow> k) mod GEARMAN_JOB_HASH_SIZE))"
    by (simp add: st2 hp set_job_def set_function_def)
  show "job_hash st2 = (job_hash st)
           (unat (server_job_hash sg
              (snprintf_job_handle (job_handle_prefix st) (job_handle_count st)))
                mod GEARMAN_JOB_HASH_SIZE :=
              j # job_hash st
                (unat (server_job_hash sg
                   (snprintf_job_handle (job_handle_prefix st) (job_handle_count st)))
                     mod GEARMAN_JOB_HASH_SIZE))"
    by (simp add: st2 hp set_job_def set_function_def)
  show "st2\<lparr>job_heap := job_heap st, function_heap := function_heap st,
            free_job_list := free_job_list st, free_job_count := free_job_count st,
            malloc_results := malloc_results st, job_handle_count := job_handle_count st,
            unique_hash := unique_hash st, unique_count := unique_count st,
            job_hash := job_hash st, server_job_count := server_job_count st\<rparr> = st"
    by (subst st2, subst s1) (simp add: set_job_def set_function_def)
  show "length (job_heap st2) = length (job_heap st1)"
    by (simp add: st2 set_job_def set_function_def)
  show "free_job_count st2 = free_job_count st1"
    by (simp add: st2 set_job_def set_function_def)
qed


lemma job_add_create_created:
  assumes run: "job_add_create sg key0 st f key fname uniq dat prio cl = Some (Some j, ret, st')"
  obtains fn job' where
    "ret = GEARMAN_SUCCESS"
    "function_at st f = Some fn" "\<not> queue_full fn"
    "job_at st' j = Some job'"
    "job'\<lparr>job_options := {}, job_client_list := [], job_client_count := 0\<rparr>
       = filled_job sg key0 st f key uniq dat prio"
    "GEARMAN_SERVER_JOB_ALLOCATED \<in> job_options job'"
    "GEARMAN_SERVER_QUEUE_REPLAY \<in> server_options st \<Longrightarrow>
       GEARMAN_SERVER_JOB_QUEUED \<in> job_options job' \<and> queue_calls st' = queue_calls st"
    "function_at st' f =
       Some (fn\<lparr>job_total := job_total fn + 1,
                 job_list := (job_list fn)(prio := job_list fn prio @ [j]),
                 job_count := job_count fn + 1\<rparr>)"
    "\<And>g. g \<noteq> f \<Longrightarrow> function_at st' g = function_at st g"
    "\<And>i. i \<noteq> j \<Longrightarrow> job_at st' i = job_at st i"
    "unique_hash st' = (unique_hash st)
           (unat (case key of None \<Rightarrow> key0 | Some k \<Rightarrow> k) mod GEARMAN_JOB_HASH_SIZE :=
              j # unique_hash st
                (unat (case key of None \<Rightarrow> key0 | Some k \<Rightarrow> k) mod GEARMAN_JOB_HASH_SIZE))"
    "job_hash st' = (job_hash st)
           (unat (server_job_hash sg
              (snprintf_job_handle (job_handle_prefix st) (job_handle_count st)))
                mod GEARMAN_JOB_HASH_SIZE :=
              j # job_hash st
                (unat (server_job_hash sg
                   (snprintf_job_handle (job_handle_prefix st) (job_handle_count st)))
                     mod GEARMAN_JOB_HASH_SIZE))"
    "function_list st' = function_list st"
    "gearman st' = gearman st"
    "server_options st' = server_options st"
    "free_job_count st = 0 \<Longrightarrow>
       j = length (job_heap st) \<and> length (job_heap st') = Suc (length (job_heap st)) \<and>
       free_job_count st' = 0"
  using run
proof (cases rule: job_add_create_cases)
  case (enqueue fn j0 st1 st2 st3)
  from enqueue(6) show ?thesis
  proof (cases rule: job_add_enqueue_cases)
    case (queued st4)
    from job_add_attach_result(1)[OF queued(2)] have jj: "j0 = j" by simp
    note at = job_add_attach_result[OF queued(2)[unfolded jj]]
    note cr = job_create_result[OF enqueue(3)[unfolded jj]]
    note fl = job_add_fill_result[OF enqueue(3)[unfolded jj] enqueue(4)[unfolded jj] enqueue(1)]
    let ?J = "filled_job sg key0 st f key uniq dat prio"
    from job_add_persist_result[OF enqueue(5)[unfolded jj]] fl(1)
    have p: "st2\<lparr>job_heap := job_heap st3, queue_calls := queue_calls st3\<rparr> = st3"
      and ph: "job_heap st3 = job_heap st2 \<or>
            job_heap st3 = (job_heap st2)[j := Some (?J\<lparr>job_options :=
                 {GEARMAN_SERVER_JOB_QUEUED, GEARMAN_SERVER_JOB_ALLOCATED}\<rparr>)]"
      and pr: "GEARMAN_SERVER_QUEUE_REPLAY \<in> server_options st2 \<longrightarrow>
              queue_calls st3 = queue_calls st2 \<and>
              job_heap st3 = (job_heap st2)[j := Some (?J\<lparr>job_options :=
                 {GEARMAN_SERVER_JOB_QUEUED, GEARMAN_SERVER_JOB_ALLOCATED}\<rparr>)]"
      by auto
    have j2: "j < length (job_heap st2)" using fl(1) by (rule job_at_SomeD)
    from ph j2 fl(1) obtain opts where
      j3: "job_at st3 j = Some (?J\<lparr>job_options := opts\<rparr>)"
      and o3: "GEARMAN_SERVER_JOB_ALLOCATED \<in> opts"
      and j3': "\<And>i. i \<noteq> j \<Longrightarrow> job_at st3 i = job_at st2 i"
      by (auto simp: job_at_def heap_at_update)
    have fh3: "function_heap st3 = function_heap st2"
      using arg_cong[OF p, of function_heap] by simp
    then have f3: "function_at st3 f = Some (fn\<lparr>job_total := job_total fn + 1\<rparr>)"
      using fl(2) by (simp add: function_at_def)
    have jf: "job_function (?J\<lparr>job_options := opts\<rparr>) = Some f"
      and jw: "job_worker (?J\<lparr>job_options := opts\<rparr>) = None"
      and jp: "job_priority (?J\<lparr>job_options := opts\<rparr>) = prio"
      by (simp_all add: filled_job_def zero_job_def)
    let ?fn3 = "fn\<lparr>job_total := job_total fn + 1\<rparr>"
    let ?J4 = "?J\<lparr>job_options := opts, job_worker := None, job_numerator := 0,
                  job_denominator := 0\<rparr>"
    from job_queue_result[OF queued(1)[unfolded jj]] j3 jf jw jp f3 obtain st3' where
      qn: "queue_noop (set_job j ?J4 (set_function f ?fn3 st3)) (worker_list ?fn3)
             = Some (GEARMAN_SUCCESS, st3')"
      and s4: "st4 = set_function f
                 (?fn3\<lparr>job_list := (job_list ?fn3)(prio := job_list ?fn3 prio @ [j]),
                       job_count := job_count ?fn3 + 1\<rparr>) st3'"
      by auto
    note qf = queue_noop_frame[OF qn]
    have J4: "?J4 = ?J\<lparr>job_options := opts\<rparr>" by (simp add: filled_job_def zero_job_def)
    have jh3': "job_heap st3' = (job_heap st3)[j := Some (?J\<lparr>job_options := opts\<rparr>)]"
      using arg_cong[OF qf, of job_heap] by (simp add: set_job_def set_function_def J4)
    have fh3': "function_heap st3' = (function_heap st3)[f := Some ?fn3]"
      using arg_cong[OF qf, of function_heap] by (simp add: set_job_def set_function_def)
    have lf: "f < length (function_heap st3)" using f3 by (rule function_at_SomeD)
    have lj: "j < length (job_heap st3)" using j3 by (rule job_at_SomeD)
    have j4: "job_at st4 j = Some (?J\<lparr>job_options := opts\<rparr>)"
      using lj by (simp add: s4 job_at_def set_function_def jh3' heap_at_update)
    have j4': "\<And>i. i \<noteq> j \<Longrightarrow> job_at st4 i = job_at st3 i"
      by (simp add: s4 job_at_def set_function_def jh3' heap_at_update)
    have f4: "function_at st4 f =
       Some (fn\<lparr>job_total := job_total fn + 1,
                 job_list := (job_list fn)(prio := job_list fn prio @ [j]),
                 job_count := job_count fn + 1\<rparr>)"
      using lf by (simp add: s4 function_at_def set_function_def fh3' heap_at_update)
    have f4': "\<And>g. g \<noteq> f \<Longrightarrow> function_at st4 g = function_at st3 g"
      by (simp add: s4 function_at_def set_function_def fh3' heap_at_update)
    from at(5)[OF j4] obtain job' where
      j5: "job_at st' j = Some job'" and
      j5': "job'\<lparr>job_client_list := job_client_list (?J\<lparr>job_options := opts\<rparr>),
                 job_client_count := job_client_count (?J\<lparr>job_options := opts\<rparr>)\<rparr>
              = ?J\<lparr>job_options := opts\<rparr>"
      by blast
    have c1: "ret = GEARMAN_SUCCESS" using at(2) by simp
    have c5: "job'\<lparr>job_options := {}, job_client_list := [], job_client_count := 0\<rparr> = ?J"
      using arg_cong[OF j5', of "\<lambda>r. r\<lparr>job_options := {}\<rparr>"]
      by (cases job') (simp add: filled_job_def zero_job_def)
    have c6: "GEARMAN_SERVER_JOB_ALLOCATED \<in> job_options job'"
      using arg_cong[OF j5', of job_options] o3 by simp
    have so: "server_options st2 = server_options st" "queue_calls st2 = queue_calls st"
      "gearman st2 = gearman st" "function_list st2 = function_list st"
      using arg_cong[OF fl(7), of server_options] arg_cong[OF fl(7), of queue_calls]
        arg_cong[OF fl(7), of gearman] arg_cong[OF fl(7), of function_list]
      by simp_all
    have q3': "queue_calls st3' = queue_calls st3" "unique_hash st3' = unique_hash st3"
      "job_hash st3' = job_hash st3" "function_list st3' = function_list st3"
      "gearman st3' = gearman st3" "server_options st3' = server_options st3"
      "free_job_count st3' = free_job_count st3"
      using arg_cong[OF qf, of queue_calls] arg_cong[OF qf, of unique_hash]
        arg_cong[OF qf, of job_hash] arg_cong[OF qf, of function_list]
        arg_cong[OF qf, of gearman] arg_cong[OF qf, of server_options]
        arg_cong[OF qf, of free_job_count]
      by (simp_all add: set_job_def set_function_def)
    have q3: "unique_hash st3 = unique_hash st2" "job_hash st3 = job_hash st2"
      "function_list st3 = function_list st2" "gearman st3 = gearman st2"
      "server_options st3 = server_options st2" "free_job_count st3 = free_job_count st2"
      using arg_cong[OF p, of unique_hash] arg_cong[OF p, of job_hash]
        arg_cong[OF p, of function_list] arg_cong[OF p, of gearman]
        arg_cong[OF p, of server_options] arg_cong[OF p, of free_job_count]
      by simp_all
    have q5: "queue_calls st' = queue_calls st4" "unique_hash st' = unique_hash st4"
      "job_hash st' = job_hash st4" "function_list st' = function_list st4"
      "function_heap st' = function_heap st4" "gearman st' = gearman st4"
      "server_options st' = server_options st4" "free_job_count st' = free_job_count st4"
      using arg_cong[OF at(3), of queue_calls] arg_cong[OF at(3), of unique_hash]
        arg_cong[OF at(3), of job_hash] arg_cong[OF at(3), of function_list]
        arg_cong[OF at(3), of function_heap] arg_cong[OF at(3), of gearman]
        arg_cong[OF at(3), of server_options] arg_cong[OF at(3), of free_job_count]
      by simp_all
    have q4: "queue_calls st4 = queue_calls st3'" "unique_hash st4 = unique_hash st3'"
      "job_hash st4 = job_hash st3'" "function_list st4 = function_list st3'"
      "gearman st4 = gearman st3'" "server_options st4 = server_options st3'"
      "free_job_count st4 = free_job_count st3'"
      by (simp_all add: s4 set_function_def)
    have len: "length (job_heap st') = length (job_heap st1)"
    proof -
      have "length (job_heap st3) = length (job_heap st2)" using ph by auto
      moreover have "length (job_heap st4) = length (job_heap st3)"
        by (simp add: s4 set_function_def jh3')
      moreover have "length (job_heap st') = length (job_heap st4)"
        using queued(2) by (auto simp: job_add_attach_def set_job_def split: option.splits)
      ultimately show ?thesis using fl(8) by simp
    qed
    have c11: "free_job_count st = 0 \<Longrightarrow>
       j = length (job_heap st) \<and> length (job_heap st') = Suc (length (job_heap st)) \<and>
       free_job_count st' = 0"
      using cr(5) len fl(9) q5 q4 q3' q3 by simp
    have c7: "GEARMAN_SERVER_QUEUE_REPLAY \<in> server_options st \<Longrightarrow>
       GEARMAN_SERVER_JOB_QUEUED \<in> job_options job' \<and> queue_calls st' = queue_calls st"
    proof -
      assume "GEARMAN_SERVER_QUEUE_REPLAY \<in> server_options st"
      with pr so have a: "queue_calls st3 = queue_calls st"
        and b: "job_heap st3 = (job_heap st2)[j := Some (?J\<lparr>job_options :=
                 {GEARMAN_SERVER_JOB_QUEUED, GEARMAN_SERVER_JOB_ALLOCATED}\<rparr>)]"
        by simp_all
      from b j2 j3 have "?J\<lparr>job_options := opts\<rparr> = ?J\<lparr>job_options :=
                 {GEARMAN_SERVER_JOB_QUEUED, GEARMAN_SERVER_JOB_ALLOCATED}\<rparr>"
        by (simp add: job_at_def heap_at_update)
      from arg_cong[OF this, of job_options] have "GEARMAN_SERVER_JOB_QUEUED \<in> opts" by simp
      with arg_cong[OF j5', of job_options] a q5 q4 q3' show ?thesis by simp
    qed
    have c8: "function_at st' f =
       Some (fn\<lparr>job_total := job_total fn + 1,
                 job_list := (job_list fn)(prio := job_list fn prio @ [j]),
                 job_count := job_count fn + 1\<rparr>)"
      using f4 q5(5) by (simp add: function_at_def)
    have c9: "\<And>g. g \<noteq> f \<Longrightarrow> function_at st' g = function_at st g"
      using f4' fl(3) fh3 q5(5) by (simp add: function_at_def)
    have c10: "\<And>i. i \<noteq> j \<Longrightarrow> job_at st' i = job_at st i"
      using at(6) j4' j3' fl(4) by simp
    have so': "server_options st2 = server_options st"
      using arg_cong[OF fl(7), of server_options] by simp
    show ?thesis
      by (rule that[OF c1 enqueue(1,2) j5 c5 c6 c7 c8 c9 c10 _ _ _ _ _ c11])
         (simp_all add: q5 q4 q3' q3 fl(5,6) so)
  next
    case (queue_failed st4 job f' fn')
    with run show ?thesis by simp
  qed
qed simp_all


text \<open>
  Claim C10. A call of \<open>gearman_server_job_add\<close> with an empty unique that creates a
  job never assigns \<open>key\<close> before line 123 reads it: the duplicate check leaves the
  variable unassigned, the job's \<open>unique_key\<close> is the indeterminate value \<open>key0\<close> and
  the job goes to the front of the bucket that \<open>key0\<close> selects. This holds for every
  value of \<open>key0\<close>, so no single value of the stored key can be proved.
\<close>

theorem job_add_empty_unique_key_unassigned:
  assumes run: "gearman_server_job_add sg key0 st fname [] dat prio cl = Some (Some j, ret, st')"
  shows "\<exists>f st1 job.
           gearman_server_function_get st fname = Some (Some f, st1) \<and>
           job_add_lookup sg st1 f [] dat = Some (None, None) \<and>
           job_at st' j = Some job \<and> job_unique_key job = key0 \<and>
           unique_hash st' (unat key0 mod GEARMAN_JOB_HASH_SIZE) =
             j # unique_hash st (unat key0 mod GEARMAN_JOB_HASH_SIZE)"
  using run
proof (cases rule: job_add_cases)
  case no_function
  then show ?thesis by simp
next
  case (exists f st1 key j')
  then show ?thesis by (simp add: job_add_lookup_def)
next
  case (create f st1 key)
  from create(2) have k: "key = None" by (simp add: job_add_lookup_def)
  have uh: "unique_hash st1 = unique_hash st"
    using arg_cong[OF function_get_frame[OF create(1)], of unique_hash] by simp
  from create(3) show ?thesis
  proof (cases rule: job_add_create_created)
    case (1 fn job')
    from arg_cong[OF 1(5), of job_unique_key] have "job_unique_key job' = key0"
      by (simp add: filled_job_def k)
    with 1(4,11) create(1,2) k uh show ?thesis by simp
  qed
qed

theorem job_add_empty_unique_key_unassigned_witness:
  "\<exists>st' job.
     gearman_server_job_add False 7 example_server ''f'' [] ''d'' GEARMAN_JOB_PRIORITY_NORMAL None
       = Some (Some 0, GEARMAN_SUCCESS, st') \<and>
     job_at st' 0 = Some job \<and> job_unique_key job = 7 \<and> unique_hash st' 7 = [0]"
proof -
  obtain st' where run:
    "gearman_server_job_add False 7 example_server ''f'' [] ''d'' GEARMAN_JOB_PRIORITY_NORMAL None
       = Some (Some 0, GEARMAN_SUCCESS, st')"
    by (simp add: job_add_defs example_server_def)
  have "unique_hash example_server (unat (7 :: u32) mod GEARMAN_JOB_HASH_SIZE) = []"
    by (simp add: example_server_def)
  with job_add_empty_unique_key_unassigned[OF run] run show ?thesis
    by (auto simp: GEARMAN_JOB_HASH_SIZE_def)
qed


lemma job_add_created_total:
  assumes run: "gearman_server_job_add sg key0 st fname uniq dat prio cl
                  = Some (Some j, GEARMAN_SUCCESS, st')"
  shows "\<exists>f st1 fn fn'.
           gearman_server_function_get st fname = Some (Some f, st1) \<and>
           function_at st1 f = Some fn \<and> function_at st' f = Some fn' \<and>
           job_total fn' = job_total fn + 1"
  using run
proof (cases rule: job_add_cases)
  case no_function
  then show ?thesis by simp
next
  case (exists f st1 key j')
  from job_add_attach_result(2)[OF exists(3)] show ?thesis by simp
next
  case (create f st1 key)
  from create(3) show ?thesis
  proof (cases rule: job_add_create_created)
    case (1 fn job')
    with create(1) show ?thesis by simp
  qed
qed

text \<open>
  With a queue whose callbacks never answer \<open>GEARMAN_JOB_QUEUE_FULL\<close> themselves,
  \<open>gearman_server_job_add\<close> returns \<open>NULL\<close> and \<open>GEARMAN_JOB_QUEUE_FULL\<close> exactly when
  there is no duplicate and the function has \<open>max_queue_size > 0\<close> and
  \<open>job_total >= max_queue_size\<close>.
\<close>

lemma job_add_queue_full_guarded:
  assumes add: "queue_fn_never_full (queue_add_fn (gearman st))"
    and flush: "queue_fn_never_full (queue_flush_fn (gearman st))"
    and run: "gearman_server_job_add sg key0 st fname uniq dat prio cl = Some (r, ret, st')"
  shows "((r = None \<and> ret = GEARMAN_JOB_QUEUE_FULL) \<longleftrightarrow>
          (\<exists>f st1 key fn.
             gearman_server_function_get st fname = Some (Some f, st1) \<and>
             job_add_lookup sg st1 f uniq dat = Some (key, None) \<and>
             function_at st1 f = Some fn \<and>
             0 < max_queue_size fn \<and> max_queue_size fn \<le> job_total fn)) \<and>
         (\<forall>f st1 fn.
             gearman_server_function_get st fname = Some (Some f, st1) \<and>
             function_at st1 f = Some fn \<and> max_queue_size fn = 0
             \<longrightarrow> ret \<noteq> GEARMAN_JOB_QUEUE_FULL) \<and>
         (r \<noteq> None \<and> ret = GEARMAN_SUCCESS \<longrightarrow>
            (\<exists>f st1 fn fn'.
               gearman_server_function_get st fname = Some (Some f, st1) \<and>
               function_at st1 f = Some fn \<and> function_at st' f = Some fn' \<and>
               job_total fn' = job_total fn + 1)) \<and>
         (\<forall>s f s'. gearman_server_function_create s = (Some f, s') \<longrightarrow>
            (\<exists>fn. function_at s' f = Some fn \<and> max_queue_size fn = 0))"
proof (intro conjI allI impI)
  show "(r = None \<and> ret = GEARMAN_JOB_QUEUE_FULL) \<longleftrightarrow>
          (\<exists>f st1 key fn.
             gearman_server_function_get st fname = Some (Some f, st1) \<and>
             job_add_lookup sg st1 f uniq dat = Some (key, None) \<and>
             function_at st1 f = Some fn \<and>
             0 < max_queue_size fn \<and> max_queue_size fn \<le> job_total fn)"
    by (rule job_add_queue_full_iff_aux[OF add flush run])
next
  fix f st1 fn
  assume a: "gearman_server_function_get st fname = Some (Some f, st1) \<and>
             function_at st1 f = Some fn \<and> max_queue_size fn = 0"
  show "ret \<noteq> GEARMAN_JOB_QUEUE_FULL"
  proof
    assume full: "ret = GEARMAN_JOB_QUEUE_FULL"
    have "r = None"
    proof (cases r)
      case (Some j)
      from run show ?thesis
      proof (cases rule: job_add_cases)
        case no_function
        then show ?thesis by simp
      next
        case (exists f st1 key j')
        from job_add_attach_result(2)[OF exists(3)] full show ?thesis by simp
      next
        case (create f st1 key)
        from create(3)[unfolded Some] show ?thesis
          by (cases rule: job_add_create_created) (use full in simp)
      qed
    qed simp
    with full job_add_queue_full_iff_aux[OF add flush run] a show False by auto
  qed
next
  assume "r \<noteq> None \<and> ret = GEARMAN_SUCCESS"
  then obtain j where "r = Some j" "ret = GEARMAN_SUCCESS" by auto
  with run show "\<exists>f st1 fn fn'.
               gearman_server_function_get st fname = Some (Some f, st1) \<and>
               function_at st1 f = Some fn \<and> function_at st' f = Some fn' \<and>
               job_total fn' = job_total fn + 1"
    by (auto dest!: job_add_created_total)
next
  fix s f s'
  assume "gearman_server_function_create s = (Some f, s')"
  from function_create_default[OF this]
  show "\<exists>fn. function_at s' f = Some fn \<and> max_queue_size fn = 0" by auto
qed

definition example_bounded_server :: gearman_server_st where
  "example_bounded_server =
     example_server
       \<lparr>function_list := [0], function_count := 1,
        function_heap :=
          [Some \<lparr>function_options = {GEARMAN_SERVER_FUNCTION_ALLOCATED}, job_count = 0,
                 job_total = 0, job_running = 0, max_queue_size = 1, function_name = ''f'',
                 worker_list = [], job_list = (\<lambda>p. [])\<rparr>]\<rparr>"

definition example_full_server :: gearman_server_st where
  "example_full_server =
     (case gearman_server_job_add False 0 example_bounded_server ''f'' ''a'' ''x''
             GEARMAN_JOB_PRIORITY_NORMAL None of
        Some (a, r, s) \<Rightarrow> s
      | None \<Rightarrow> example_bounded_server)"

text \<open>
  Modelled from the spec: the \<open>replay\<close> operation of a persistent queue (the queue
  modules are not among the sources). The specification: the adapter iterates all
  persisted jobs and invokes the broker's callback, which is \<open>gearman_server_job_add\<close>
  without a client while the replay flag is set; the replay stops at the first record
  that is not added with \<open>GEARMAN_SUCCESS\<close>. The result lists the jobs created.
\<close>

fun queue_replay ::
  "bool \<Rightarrow> u32 \<Rightarrow> gearman_server_st \<Rightarrow> (string \<times> string \<times> string \<times> gearman_job_priority_t) list
     \<Rightarrow> (gearman_return_t \<times> nat list \<times> gearman_server_st) option" where
  "queue_replay sg key0 st [] = Some (GEARMAN_SUCCESS, [], st)"
| "queue_replay sg key0 st ((fname, uniq, dat, prio) # rest) =
     (case gearman_server_job_add sg key0 st fname uniq dat prio None of
        None \<Rightarrow> None
      | Some (None, ret, st1) \<Rightarrow> Some (ret, [], st1)
      | Some (Some j, ret, st1) \<Rightarrow>
          if ret \<noteq> GEARMAN_SUCCESS then Some (ret, [], st1)
          else (case queue_replay sg key0 st1 rest of
                  None \<Rightarrow> None
                | Some (ret', js, st2) \<Rightarrow> Some (ret', j # js, st2)))"

lemma job_add_replay_created:
  assumes rp: "GEARMAN_SERVER_QUEUE_REPLAY \<in> server_options st"
    and run: "gearman_server_job_add sg key0 st fname uniq dat prio cl
                = Some (Some j, GEARMAN_SUCCESS, st')"
  shows "\<exists>job. job_at st' j = Some job \<and> GEARMAN_SERVER_JOB_QUEUED \<in> job_options job"
    and "queue_calls st' = queue_calls st"
    and "server_options st' = server_options st"
    and "\<And>i. i \<noteq> j \<Longrightarrow> job_at st' i = job_at st i"
    and "free_job_count st = 0 \<Longrightarrow>
           j = length (job_heap st) \<and> length (job_heap st') = Suc (length (job_heap st)) \<and>
           free_job_count st' = 0"
proof -
  from run have "(\<exists>job. job_at st' j = Some job \<and> GEARMAN_SERVER_JOB_QUEUED \<in> job_options job)
     \<and> queue_calls st' = queue_calls st \<and> server_options st' = server_options st
     \<and> (\<forall>i. i \<noteq> j \<longrightarrow> job_at st' i = job_at st i)
     \<and> (free_job_count st = 0 \<longrightarrow>
           j = length (job_heap st) \<and> length (job_heap st') = Suc (length (job_heap st)) \<and>
           free_job_count st' = 0)"
  proof (cases rule: job_add_cases)
    case no_function
    then show ?thesis by simp
  next
    case (exists f st1 key j')
    from job_add_attach_result(2)[OF exists(3)] show ?thesis by simp
  next
    case (create f st1 key)
    note fr = function_get_frame[OF create(1)]
    have s1: "server_options st1 = server_options st" "queue_calls st1 = queue_calls st"
      "job_heap st1 = job_heap st" "free_job_count st1 = free_job_count st"
      using arg_cong[OF fr, of server_options] arg_cong[OF fr, of queue_calls]
        arg_cong[OF fr, of job_heap] arg_cong[OF fr, of free_job_count]
      by simp_all
    from create(3) show ?thesis
    proof (cases rule: job_add_create_created)
      case (1 fn job')
      from 1(7) rp s1 have "GEARMAN_SERVER_JOB_QUEUED \<in> job_options job'"
        "queue_calls st' = queue_calls st" by simp_all
      with 1(4,10,15,16) s1 show ?thesis by (simp add: job_at_def)
    qed
  qed
  then show "\<exists>job. job_at st' j = Some job \<and> GEARMAN_SERVER_JOB_QUEUED \<in> job_options job"
    and "queue_calls st' = queue_calls st"
    and "server_options st' = server_options st"
    and "\<And>i. i \<noteq> j \<Longrightarrow> job_at st' i = job_at st i"
    and "free_job_count st = 0 \<Longrightarrow>
           j = length (job_heap st) \<and> length (job_heap st') = Suc (length (job_heap st)) \<and>
           free_job_count st' = 0"
    by simp_all
qed

lemma job_add_null_not_success:
  assumes run: "gearman_server_job_add sg key0 st fname uniq dat prio cl = Some (None, ret, st')"
  shows "ret \<noteq> GEARMAN_SUCCESS"
  using run
proof (cases rule: job_add_cases)
  case no_function
  then show ?thesis by simp
next
  case (exists f st1 key j)
  from job_add_attach_result(1)[OF exists(3)] show ?thesis by simp
next
  case (create f st1 key)
  from create(3) show ?thesis
  proof (cases rule: job_add_create_cases)
    case (enqueue fn j st2 st3 st4)
    from enqueue(6) show ?thesis
    proof (cases rule: job_add_enqueue_cases)
      case (queued st5)
      from job_add_attach_result(1)[OF queued(2)] show ?thesis by simp
    qed simp
  qed simp_all
qed

lemma queue_replay_created:
  "queue_replay sg key0 st recs = Some (GEARMAN_SUCCESS, js, st') \<Longrightarrow>
   GEARMAN_SERVER_QUEUE_REPLAY \<in> server_options st \<Longrightarrow> free_job_count st = 0 \<Longrightarrow>
   js = [length (job_heap st) ..< length (job_heap st) + length recs] \<and>
   length (job_heap st') = length (job_heap st) + length recs \<and>
   queue_calls st' = queue_calls st \<and>
   (\<forall>i < length (job_heap st). job_at st' i = job_at st i) \<and>
   (\<forall>j \<in> set js. \<exists>job. job_at st' j = Some job \<and> GEARMAN_SERVER_JOB_QUEUED \<in> job_options job)"
proof (induction recs arbitrary: st js)
  case Nil
  then show ?case by simp
next
  case (Cons r recs)
  obtain fname uniq dat prio where r: "r = (fname, uniq, dat, prio)" by (cases r)
  from Cons.prems(1) obtain j st1 js' where
    run: "gearman_server_job_add sg key0 st fname uniq dat prio None
            = Some (Some j, GEARMAN_SUCCESS, st1)"
    and rec: "queue_replay sg key0 st1 recs = Some (GEARMAN_SUCCESS, js', st')"
    and js: "js = j # js'"
    by (auto simp: r split: option.splits if_splits dest: job_add_null_not_success)
  note a = job_add_replay_created[OF Cons.prems(2) run]
  from a(5)[OF Cons.prems(3)] have j: "j = length (job_heap st)"
    and l1: "length (job_heap st1) = Suc (length (job_heap st))"
    and f1: "free_job_count st1 = 0" by simp_all
  from Cons.prems(2) a(3) have rp1: "GEARMAN_SERVER_QUEUE_REPLAY \<in> server_options st1" by simp
  note ih = Cons.IH[OF rec rp1 f1]
  from ih l1 have old: "\<forall>i \<le> length (job_heap st). job_at st' i = job_at st1 i" by simp
  have "job_at st' j = job_at st1 j" using old j by simp
  with a(1) have jq: "\<exists>job. job_at st' j = Some job \<and> GEARMAN_SERVER_JOB_QUEUED \<in> job_options job"
    by simp
  have c4: "\<forall>i < length (job_heap st). job_at st' i = job_at st i"
    using old a(4) j by simp
  have "js = length (job_heap st) # [Suc (length (job_heap st)) ..< Suc (length (job_heap st)) + length recs]"
    using ih l1 js j by simp
  moreover have "[length (job_heap st) ..< length (job_heap st) + length (r # recs)]
      = length (job_heap st) # [Suc (length (job_heap st)) ..< length (job_heap st) + length (r # recs)]"
    by (rule upt_conv_Cons) simp
  moreover have "Suc (length (job_heap st)) + length recs = length (job_heap st) + length (r # recs)"
    by simp
  ultimately have c1: "js = [length (job_heap st) ..< length (job_heap st) + length (r # recs)]"
    by (simp only:)
  have c2: "length (job_heap st') = length (job_heap st) + length (r # recs)"
    using ih l1 by simp
  have c3: "queue_calls st' = queue_calls st" using ih a(2) by simp
  have c5: "\<forall>j \<in> set js. \<exists>job. job_at st' j = Some job \<and>
              GEARMAN_SERVER_JOB_QUEUED \<in> job_options job"
    using ih jq unfolding js by simp
  from c1 c2 c3 c4 c5 show ?case by blast
qed

text \<open>
  Claim C8. While the server has \<open>GEARMAN_SERVER_QUEUE_REPLAY\<close> set, a call of
  \<open>gearman_server_job_add\<close> that creates a job leaves the job with QUEUED set and calls
  none of the queue's callbacks. Hence a replay of K records that are all added with
  success, into a server with an empty free list, creates exactly the K jobs at the next K
  addresses, all with QUEUED set, and the queue is not called.
\<close>

theorem job_add_replay_no_persist:
  assumes rp: "GEARMAN_SERVER_QUEUE_REPLAY \<in> server_options st"
  shows "(gearman_server_job_add sg key0 st fname uniq dat prio cl
            = Some (Some j, GEARMAN_SUCCESS, st') \<longrightarrow>
          (\<exists>job. job_at st' j = Some job \<and> GEARMAN_SERVER_JOB_QUEUED \<in> job_options job) \<and>
          queue_calls st' = queue_calls st) \<and>
         (free_job_count st = 0 \<and>
          queue_replay sg key0 st recs = Some (GEARMAN_SUCCESS, js, st'') \<longrightarrow>
          js = [length (job_heap st) ..< length (job_heap st) + length recs] \<and>
          length (job_heap st'') = length (job_heap st) + length recs \<and>
          queue_calls st'' = queue_calls st \<and>
          (\<forall>j \<in> set js. \<exists>job. job_at st'' j = Some job \<and>
               GEARMAN_SERVER_JOB_QUEUED \<in> job_options job))"
proof (intro conjI impI)
  assume run: "gearman_server_job_add sg key0 st fname uniq dat prio cl
                 = Some (Some j, GEARMAN_SUCCESS, st')"
  show "\<exists>job. job_at st' j = Some job \<and> GEARMAN_SERVER_JOB_QUEUED \<in> job_options job"
    by (rule job_add_replay_created(1)[OF rp run])
  show "queue_calls st' = queue_calls st"
    by (rule job_add_replay_created(2)[OF rp run])
next
  assume a: "free_job_count st = 0 \<and>
             queue_replay sg key0 st recs = Some (GEARMAN_SUCCESS, js, st'')"
  note r = queue_replay_created[OF conjunct2[OF a] rp conjunct1[OF a]]
  from r show "js = [length (job_heap st) ..< length (job_heap st) + length recs]" by simp
  from r show "length (job_heap st'') = length (job_heap st) + length recs" by simp
  from r show "queue_calls st'' = queue_calls st" by simp
  from r show "\<forall>j \<in> set js. \<exists>job. job_at st'' j = Some job \<and>
               GEARMAN_SERVER_JOB_QUEUED \<in> job_options job" by simp
qed

text \<open>A server in replay mode, with a persistent queue, and three records to replay.\<close>

definition example_queue_fn :: queue_fn where
  "example_queue_fn calls call = GEARMAN_SUCCESS"

definition example_replay_server :: gearman_server_st where
  "example_replay_server =
     example_server
       \<lparr>server_options := {GEARMAN_SERVER_ALLOCATED, GEARMAN_SERVER_QUEUE_REPLAY},
        gearman := \<lparr>queue_add_fn = Some example_queue_fn,
                    queue_flush_fn = Some example_queue_fn,
                    queue_done_fn = Some example_queue_fn\<rparr>\<rparr>"

definition example_records :: "(string \<times> string \<times> string \<times> gearman_job_priority_t) list" where
  "example_records =
     [(''f'', ''a'', ''x'', GEARMAN_JOB_PRIORITY_NORMAL),
      (''f'', ''b'', ''y'', GEARMAN_JOB_PRIORITY_HIGH),
      (''f'', ''c'', ''z'', GEARMAN_JOB_PRIORITY_LOW)]"

theorem job_add_replay_no_persist_witness:
  "(\<exists>st1 job. gearman_server_job_add False 0 example_replay_server ''f'' ''a'' ''x''
             GEARMAN_JOB_PRIORITY_NORMAL None = Some (Some 0, GEARMAN_SUCCESS, st1) \<and>
           job_at st1 0 = Some job \<and> GEARMAN_SERVER_JOB_QUEUED \<in> job_options job \<and>
           queue_calls st1 = []) \<and>
   (\<exists>st'. queue_replay False 0 example_replay_server example_records
           = Some (GEARMAN_SUCCESS, [0, 1, 2], st') \<and>
         length (job_heap st') = 3 \<and> queue_calls st' = [] \<and>
         (\<forall>j \<in> set [0, 1, 2]. \<exists>job. job_at st' j = Some job \<and>
               GEARMAN_SERVER_JOB_QUEUED \<in> job_options job))"
proof -
  obtain st1 where run1: "gearman_server_job_add False 0 example_replay_server ''f'' ''a'' ''x''
             GEARMAN_JOB_PRIORITY_NORMAL None = Some (Some 0, GEARMAN_SUCCESS, st1)"
    by (simp add: example_replay_server_def example_server_def job_add_defs example_evals)
  obtain js st' where run: "queue_replay False 0 example_replay_server example_records
           = Some (GEARMAN_SUCCESS, js, st')"
    by (simp add: example_replay_server_def example_records_def example_server_def
        job_add_defs example_evals)
  have rp: "GEARMAN_SERVER_QUEUE_REPLAY \<in> server_options example_replay_server"
    and fc: "free_job_count example_replay_server = 0"
    and jh: "job_heap example_replay_server = []"
    and qc: "queue_calls example_replay_server = []"
    by (simp_all add: example_replay_server_def example_server_def)
  from job_add_replay_no_persist[OF rp, of False 0 "''f''" "''a''" "''x''"
      GEARMAN_JOB_PRIORITY_NORMAL None 0 st1 example_records js st']
    fc run run1 jh qc
  show ?thesis by (simp add: example_records_def upt_rec)
qed


section \<open>Freeing a job that is on no list\<close>

lemma job_free_unlinked:
  assumes j: "job_at st j = Some job" and f: "job_function job = Some f"
    and fn: "function_at st f = Some fn"
    and w: "job_worker job = None" and c: "job_client_list job = []"
  shows "\<exists>st'. gearman_server_job_free st j = Some st' \<and>
           job_at st' j = None \<and>
           function_at st' f = Some (fn\<lparr>job_total := job_total fn - 1\<rparr>) \<and>
           (\<forall>g. g \<noteq> f \<longrightarrow> function_at st' g = function_at st g) \<and>
           (\<forall>i. i \<noteq> j \<longrightarrow> job_at st' i = job_at st i) \<and>
           unique_hash st' = (unique_hash st)
             (unat (job_unique_key job) mod GEARMAN_JOB_HASH_SIZE :=
                remove1 j (unique_hash st (unat (job_unique_key job) mod GEARMAN_JOB_HASH_SIZE))) \<and>
           job_hash st' = (job_hash st)
             (unat (job_handle_key job) mod GEARMAN_JOB_HASH_SIZE :=
                remove1 j (job_hash st (unat (job_handle_key job) mod GEARMAN_JOB_HASH_SIZE))) \<and>
           queue_calls st' = queue_calls st \<and> function_list st' = function_list st"
  using assms function_at_SomeD[OF fn] job_at_SomeD[OF j]
  by (simp add: gearman_server_job_free_def Let_def job_at_def function_at_def
      set_function_def heap_at_update)


lemma job_add_persist_failed:
  assumes "job_add_persist st j fname usize dat prio cl = Some (e, st')"
    and "e \<noteq> GEARMAN_SUCCESS"
  shows "cl = None \<and> GEARMAN_SERVER_QUEUE_REPLAY \<notin> server_options st \<and>
         job_heap st' = job_heap st"
  using assms
  by (auto simp: job_add_persist_def Let_def split: option.splits if_splits)

lemma job_add_enqueue_failed:
  assumes "gearman_server_job_queue st j = Some (e, st1)" "e \<noteq> GEARMAN_SUCCESS"
    "job_at st1 j = Some job" "job_function job = Some f" "function_at st1 f = Some fn"
    "gearman_server_job_free
       (if cl = None \<and> queue_done_fn (gearman st1) \<noteq> None
        then st1\<lparr>queue_calls := queue_calls st1 @
               [QUEUE_DONE (job_unique job) usize (function_name fn)]\<rparr>
        else st1) j = Some st'"
  shows "job_add_enqueue st j usize cl = Some (None, e, st')"
  using assms by (simp add: job_add_enqueue_def)

text \<open>
  The two ways back, from the state in which the new job is filled in. If the persistence
  step ends with a code other than \<open>GEARMAN_SUCCESS\<close>, that code is returned with
  \<open>NULL\<close>, the job is in no hash table and at no address any more, and the function is
  as it was. If instead \<open>gearman_server_job_queue\<close> fails, the same holds with its code,
  and the queue's \<open>done\<close> is called once when the job has no client and the callback is
  installed.
\<close>

lemma job_add_rollback_steps:
  assumes fg: "gearman_server_function_get st fname = Some (Some f, st0)"
    and lk: "job_add_lookup sg st0 f uniq dat = Some (key, None)"
    and fn: "function_at st0 f = Some fn" and nf: "\<not> queue_full fn"
    and cr: "gearman_server_job_create st0 = Some (Some j, st1)"
    and fl: "job_add_fill sg key0 st1 f key uniq dat prio j = Some st2"
    and ps: "job_add_persist st2 j fname (length uniq) dat prio cl = Some (e, st3)"
  shows "(e \<noteq> GEARMAN_SUCCESS \<longrightarrow>
            cl = None \<and> GEARMAN_SERVER_QUEUE_REPLAY \<notin> server_options st \<and>
            ((\<exists>add h c. queue_add_fn (gearman st) = Some add \<and> add h c = e) \<or>
             (\<exists>flush h c. queue_flush_fn (gearman st) = Some flush \<and> flush h c = e)) \<and>
            (\<exists>st'. gearman_server_job_add sg key0 st fname uniq dat prio cl = Some (None, e, st') \<and>
                   job_at st' j = None \<and> unique_hash st' = unique_hash st \<and>
                   job_hash st' = job_hash st \<and> function_at st' f = Some fn)) \<and>
         (e = GEARMAN_SUCCESS \<longrightarrow>
            (\<forall>e' st4. gearman_server_job_queue st3 j = Some (e', st4) \<and> e' \<noteq> GEARMAN_SUCCESS \<longrightarrow>
               (\<exists>st'. gearman_server_job_add sg key0 st fname uniq dat prio cl
                         = Some (None, e', st') \<and>
                   job_at st' j = None \<and> unique_hash st' = unique_hash st \<and>
                   job_hash st' = job_hash st \<and> function_at st' f = Some fn \<and>
                   queue_calls st' = queue_calls st3 @
                     (if cl = None \<and> queue_done_fn (gearman st) \<noteq> None
                      then [QUEUE_DONE (snprintf_unique uniq) (length uniq) fname] else []))))"
proof -
  note ff = function_get_frame[OF fg]
  have s0: "unique_hash st0 = unique_hash st" "job_hash st0 = job_hash st"
    "gearman st0 = gearman st" "server_options st0 = server_options st"
    using arg_cong[OF ff, of unique_hash] arg_cong[OF ff, of job_hash]
      arg_cong[OF ff, of gearman] arg_cong[OF ff, of server_options]
    by simp_all
  from function_get_Some[OF fg] fn have name: "function_name fn = fname" by simp
  note r2 = job_add_fill_result[OF cr fl fn]
  let ?J = "filled_job sg key0 st0 f key uniq dat prio"
  let ?k = "case key of None \<Rightarrow> key0 | Some k \<Rightarrow> k"
  let ?hk = "server_job_hash sg (snprintf_job_handle (job_handle_prefix st0) (job_handle_count st0))"
  have s2: "gearman st2 = gearman st" "server_options st2 = server_options st"
    using arg_cong[OF r2(7), of gearman] arg_cong[OF r2(7), of server_options] s0 by simp_all
  from job_add_persist_result[OF ps] r2(1)
  have p: "st2\<lparr>job_heap := job_heap st3, queue_calls := queue_calls st3\<rparr> = st3"
    and ph: "job_heap st3 = job_heap st2 \<or>
          job_heap st3 = (job_heap st2)[j := Some (?J\<lparr>job_options :=
               {GEARMAN_SERVER_JOB_QUEUED, GEARMAN_SERVER_JOB_ALLOCATED}\<rparr>)]"
    by auto
  have j2: "j < length (job_heap st2)" using r2(1) by (rule job_at_SomeD)
  from ph j2 r2(1) obtain opts where
    j3: "job_at st3 j = Some (?J\<lparr>job_options := opts\<rparr>)"
    by (auto simp: job_at_def heap_at_update)
  have s3: "function_heap st3 = function_heap st2" "unique_hash st3 = unique_hash st2"
    "job_hash st3 = job_hash st2" "gearman st3 = gearman st2"
    using arg_cong[OF p, of function_heap] arg_cong[OF p, of unique_hash]
      arg_cong[OF p, of job_hash] arg_cong[OF p, of gearman]
    by simp_all
  have f3: "function_at st3 f = Some (fn\<lparr>job_total := job_total fn + 1\<rparr>)"
    using r2(2) s3 by (simp add: function_at_def)
  have Jf: "\<And>o' d. job_function (?J\<lparr>job_options := o', job_data := d\<rparr>) = Some f"
    "\<And>o' d. job_worker (?J\<lparr>job_options := o', job_data := d\<rparr>) = None"
    "\<And>o' d. job_client_list (?J\<lparr>job_options := o', job_data := d\<rparr>) = []"
    "\<And>o' d. job_unique_key (?J\<lparr>job_options := o', job_data := d\<rparr>) = ?k"
    "\<And>o' d. job_handle_key (?J\<lparr>job_options := o', job_data := d\<rparr>) = ?hk"
    "\<And>o'. job_function (?J\<lparr>job_options := o'\<rparr>) = Some f"
    "\<And>o'. job_worker (?J\<lparr>job_options := o'\<rparr>) = None"
    "\<And>o'. job_client_list (?J\<lparr>job_options := o'\<rparr>) = []"
    "\<And>o'. job_unique_key (?J\<lparr>job_options := o'\<rparr>) = ?k"
    "\<And>o'. job_handle_key (?J\<lparr>job_options := o'\<rparr>) = ?hk"
    "\<And>o'. job_priority (?J\<lparr>job_options := o'\<rparr>) = prio"
    "\<And>o'. job_unique (?J\<lparr>job_options := o'\<rparr>) = snprintf_unique uniq"
    by (simp_all add: filled_job_def zero_job_def)
  have nf': "(0 < max_queue_size fn \<and> max_queue_size fn \<le> job_total fn) = False"
    using nf by (simp add: queue_full_def)
  have A: "e \<noteq> GEARMAN_SUCCESS \<longrightarrow>
            cl = None \<and> GEARMAN_SERVER_QUEUE_REPLAY \<notin> server_options st \<and>
            ((\<exists>add h c. queue_add_fn (gearman st) = Some add \<and> add h c = e) \<or>
             (\<exists>flush h c. queue_flush_fn (gearman st) = Some flush \<and> flush h c = e)) \<and>
            (\<exists>st'. gearman_server_job_add sg key0 st fname uniq dat prio cl = Some (None, e, st') \<and>
                   job_at st' j = None \<and> unique_hash st' = unique_hash st \<and>
                   job_hash st' = job_hash st \<and> function_at st' f = Some fn)"
  proof
    assume ne: "e \<noteq> GEARMAN_SUCCESS"
    let ?st3 = "set_job j (?J\<lparr>job_options := opts, job_data := None\<rparr>) st3"
    have lj: "j < length (job_heap st3)" using j3 by (rule job_at_SomeD)
    have a1: "job_at ?st3 j = Some (?J\<lparr>job_options := opts, job_data := None\<rparr>)"
      using lj by (simp add: job_at_set_job)
    have a2: "function_at ?st3 f = Some (fn\<lparr>job_total := job_total fn + 1\<rparr>)"
      using f3 by (simp add: function_at_def set_job_def)
    from job_free_unlinked[OF a1 Jf(1) a2 Jf(2) Jf(3)] obtain st' where
      fr: "gearman_server_job_free ?st3 j = Some st'" and
      r: "job_at st' j = None"
         "function_at st' f = Some (fn\<lparr>job_total := job_total fn + 1, job_total := job_total fn + 1 - 1\<rparr>)"
         "unique_hash st' = (unique_hash ?st3)
             (unat ?k mod GEARMAN_JOB_HASH_SIZE :=
                remove1 j (unique_hash ?st3 (unat ?k mod GEARMAN_JOB_HASH_SIZE)))"
         "job_hash st' = (job_hash ?st3)
             (unat ?hk mod GEARMAN_JOB_HASH_SIZE :=
                remove1 j (job_hash ?st3 (unat ?hk mod GEARMAN_JOB_HASH_SIZE)))"
      by (auto simp: Jf)
    have run: "gearman_server_job_add sg key0 st fname uniq dat prio cl = Some (None, e, st')"
      using fg lk fn cr fl ps ne j3 fr
      by (simp add: gearman_server_job_add_def job_add_create_def nf')
    have u: "unique_hash st' = unique_hash st"
      by (simp add: r(3) set_job_def s3 r2(5) s0)
    have h: "job_hash st' = job_hash st"
      by (simp add: r(4) set_job_def s3 r2(6) s0)
    have t: "function_at st' f = Some fn" by (simp add: r(2))
    from job_add_persist_failed[OF ps ne] job_add_persist_ret[OF ps ne] s2 run r(1) u h t
    show "cl = None \<and> GEARMAN_SERVER_QUEUE_REPLAY \<notin> server_options st \<and>
            ((\<exists>add h c. queue_add_fn (gearman st) = Some add \<and> add h c = e) \<or>
             (\<exists>flush h c. queue_flush_fn (gearman st) = Some flush \<and> flush h c = e)) \<and>
            (\<exists>st'. gearman_server_job_add sg key0 st fname uniq dat prio cl = Some (None, e, st') \<and>
                   job_at st' j = None \<and> unique_hash st' = unique_hash st \<and>
                   job_hash st' = job_hash st \<and> function_at st' f = Some fn)"
      by simp
  qed
  have B: "e = GEARMAN_SUCCESS \<longrightarrow>
            (\<forall>e' st4. gearman_server_job_queue st3 j = Some (e', st4) \<and> e' \<noteq> GEARMAN_SUCCESS \<longrightarrow>
               (\<exists>st'. gearman_server_job_add sg key0 st fname uniq dat prio cl
                         = Some (None, e', st') \<and>
                   job_at st' j = None \<and> unique_hash st' = unique_hash st \<and>
                   job_hash st' = job_hash st \<and> function_at st' f = Some fn \<and>
                   queue_calls st' = queue_calls st3 @
                     (if cl = None \<and> queue_done_fn (gearman st) \<noteq> None
                      then [QUEUE_DONE (snprintf_unique uniq) (length uniq) fname] else [])))"
  proof (intro impI allI)
    fix e' st4
    assume ok: "e = GEARMAN_SUCCESS"
      and q: "gearman_server_job_queue st3 j = Some (e', st4) \<and> e' \<noteq> GEARMAN_SUCCESS"
    let ?fn3 = "fn\<lparr>job_total := job_total fn + 1\<rparr>"
    let ?J4 = "?J\<lparr>job_options := opts, job_worker := None, job_numerator := 0,
                  job_denominator := 0\<rparr>"
    have J4: "?J4 = ?J\<lparr>job_options := opts\<rparr>" by (simp add: filled_job_def zero_job_def)
    from job_queue_result[OF conjunct1[OF q]] j3 Jf f3 conjunct2[OF q] have
      qn: "queue_noop (set_job j ?J4 (set_function f ?fn3 st3)) (worker_list ?fn3)
             = Some (e', st4)"
      by auto
    note qf = queue_noop_frame[OF qn]
    have lf: "f < length (function_heap st3)" using f3 by (rule function_at_SomeD)
    have lj: "j < length (job_heap st3)" using j3 by (rule job_at_SomeD)
    have jh4: "job_heap st4 = (job_heap st3)[j := Some (?J\<lparr>job_options := opts\<rparr>)]"
      using arg_cong[OF qf, of job_heap] by (simp add: set_job_def set_function_def J4)
    have fh4: "function_heap st4 = (function_heap st3)[f := Some ?fn3]"
      using arg_cong[OF qf, of function_heap] by (simp add: set_job_def set_function_def)
    have j4: "job_at st4 j = Some (?J\<lparr>job_options := opts\<rparr>)"
      using lj by (simp add: jh4 job_at_def heap_at_update)
    have f4: "function_at st4 f = Some ?fn3"
      using lf by (simp add: fh4 function_at_def heap_at_update)
    have s4: "unique_hash st4 = unique_hash st3" "job_hash st4 = job_hash st3"
      "gearman st4 = gearman st3" "queue_calls st4 = queue_calls st3"
      using arg_cong[OF qf, of unique_hash] arg_cong[OF qf, of job_hash]
        arg_cong[OF qf, of gearman] arg_cong[OF qf, of queue_calls]
      by (simp_all add: set_job_def set_function_def)
    let ?done = "if cl = None \<and> queue_done_fn (gearman st) \<noteq> None
                 then [QUEUE_DONE (snprintf_unique uniq) (length uniq) fname] else []"
    define st5 where "st5 =
               (if cl = None \<and> queue_done_fn (gearman st4) \<noteq> None
                then st4\<lparr>queue_calls := queue_calls st4 @
                       [QUEUE_DONE (job_unique (?J\<lparr>job_options := opts\<rparr>)) (length uniq)
                          (function_name ?fn3)]\<rparr>
                else st4)"
    have a1: "job_at st5 j = Some (?J\<lparr>job_options := opts\<rparr>)"
      using j4 by (simp add: job_at_def st5_def)
    have a2: "function_at st5 f = Some ?fn3" using f4 by (simp add: function_at_def st5_def)
    have a3: "unique_hash st5 = unique_hash st4" "job_hash st5 = job_hash st4"
      "queue_calls st5 = queue_calls st4 @ ?done"
      by (simp_all add: st5_def s4 s3 s2 Jf name)
    from job_free_unlinked[OF a1 Jf(6) a2 Jf(7) Jf(8)] obtain st' where
      fr: "gearman_server_job_free st5 j = Some st'" and
      r: "job_at st' j = None"
         "function_at st' f = Some (fn\<lparr>job_total := job_total fn + 1, job_total := job_total fn + 1 - 1\<rparr>)"
         "unique_hash st' = (unique_hash st5)
             (unat ?k mod GEARMAN_JOB_HASH_SIZE :=
                remove1 j (unique_hash st5 (unat ?k mod GEARMAN_JOB_HASH_SIZE)))"
         "job_hash st' = (job_hash st5)
             (unat ?hk mod GEARMAN_JOB_HASH_SIZE :=
                remove1 j (job_hash st5 (unat ?hk mod GEARMAN_JOB_HASH_SIZE)))"
         "queue_calls st' = queue_calls st5"
      by (auto simp: Jf)
    have en: "job_add_enqueue st3 j (length uniq) cl = Some (None, e', st')"
      by (rule job_add_enqueue_failed[OF conjunct1[OF q] conjunct2[OF q] j4 Jf(6) f4
            fr[unfolded st5_def]])
    have run: "gearman_server_job_add sg key0 st fname uniq dat prio cl = Some (None, e', st')"
      using fg lk fn cr fl ps ok en
      by (simp add: gearman_server_job_add_def job_add_create_def nf')
    have u: "unique_hash st' = unique_hash st"
      by (simp only: r(3) a3) (simp add: s4 s3 r2(5) s0)
    have h: "job_hash st' = job_hash st"
      by (simp only: r(4) a3) (simp add: s4 s3 r2(6) s0)
    have t: "function_at st' f = Some fn" by (simp add: r(2))
    have c: "queue_calls st' = queue_calls st3 @ ?done" by (simp only: r(5) a3 s4)
    from run r(1) u h t c
    show "\<exists>st'. gearman_server_job_add sg key0 st fname uniq dat prio cl
                         = Some (None, e', st') \<and>
                   job_at st' j = None \<and> unique_hash st' = unique_hash st \<and>
                   job_hash st' = job_hash st \<and> function_at st' f = Some fn \<and>
                   queue_calls st' = queue_calls st3 @ ?done"
      by blast
  qed
  from A B show ?thesis by blast
qed


text \<open>
  A server whose queue refuses every \<open>add\<close>, and a server with a sleeping worker where
  the memory for the job is there and the memory for the NOOP packet is not.
\<close>

definition example_refusing_fn :: queue_fn where
  "example_refusing_fn calls call = GEARMAN_QUEUE_ERROR"

definition example_refusing_server :: gearman_server_st where
  "example_refusing_server =
     example_worker_server
       \<lparr>gearman := \<lparr>queue_add_fn = Some example_refusing_fn,
                    queue_flush_fn = Some example_queue_fn,
                    queue_done_fn = Some example_queue_fn\<rparr>\<rparr>"

definition example_no_packet_server :: gearman_server_st where
  "example_no_packet_server =
     example_worker_server
       \<lparr>gearman := \<lparr>queue_add_fn = Some example_queue_fn,
                    queue_flush_fn = Some example_queue_fn,
                    queue_done_fn = Some example_queue_fn\<rparr>,
        con_heap := [0 \<mapsto> \<lparr>con_options = {GEARMAN_SERVER_CON_SLEEPING}, noop_queued = False,
                            con_worker_list = [0], io_packet_list = []\<rparr>],
        malloc_results := [True, False]\<rparr>"

lemmas example_queue_defs =
  example_refusing_server_def example_no_packet_server_def example_refusing_fn_def
  example_queue_fn_def example_worker_server_def example_server_def

section \<open>The order of dispatch\<close>

text \<open>The value of a priority in the enumeration, and the jobs of a function in the
  order in which the scan of the priorities meets them.\<close>

definition priority_rank :: "gearman_job_priority_t \<Rightarrow> nat" where
  "priority_rank p =
     (case p of GEARMAN_JOB_PRIORITY_HIGH \<Rightarrow> 0
              | GEARMAN_JOB_PRIORITY_NORMAL \<Rightarrow> 1
              | GEARMAN_JOB_PRIORITY_LOW \<Rightarrow> 2)"

definition dispatch_order :: "gearman_server_function_st \<Rightarrow> nat list" where
  "dispatch_order fn =
     job_list fn GEARMAN_JOB_PRIORITY_HIGH @ job_list fn GEARMAN_JOB_PRIORITY_NORMAL
       @ job_list fn GEARMAN_JOB_PRIORITY_LOW"

text \<open>A worker that the first loop of \<open>gearman_server_job_take\<close> passes by.\<close>

definition worker_idle :: "gearman_server_st \<Rightarrow> nat \<Rightarrow> bool" where
  "worker_idle st w =
     (case worker_heap st w of
        None \<Rightarrow> False
      | Some worker \<Rightarrow>
          (case function_at st (worker_function worker) of
             None \<Rightarrow> False
           | Some fn \<Rightarrow> job_count fn = 0))"

lemma take_worker_first:
  "take_worker st ws = Some (Some w) \<Longrightarrow>
   \<exists>pre post. ws = pre @ w # post \<and> list_all (worker_idle st) pre \<and> \<not> worker_idle st w"
proof (induction ws)
  case Nil
  then show ?case by simp
next
  case (Cons a ws)
  show ?case
  proof (cases "worker_idle st a")
    case True
    with Cons.prems have "take_worker st ws = Some (Some w)"
      by (auto simp: worker_idle_def split: option.splits if_splits)
    from Cons.IH[OF this] obtain pre post where
      "ws = pre @ w # post" "list_all (worker_idle st) pre" "\<not> worker_idle st w" by blast
    with True have "a # ws = (a # pre) @ w # post \<and> list_all (worker_idle st) (a # pre)
        \<and> \<not> worker_idle st w" by simp
    then show ?thesis by blast
  next
    case False
    with Cons.prems have "a = w"
      by (auto simp: worker_idle_def split: option.splits if_splits)
    with False have "a # ws = [] @ w # ws \<and> list_all (worker_idle st) [] \<and> \<not> worker_idle st w"
      by simp
    then show ?thesis by blast
  qed
qed

lemma take_priority_first:
  assumes "take_priority fn = Some p"
  shows "job_list fn p \<noteq> []"
    and "\<forall>q. priority_rank q < priority_rank p \<longrightarrow> job_list fn q = []"
    and "hd (dispatch_order fn) = hd (job_list fn p)"
    and "dispatch_order (fn\<lparr>job_list := (job_list fn)(p := tl (job_list fn p))\<rparr>)
           = tl (dispatch_order fn)"
proof -
  from assms show "job_list fn p \<noteq> []"
    by (auto simp: take_priority_def split: if_splits)
  from assms show "\<forall>q. priority_rank q < priority_rank p \<longrightarrow> job_list fn q = []"
    by (auto simp: take_priority_def priority_rank_def
        split: if_splits gearman_job_priority_t.splits)
  from assms show "hd (dispatch_order fn) = hd (job_list fn p)"
    by (auto simp: take_priority_def dispatch_order_def split: if_splits)
  from assms show "dispatch_order (fn\<lparr>job_list := (job_list fn)(p := tl (job_list fn p))\<rparr>)
           = tl (dispatch_order fn)"
    by (auto simp: take_priority_def dispatch_order_def split: if_splits)
qed

lemma take_assign_result:
  assumes c: "con_heap st c = Some con"
    and tw: "take_worker st (con_worker_list con) = Some (Some w)"
    and wk: "worker_heap st w = Some worker"
    and fn: "function_at st (worker_function worker) = Some fn"
    and tp: "take_priority fn = Some p"
    and j: "job_at st (hd (job_list fn p)) = Some job"
    and jf: "job_function job = Some (worker_function worker)"
  shows "take_assign st c =
     Some (Some (hd (job_list fn p),
       (set_job (hd (job_list fn p)) (job\<lparr>job_worker := Some w\<rparr>)
          (set_function (worker_function worker)
             (fn\<lparr>job_list := (job_list fn)(p := tl (job_list fn p)),
                 job_count := job_count fn - 1,
                 job_running := job_running fn + 1\<rparr>) st))
         \<lparr>worker_heap := (worker_heap st)(w \<mapsto>
              worker\<lparr>worker_job := Some (hd (job_list fn p))\<rparr>)\<rparr>))"
  using assms by (simp add: take_assign_def Let_def)


text \<open>
  The head of the first non-empty list. For a connection, \<open>gearman_server_job_take\<close>
  passes by the workers whose function has \<open>job_count == 0\<close>, stops at the first other
  one and scans its function's lists from HIGH to LOW; the first non-empty list is the one
  of \<open>p\<close>. If its head is a job of that function that is not marked IGNORE, the head is
  returned, with the worker assigned, and is removed from its list.
  \<open>gearman_server_job_queue\<close> puts a job at the end of the list of its priority.
\<close>

lemma take_head_steps:
  assumes c: "con_heap st c = Some con"
    and tw: "take_worker st (con_worker_list con) = Some (Some w)"
    and wk: "worker_heap st w = Some worker"
    and fn: "function_at st (worker_function worker) = Some fn"
    and tp: "take_priority fn = Some p"
    and j: "job_at st (hd (job_list fn p)) = Some job"
    and jf: "job_function job = Some (worker_function worker)"
  shows "(\<exists>pre post. con_worker_list con = pre @ w # post \<and>
            list_all (worker_idle st) pre \<and> job_count fn \<noteq> 0) \<and>
         job_list fn p \<noteq> [] \<and>
         (\<forall>q. priority_rank q < priority_rank p \<longrightarrow> job_list fn q = []) \<and>
         hd (dispatch_order fn) = hd (job_list fn p) \<and>
         (GEARMAN_SERVER_JOB_IGNORE \<notin> job_options job \<longrightarrow>
            (\<exists>st' fn' job'.
               gearman_server_job_take st c = Some (Some (hd (job_list fn p)), st') \<and>
               function_at st' (worker_function worker) = Some fn' \<and>
               job_list fn' = (job_list fn)(p := tl (job_list fn p)) \<and>
               dispatch_order fn' = tl (dispatch_order fn) \<and>
               job_at st' (hd (job_list fn p)) = Some job' \<and> job_worker job' = Some w)) \<and>
         (\<forall>s i jb g gn s'.
            job_at s i = Some jb \<and> job_function jb = Some g \<and> function_at s g = Some gn \<and>
            gearman_server_job_queue s i = Some (GEARMAN_SUCCESS, s') \<longrightarrow>
            (\<exists>gn'. function_at s' g = Some gn' \<and>
                   job_list gn' = (job_list gn)(job_priority jb := job_list gn (job_priority jb) @ [i])))"
proof (intro conjI)
  from take_worker_first[OF tw] wk fn
  show "\<exists>pre post. con_worker_list con = pre @ w # post \<and>
            list_all (worker_idle st) pre \<and> job_count fn \<noteq> 0"
    by (auto simp: worker_idle_def)
  note p = take_priority_first[OF tp]
  show "job_list fn p \<noteq> []" by (rule p(1))
  show "\<forall>q. priority_rank q < priority_rank p \<longrightarrow> job_list fn q = []" by (rule p(2))
  show "hd (dispatch_order fn) = hd (job_list fn p)" by (rule p(3))
  let ?j = "hd (job_list fn p)"
  let ?f = "worker_function worker"
  let ?fn' = "fn\<lparr>job_list := (job_list fn)(p := tl (job_list fn p)),
                 job_count := job_count fn - 1, job_running := job_running fn + 1\<rparr>"
  let ?st1 = "(set_job ?j (job\<lparr>job_worker := Some w\<rparr>) (set_function ?f ?fn' st))
         \<lparr>worker_heap := (worker_heap st)(w \<mapsto> worker\<lparr>worker_job := Some ?j\<rparr>)\<rparr>"
  note ta = take_assign_result[OF c tw wk fn tp j jf]
  have j1: "job_at ?st1 ?j = Some (job\<lparr>job_worker := Some w\<rparr>)"
    using job_at_SomeD[OF j] by (simp add: job_at_def set_job_def set_function_def heap_at_update)
  have f1: "function_at ?st1 ?f = Some ?fn'"
    using function_at_SomeD[OF fn]
    by (simp add: function_at_def set_job_def set_function_def heap_at_update)
  show "GEARMAN_SERVER_JOB_IGNORE \<notin> job_options job \<longrightarrow>
            (\<exists>st' fn' job'.
               gearman_server_job_take st c = Some (Some ?j, st') \<and>
               function_at st' ?f = Some fn' \<and>
               job_list fn' = (job_list fn)(p := tl (job_list fn p)) \<and>
               dispatch_order fn' = tl (dispatch_order fn) \<and>
               job_at st' ?j = Some job' \<and> job_worker job' = Some w)"
  proof
    assume ni: "GEARMAN_SERVER_JOB_IGNORE \<notin> job_options job"
    have "gearman_server_job_take st c = Some (Some ?j, ?st1)"
      using ta j1 ni by (subst gearman_server_job_take.simps) simp
    moreover have "dispatch_order ?fn' = tl (dispatch_order fn)"
      using p(4) by (simp add: dispatch_order_def)
    ultimately show "\<exists>st' fn' job'.
               gearman_server_job_take st c = Some (Some ?j, st') \<and>
               function_at st' ?f = Some fn' \<and>
               job_list fn' = (job_list fn)(p := tl (job_list fn p)) \<and>
               dispatch_order fn' = tl (dispatch_order fn) \<and>
               job_at st' ?j = Some job' \<and> job_worker job' = Some w"
      using j1 f1 by simp
  qed
  show "\<forall>s i jb g gn s'.
            job_at s i = Some jb \<and> job_function jb = Some g \<and> function_at s g = Some gn \<and>
            gearman_server_job_queue s i = Some (GEARMAN_SUCCESS, s') \<longrightarrow>
            (\<exists>gn'. function_at s' g = Some gn' \<and>
                   job_list gn' = (job_list gn)(job_priority jb := job_list gn (job_priority jb) @ [i]))"
  proof (intro allI impI)
    fix s i jb g gn s'
    assume a: "job_at s i = Some jb \<and> job_function jb = Some g \<and> function_at s g = Some gn \<and>
            gearman_server_job_queue s i = Some (GEARMAN_SUCCESS, s')"
    let ?gn1 = "if job_worker jb \<noteq> None then gn\<lparr>job_running := job_running gn - 1\<rparr> else gn"
    from job_queue_result[of s i GEARMAN_SUCCESS s'] a obtain s2 where
      qn: "queue_noop
             (set_job i (jb\<lparr>job_worker := None, job_numerator := 0, job_denominator := 0\<rparr>)
               (set_function g ?gn1 s)) (worker_list gn) = Some (GEARMAN_SUCCESS, s2)"
      and s': "s' = set_function g
                 (?gn1\<lparr>job_list := (job_list gn)(job_priority jb := job_list gn (job_priority jb) @ [i]),
                       job_count := job_count gn + 1\<rparr>) s2"
      by auto
    have "function_heap s2 = (function_heap s)[g := Some ?gn1]"
      using arg_cong[OF queue_noop_frame[OF qn], of function_heap]
      by (simp add: set_job_def set_function_def)
    with a have "function_at s' g =
        Some (?gn1\<lparr>job_list := (job_list gn)(job_priority jb := job_list gn (job_priority jb) @ [i]),
                       job_count := job_count gn + 1\<rparr>)"
      by (auto simp: s' function_at_set_function dest: function_at_SomeD)
    then show "\<exists>gn'. function_at s' g = Some gn' \<and>
                   job_list gn' = (job_list gn)(job_priority jb := job_list gn (job_priority jb) @ [i])"
      by simp
  qed
qed


definition example_client_server :: gearman_server_st where
  "example_client_server =
     example_worker_server\<lparr>client_heap := [0 \<mapsto> \<lparr>client_job = None\<rparr>]\<rparr>"

text \<open>
  Claim C7 as stated fails where the head is marked IGNORE: the client of the first job
  goes away before a worker asks, and \<open>gearman_server_job_take\<close> frees that job and
  returns the second one, which is not the head of the first non-empty list.
\<close>

theorem take_skips_ignored_head:
  "do {
     (a, r1, s1) \<leftarrow> gearman_server_job_add False 0 example_client_server ''f'' ''a'' ''x''
                      GEARMAN_JOB_PRIORITY_NORMAL (Some 0);
     s2 \<leftarrow> gearman_server_client_free s1 0;
     (b, r2, s3) \<leftarrow> gearman_server_job_add False 0 s2 ''f'' ''b'' ''y''
                      GEARMAN_JOB_PRIORITY_NORMAL None;
     fn \<leftarrow> function_at s3 0;
     (t, s4) \<leftarrow> gearman_server_job_take s3 0;
     Some (job_list fn GEARMAN_JOB_PRIORITY_HIGH, job_list fn GEARMAN_JOB_PRIORITY_NORMAL,
           t, job_at s4 0)
   } = Some ([], [0, 1], Some 1, None)"
  by (simp add: job_add_defs take_defs example_client_server_def example_worker_server_def
      example_server_def example_evals gearman_server_client_free_def
      gearman_server_job_free_def)

definition example_three_jobs :: gearman_server_st where
  "example_three_jobs =
     (case do {
             (a, r1, s1) \<leftarrow> gearman_server_job_add False 0 example_worker_server ''f'' ''a'' ''x''
                              GEARMAN_JOB_PRIORITY_LOW None;
             (b, r2, s2) \<leftarrow> gearman_server_job_add False 0 s1 ''f'' ''b'' ''y''
                              GEARMAN_JOB_PRIORITY_NORMAL None;
             (c, r3, s3) \<leftarrow> gearman_server_job_add False 0 s2 ''f'' ''c'' ''z''
                              GEARMAN_JOB_PRIORITY_HIGH None;
             Some s3
           } of
        Some s \<Rightarrow> s
      | None \<Rightarrow> example_worker_server)"

lemmas example_three_defs =
  example_three_jobs_def example_worker_server_def example_server_def example_evals

lemma example_three_jobs_facts:
  "con_heap example_three_jobs 0 =
     Some \<lparr>con_options = {}, noop_queued = False, con_worker_list = [0], io_packet_list = []\<rparr> \<and>
   worker_heap example_three_jobs 0 =
     Some \<lparr>worker_con = 0, worker_function = 0, worker_job = None\<rparr> \<and>
   (\<exists>fn. function_at example_three_jobs 0 = Some fn \<and> job_count fn = 3 \<and>
      job_list fn GEARMAN_JOB_PRIORITY_HIGH = [2] \<and>
      job_list fn GEARMAN_JOB_PRIORITY_NORMAL = [1] \<and>
      job_list fn GEARMAN_JOB_PRIORITY_LOW = [0]) \<and>
   (\<exists>job. job_at example_three_jobs 2 = Some job \<and> job_function job = Some 0 \<and>
      GEARMAN_SERVER_JOB_IGNORE \<notin> job_options job)"
  by (simp add: example_three_defs job_add_defs)

section \<open>Duplicates\<close>

lemma function_find_names:
  "\<forall>g \<in> set fl. map_option function_name (heap_at h g) = map_option function_name (heap_at h' g)
   \<Longrightarrow> function_find h name fl = function_find h' name fl"
proof (induction fl)
  case Nil
  then show ?case by simp
next
  case (Cons a fl)
  then show ?case
    by (cases "heap_at h a"; cases "heap_at h' a") auto
qed

lemma function_get_again:
  assumes "gearman_server_function_get st name = Some (Some f, st')"
  shows "function_find (function_heap st') name (function_list st') = Some (Some f)"
proof (cases "function_find (function_heap st) name (function_list st)")
  case None
  with assms show ?thesis by (simp add: gearman_server_function_get_def)
next
  case (Some a)
  show ?thesis
  proof (cases a)
    case None
    with Some assms show ?thesis
      by (auto simp: gearman_server_function_get_def gearman_server_function_create_def
          gearman_server_function_free_def malloc_def set_function_def Let_def
          function_at_def heap_at_def
          split: option.splits if_splits prod.splits list.splits)
  next
    case (Some g)
    with \<open>function_find (function_heap st) name (function_list st) = Some a\<close> assms
    show ?thesis
      by (auto simp: gearman_server_function_get_def)
  qed
qed

lemma c_str_idem: "c_str (c_str s) = c_str s"
  by (simp add: c_str_def)

lemma c_str_snprintf_unique:
  "length (c_str uniq) < GEARMAN_UNIQUE_SIZE \<Longrightarrow> c_str (snprintf_unique uniq) = c_str uniq"
  by (simp add: snprintf_unique_def c_str_idem)

lemma job_add_first_lookup:
  assumes first: "gearman_server_job_add sg key0 st fname uniq dat prio cl =
                    Some (Some j, GEARMAN_SUCCESS, st1)"
  obtains f s0 key fn job1 where
    "gearman_server_function_get st fname = Some (Some f, s0)"
    "job_add_lookup sg s0 f uniq dat = Some (key, None)"
    "function_at s0 f = Some fn"
    "function_find (function_heap st1) fname (function_list st1) = Some (Some f)"
    "function_at st1 f =
       Some (fn\<lparr>job_total := job_total fn + 1,
                 job_list := (job_list fn)(prio := job_list fn prio @ [j]),
                 job_count := job_count fn + 1\<rparr>)"
    "job_at st1 j = Some job1"
    "job_function job1 = Some f"
    "job_unique job1 = snprintf_unique uniq"
    "job_data job1 = Some dat" "job_data_size job1 = length dat"
    "job_unique_key job1 = (case key of None \<Rightarrow> key0 | Some k \<Rightarrow> k)"
    "job_handle job1 = snprintf_job_handle (job_handle_prefix s0) (job_handle_count s0)"
    "unique_hash st1 (unat (case key of None \<Rightarrow> key0 | Some k \<Rightarrow> k) mod GEARMAN_JOB_HASH_SIZE)
       = j # unique_hash s0
               (unat (case key of None \<Rightarrow> key0 | Some k \<Rightarrow> k) mod GEARMAN_JOB_HASH_SIZE)"
  using first
proof (cases rule: job_add_cases)
  case no_function
  then show ?thesis by simp
next
  case (exists f s0 key j0)
  from job_add_attach_result(2)[OF exists(3)] show ?thesis by simp
next
  case (create f s0 key)
  from create(3) show ?thesis
  proof (cases rule: job_add_create_created)
    case (1 fn job')
    have fd0: "function_find (function_heap s0) fname (function_list s0) = Some (Some f)"
      by (rule function_get_again[OF create(1)])
    have names: "\<forall>g \<in> set (function_list s0).
        map_option function_name (heap_at (function_heap st1) g)
          = map_option function_name (heap_at (function_heap s0) g)"
    proof
      fix g assume "g \<in> set (function_list s0)"
      show "map_option function_name (heap_at (function_heap st1) g)
          = map_option function_name (heap_at (function_heap s0) g)"
      proof (cases "g = f")
        case True
        with 1(2) 1(8) show ?thesis by (simp add: function_at_def)
      next
        case False
        from 1(9)[OF False] show ?thesis by (simp add: function_at_def)
      qed
    qed
    have fd1: "function_find (function_heap st1) fname (function_list st1) = Some (Some f)"
      using function_find_names[OF names, of fname] fd0 1(13) by simp
    have flds: "job_function job' = Some f" "job_unique job' = snprintf_unique uniq"
      "job_data job' = Some dat" "job_data_size job' = length dat"
      "job_unique_key job' = (case key of None \<Rightarrow> key0 | Some k \<Rightarrow> k)"
      "job_handle job' = snprintf_job_handle (job_handle_prefix s0) (job_handle_count s0)"
      using arg_cong[OF 1(5), of job_function] arg_cong[OF 1(5), of job_unique]
        arg_cong[OF 1(5), of job_data] arg_cong[OF 1(5), of job_data_size]
        arg_cong[OF 1(5), of job_unique_key] arg_cong[OF 1(5), of job_handle]
      by (simp_all add: filled_job_def zero_job_def)
    show ?thesis
      by (rule that[OF create(1) create(2) 1(2) fd1 1(8) 1(4) flds]) (simp add: 1(11))
  qed
qed

lemma job_add_lookup_key:
  assumes "job_add_lookup sg st f uniq dat = Some (key, r)"
  shows "(uniq \<noteq> [] \<and> uniq \<noteq> ''-'' \<longrightarrow> key = Some (server_job_hash sg uniq))
       \<and> (uniq = ''-'' \<and> dat \<noteq> [] \<longrightarrow> key = Some (server_job_hash sg dat))"
  using assms
  by (cases uniq; cases "tl uniq")
     (auto simp: job_add_lookup_def Let_def split: if_splits option.splits)

text \<open>
  Deduplication where the unique fits its buffer. For a unique of fewer than
  \<open>GEARMAN_UNIQUE_SIZE\<close> characters (or for the unique \<open>-\<close> with the same non-empty
  data), a submission made right after a successful one, for the same function, returns
  the job of the first with \<open>GEARMAN_JOB_EXISTS\<close>; the job keeps its handle, and
  \<open>job_total\<close> of the function, which the first submission had incremented, is not
  incremented again. The data and the priority of the second submission play no part
  when the unique is not \<open>-\<close>.
\<close>

lemma job_add_duplicate_exists:
  assumes first: "gearman_server_job_add sg key0 st fname uniq dat prio cl =
                    Some (Some j, GEARMAN_SUCCESS, st1)"
    and u: "(uniq \<noteq> [] \<and> uniq \<noteq> ''-'' \<and> length (c_str uniq) < GEARMAN_UNIQUE_SIZE)
              \<or> (uniq = ''-'' \<and> dat \<noteq> [] \<and> dat' = dat)"
    and live: "case cl' of None \<Rightarrow> True | Some c \<Rightarrow> client_heap st1 c \<noteq> None"
  shows "\<exists>st2 f s0 fn0 fn1 fn2 job1 job2.
           gearman_server_job_add sg key1 st1 fname uniq dat' prio' cl' =
             Some (Some j, GEARMAN_JOB_EXISTS, st2)
         \<and> gearman_server_function_get st fname = Some (Some f, s0)
         \<and> function_at s0 f = Some fn0 \<and> function_at st1 f = Some fn1
         \<and> function_at st2 f = Some fn2
         \<and> job_total fn1 = job_total fn0 + 1 \<and> job_total fn2 = job_total fn1
         \<and> job_at st1 j = Some job1 \<and> job_at st2 j = Some job2
         \<and> job_handle job2 = job_handle job1"
  using first
proof (cases rule: job_add_first_lookup)
  case (1 f s0 key fn job1)
  let ?k = "case key of None \<Rightarrow> key0 | Some k \<Rightarrow> k"
  have get1: "gearman_server_function_get st1 fname = Some (Some f, st1)"
    by (simp add: gearman_server_function_get_def 1(4))
  note lk = job_add_lookup_key[OF 1(2)]
  have look: "\<exists>key'. job_add_lookup sg st1 f uniq dat' = Some (key', Some j)"
    using u
  proof
    assume a: "uniq \<noteq> [] \<and> uniq \<noteq> ''-'' \<and> length (c_str uniq) < GEARMAN_UNIQUE_SIZE"
    with lk have key: "?k = server_job_hash sg uniq" by simp
    have "server_job_get_unique st1 (server_job_hash sg uniq) f uniq 0 = Some (Some j)"
      using 1(13) a
      by (simp add: server_job_get_unique_def key 1(6) 1(7) 1(8) 1(11) c_str_snprintf_unique)
    moreover from a have nd: "(length uniq = Suc 0 \<and> hd uniq = CHR ''-'') = False"
      by (cases uniq) auto
    ultimately show ?thesis using a
      by (simp add: job_add_lookup_def Let_def nd)
  next
    assume a: "uniq = ''-'' \<and> dat \<noteq> [] \<and> dat' = dat"
    with lk have key: "?k = server_job_hash sg dat" by simp
    have "server_job_get_unique st1 (server_job_hash sg dat) f dat (length dat) = Some (Some j)"
      using 1(13) a
      by (simp add: server_job_get_unique_def key 1(6) 1(7) 1(9) 1(10) 1(11))
    with a show ?thesis
      by (simp add: job_add_lookup_def Let_def)
  qed
  then obtain key' where look': "job_add_lookup sg st1 f uniq dat' = Some (key', Some j)" ..
  have add2: "gearman_server_job_add sg key1 st1 fname uniq dat' prio' cl' =
                job_add_attach st1 j GEARMAN_JOB_EXISTS cl'"
    by (simp add: gearman_server_job_add_def get1 look')
  from live 1(6) obtain r ret st2 where
    att: "job_add_attach st1 j GEARMAN_JOB_EXISTS cl' = Some (r, ret, st2)"
    by (cases cl') (auto simp: job_add_attach_def)
  note ar = job_add_attach_result[OF att]
  from ar(5)[OF 1(6)] obtain job2 where j2: "job_at st2 j = Some job2"
    and j2eq: "job2\<lparr>job_client_list := job_client_list job1,
                   job_client_count := job_client_count job1\<rparr> = job1"
    by blast
  have h2: "job_handle job2 = job_handle job1"
    using arg_cong[OF j2eq, of job_handle] by simp
  have f2: "function_at st2 f = function_at st1 f"
    using arg_cong[OF ar(3), of function_heap] by (simp add: function_at_def)
  let ?fn1 = "fn\<lparr>job_total := job_total fn + 1,
                 job_list := (job_list fn)(prio := job_list fn prio @ [j]),
                 job_count := job_count fn + 1\<rparr>"
  have "gearman_server_job_add sg key1 st1 fname uniq dat' prio' cl' =
             Some (Some j, GEARMAN_JOB_EXISTS, st2)
         \<and> gearman_server_function_get st fname = Some (Some f, s0)
         \<and> function_at s0 f = Some fn \<and> function_at st1 f = Some ?fn1
         \<and> function_at st2 f = Some ?fn1
         \<and> job_total ?fn1 = job_total fn + 1 \<and> job_total ?fn1 = job_total ?fn1
         \<and> job_at st1 j = Some job1 \<and> job_at st2 j = Some job2
         \<and> job_handle job2 = job_handle job1"
    using add2 att ar(1) ar(2) 1(1) 1(3) 1(5) j2 h2 f2 1(6) by simp
  then show ?thesis by blast
qed

definition example_long_unique :: string where
  "example_long_unique = replicate 64 (CHR ''u'')"

text \<open>
  Claim C4: two submissions with the same non-empty unique for the same function give
  one job. The code does not do that for a unique of \<open>GEARMAN_UNIQUE_SIZE\<close> characters
  or more: line 117 stores the first 63 of them, \<open>strcmp\<close> in
  \<open>_server_job_get_unique\<close> compares the stored 63 with the 64 characters of the second
  request, and the second submission creates a second job. Both calls return
  \<open>GEARMAN_SUCCESS\<close>, with two different jobs, and \<open>job_total\<close> is 2.
\<close>

theorem long_unique_is_not_deduplicated:
  "do {
     (a, r1, s1) \<leftarrow> gearman_server_job_add False 0 example_worker_server ''f''
                      example_long_unique ''x'' GEARMAN_JOB_PRIORITY_NORMAL None;
     (b, r2, s2) \<leftarrow> gearman_server_job_add False 0 s1 ''f''
                      example_long_unique ''x'' GEARMAN_JOB_PRIORITY_NORMAL None;
     fn \<leftarrow> function_at s2 0;
     j1 \<leftarrow> job_at s2 0;
     Some (a, r1, b, r2, job_total fn, length (job_unique j1))
   } = Some (Some 0, GEARMAN_SUCCESS, Some 1, GEARMAN_SUCCESS, 2, 63)"
  by (simp add: job_add_defs example_long_unique_def example_worker_server_def
      example_server_def example_evals)

lemma job_add_duplicate_exists_example:
  "\<exists>st1 st2 fn.
     gearman_server_job_add False 0 example_worker_server ''f'' ''a'' ''x''
       GEARMAN_JOB_PRIORITY_NORMAL None = Some (Some 0, GEARMAN_SUCCESS, st1) \<and>
     gearman_server_job_add False 0 st1 ''f'' ''a'' ''y''
       GEARMAN_JOB_PRIORITY_HIGH None = Some (Some 0, GEARMAN_JOB_EXISTS, st2) \<and>
     function_at st2 0 = Some fn \<and> job_total fn = 1"
proof -
  obtain st1 where run:
    "gearman_server_job_add False 0 example_worker_server ''f'' ''a'' ''x''
       GEARMAN_JOB_PRIORITY_NORMAL None = Some (Some 0, GEARMAN_SUCCESS, st1)"
    by (simp add: job_add_defs example_worker_server_def example_server_def example_evals)
  have u: "(''a'' \<noteq> [] \<and> ''a'' \<noteq> ''-'' \<and> length (c_str ''a'') < GEARMAN_UNIQUE_SIZE)
             \<or> (''a'' = ''-'' \<and> ''x'' \<noteq> [] \<and> ''y'' = ''x'')"
    by (simp add: c_str_def GEARMAN_UNIQUE_SIZE_def)
  have live: "case None :: nat option of None \<Rightarrow> True | Some c \<Rightarrow> client_heap st1 c \<noteq> None"
    by simp
  have get: "gearman_server_function_get example_worker_server ''f''
               = Some (Some 0, example_worker_server)"
    by (simp add: gearman_server_function_get_def example_worker_server_def example_server_def
        heap_at_def)
  have fn0: "function_at example_worker_server 0 =
      Some \<lparr>function_options = {GEARMAN_SERVER_FUNCTION_ALLOCATED}, job_count = 0,
                 job_total = 0, job_running = 0, max_queue_size = 0, function_name = ''f'',
                 worker_list = [0], job_list = (\<lambda>p. [])\<rparr>"
    by (simp add: function_at_def example_worker_server_def example_server_def heap_at_def)
  from job_add_duplicate_exists[OF run u live, of 0 GEARMAN_JOB_PRIORITY_HIGH] run get fn0
  show ?thesis by auto
qed

section \<open>The jobs and the priority lists\<close>

text \<open>
  What the lists of a state are made of: for a job its function, its priority and its
  worker; for a function its three lists; and the free list of the server.
\<close>

type_synonym job_core = "nat option \<times> gearman_job_priority_t \<times> nat option"

definition job_core :: "gearman_server_job_st \<Rightarrow> job_core" where
  "job_core job = (job_function job, job_priority job, job_worker job)"

definition cores_of :: "gearman_server_st \<Rightarrow> nat \<Rightarrow> job_core option" where
  "cores_of st j = map_option job_core (job_at st j)"

definition lists_of ::
  "gearman_server_st \<Rightarrow> nat \<Rightarrow> (gearman_job_priority_t \<Rightarrow> nat list) option" where
  "lists_of st f = map_option job_list (function_at st f)"


lemma cores_of_set_job:
  "j < length (job_heap st) \<Longrightarrow> cores_of (set_job j job st) = (cores_of st)(j \<mapsto> job_core job)"
  by (auto simp: cores_of_def set_job_def job_at_def heap_at_def fun_eq_iff)

lemma lists_of_set_job: "lists_of (set_job j job st) = lists_of st"
  by (auto simp: lists_of_def set_job_def function_at_def fun_eq_iff)

lemma free_list_set_job: "free_job_list (set_job j job st) = free_job_list st"
  by (simp add: set_job_def)

lemma lists_of_set_function:
  "f < length (function_heap st) \<Longrightarrow>
     lists_of (set_function f fn st) = (lists_of st)(f \<mapsto> job_list fn)"
  by (auto simp: lists_of_def set_function_def function_at_def heap_at_def fun_eq_iff)

lemma cores_of_set_function: "cores_of (set_function f fn st) = cores_of st"
  by (auto simp: cores_of_def set_function_def job_at_def fun_eq_iff)

lemma free_list_set_function: "free_job_list (set_function f fn st) = free_job_list st"
  by (simp add: set_function_def)

lemma lists_of_same:
  assumes "function_at st f = Some fn" and "job_list fn' = job_list fn"
  shows "lists_of (set_function f fn' st) = lists_of st"
proof -
  have "lists_of st f = Some (job_list fn')" using assms by (simp add: lists_of_def)
  then have "(lists_of st)(f \<mapsto> job_list fn') = lists_of st" by (rule map_upd_triv)
  with lists_of_set_function[OF function_at_SomeD[OF assms(1)], of fn'] show ?thesis by simp
qed

lemma cores_of_same:
  assumes "job_at st j = Some job" and "job_core job' = job_core job"
  shows "cores_of (set_job j job' st) = cores_of st"
proof -
  have "cores_of st j = Some (job_core job')" using assms by (simp add: cores_of_def)
  then have "(cores_of st)(j \<mapsto> job_core job') = cores_of st" by (rule map_upd_triv)
  with cores_of_set_job[OF job_at_SomeD[OF assms(1)], of job'] show ?thesis by simp
qed

lemma shape_heaps:
  "function_heap st' = function_heap st \<Longrightarrow> lists_of st' = lists_of st"
  "job_heap st' = job_heap st \<Longrightarrow> cores_of st' = cores_of st"
  by (auto simp: lists_of_def cores_of_def function_at_def job_at_def fun_eq_iff)

lemma shape_client_heap:
  "lists_of (st\<lparr>client_heap := ch\<rparr>) = lists_of st"
  "cores_of (st\<lparr>client_heap := ch\<rparr>) = cores_of st"
  by (simp_all add: lists_of_def cores_of_def function_at_def job_at_def fun_eq_iff)

lemma client_free_shape_conj:
  assumes "gearman_server_client_free st cl = Some st'"
  shows "lists_of st' = lists_of st \<and> cores_of st' = cores_of st \<and>
    free_job_list st' = free_job_list st"
proof -
  from assms obtain client where cl: "client_heap st cl = Some client"
    by (cases "client_heap st cl") (auto simp: gearman_server_client_free_def)
  show ?thesis
  proof (cases "client_job client")
    case None
    with assms cl have "st' = st\<lparr>client_heap := (client_heap st)(cl := None)\<rparr>"
      by (simp add: gearman_server_client_free_def)
    then show ?thesis
      by (simp add: shape_client_heap)
  next
    case (Some j)
    with assms cl obtain job where job: "job_at st j = Some job"
      by (cases "job_at st j") (auto simp: gearman_server_client_free_def)
    define job' where "job' = job\<lparr>job_client_list := remove1 cl (job_client_list job),
                            job_client_count := job_client_count job - 1,
                            job_options :=
                              (if job_worker job = None
                               then insert GEARMAN_SERVER_JOB_IGNORE (job_options job)
                               else job_options job)\<rparr>"
    have core: "job_core job' = job_core job" by (simp add: job'_def job_core_def)
    from assms cl Some job
    have st': "st' = (set_job j job' st)\<lparr>client_heap := (client_heap st)(cl := None)\<rparr>"
      by (simp add: gearman_server_client_free_def job'_def)
    have "lists_of st' = lists_of st"
      by (simp only: st' shape_client_heap lists_of_set_job)
    moreover have "cores_of st' = cores_of st"
      by (simp only: st' shape_client_heap cores_of_same[OF job core])
    moreover have "free_job_list st' = free_job_list st"
      by (simp add: st' set_job_def)
    ultimately show ?thesis by simp
  qed
qed

lemma client_free_shape:
  assumes "gearman_server_client_free st cl = Some st'"
  shows "lists_of st' = lists_of st" "cores_of st' = cores_of st"
    "free_job_list st' = free_job_list st"
  using client_free_shape_conj[OF assms] by simp_all

lemma free_clients_shape:
  "free_clients st cls = Some st' \<Longrightarrow>
     lists_of st' = lists_of st \<and> cores_of st' = cores_of st \<and>
     free_job_list st' = free_job_list st"
proof (induction cls arbitrary: st)
  case Nil
  then show ?case by simp
next
  case (Cons cl cls)
  then show ?case by (auto split: option.splits simp: client_free_shape)
qed

definition freed_function ::
  "gearman_server_job_st \<Rightarrow> gearman_server_function_st \<Rightarrow> gearman_server_function_st" where
  "freed_function job fn =
     (if job_worker job \<noteq> None then fn\<lparr>job_running := job_running fn - 1\<rparr> else fn)
       \<lparr>job_total := job_total fn - 1\<rparr>"

lemma job_free_heaps:
  assumes "gearman_server_job_free st j = Some st'"
  shows "\<exists>job f fn st2.
           job_at st j = Some job \<and> job_function job = Some f \<and> function_at st f = Some fn \<and>
           free_clients (set_function f (freed_function job fn) st) (job_client_list job)
             = Some st2 \<and>
           function_heap st' = function_heap st2 \<and>
           job_heap st' = (job_heap st2)[j := None] \<and>
           (free_job_list st' = free_job_list st2 \<or> free_job_list st' = j # free_job_list st2)"
  using assms
  by (auto simp: gearman_server_job_free_def Let_def freed_function_def
      split: Option.bind_splits option.splits if_splits)

lemma job_free_shape:
  assumes "gearman_server_job_free st j = Some st'"
  shows "lists_of st' = lists_of st" "cores_of st' = (cores_of st)(j := None)"
    "free_job_list st' = free_job_list st \<or> free_job_list st' = j # free_job_list st"
    "cores_of st j \<noteq> None"
proof -
  from job_free_heaps[OF assms] obtain job f fn st2 where
    j: "job_at st j = Some job" and fn: "function_at st f = Some fn"
    and fc: "free_clients (set_function f (freed_function job fn) st) (job_client_list job)
               = Some st2"
    and h: "function_heap st' = function_heap st2" "job_heap st' = (job_heap st2)[j := None]"
      "free_job_list st' = free_job_list st2 \<or> free_job_list st' = j # free_job_list st2"
    by blast
  have fn': "job_list (freed_function job fn) = job_list fn"
    by (simp add: freed_function_def)
  note s2 = free_clients_shape[OF fc]
  have l2: "lists_of st2 = lists_of st" using s2 by (simp add: lists_of_same[OF fn fn'])
  have c2: "cores_of st2 = cores_of st" using s2 by (simp add: cores_of_set_function)
  have f2: "free_job_list st2 = free_job_list st" using s2 by (simp add: free_list_set_function)
  show "lists_of st' = lists_of st"
    using l2 shape_heaps(1)[OF h(1)] by simp
  have "cores_of st' = (cores_of st2)(j := None)"
    by (auto simp: h(2) cores_of_def job_at_def heap_at_def fun_eq_iff)
  then show "cores_of st' = (cores_of st)(j := None)"
    using c2 by simp
  show "free_job_list st' = free_job_list st \<or> free_job_list st' = j # free_job_list st"
    using h(3) f2 by auto
  show "cores_of st j \<noteq> None" using j by (simp add: cores_of_def)
qed

section \<open>The order of dispatch, with the jobs that are marked IGNORE\<close>

lemma client_free_function_heap:
  "gearman_server_client_free st cl = Some st' \<Longrightarrow> function_heap st' = function_heap st"
  by (auto simp: gearman_server_client_free_def set_job_def split: option.splits)

lemma free_clients_function_heap:
  "free_clients st cls = Some st' \<Longrightarrow> function_heap st' = function_heap st"
proof (induction cls arbitrary: st)
  case Nil
  then show ?case by simp
next
  case (Cons cl cls)
  then show ?case by (auto split: option.splits dest: client_free_function_heap)
qed

lemma job_free_function:
  assumes fr: "gearman_server_job_free st j = Some st'"
    and j: "job_at st j = Some job" and f: "job_function job = Some f"
    and fn: "function_at st f = Some fn"
  shows "job_at st' j = None"
    and "function_at st' f = Some (freed_function job fn)"
proof -
  from job_free_heaps[OF fr] j f fn obtain st2 where
    fc: "free_clients (set_function f (freed_function job fn) st) (job_client_list job)
               = Some st2"
    and h: "function_heap st' = function_heap st2" "job_heap st' = (job_heap st2)[j := None]"
    by auto
  show "job_at st' j = None"
    by (simp add: job_at_def h(2) heap_at_def)
  have "function_heap st2 = (function_heap st)[f := Some (freed_function job fn)]"
    using free_clients_function_heap[OF fc] by (simp add: set_function_def)
  with h(1) function_at_SomeD[OF fn]
  show "function_at st' f = Some (freed_function job fn)"
    by (simp add: function_at_def heap_at_def)
qed

lemma take_ignored_head:
  assumes c: "con_heap st c = Some con"
    and tw: "take_worker st (con_worker_list con) = Some (Some w)"
    and wk: "worker_heap st w = Some worker"
    and fn: "function_at st (worker_function worker) = Some fn"
    and tp: "take_priority fn = Some p"
    and j: "job_at st (hd (job_list fn p)) = Some job"
    and jf: "job_function job = Some (worker_function worker)"
    and ig: "GEARMAN_SERVER_JOB_IGNORE \<in> job_options job"
  shows "\<exists>st1 job1.
           job_at st1 (hd (job_list fn p)) = Some job1 \<and> job_worker job1 = Some w \<and>
           gearman_server_job_take st c =
             (case gearman_server_job_free st1 (hd (job_list fn p)) of
                None \<Rightarrow> None
              | Some st2 \<Rightarrow> gearman_server_job_take st2 c) \<and>
           (\<forall>st2. gearman_server_job_free st1 (hd (job_list fn p)) = Some st2 \<longrightarrow>
              job_at st2 (hd (job_list fn p)) = None \<and>
              (\<exists>fn2. function_at st2 (worker_function worker) = Some fn2 \<and>
                 job_list fn2 = (job_list fn)(p := tl (job_list fn p)) \<and>
                 dispatch_order fn2 = tl (dispatch_order fn) \<and>
                 job_count fn2 = job_count fn - 1 \<and> job_total fn2 = job_total fn - 1 \<and>
                 job_running fn2 = job_running fn))"
proof -
  note pf = take_priority_first[OF tp]
  let ?j = "hd (job_list fn p)"
  let ?f = "worker_function worker"
  let ?fn' = "fn\<lparr>job_list := (job_list fn)(p := tl (job_list fn p)),
                 job_count := job_count fn - 1, job_running := job_running fn + 1\<rparr>"
  let ?st1 = "(set_job ?j (job\<lparr>job_worker := Some w\<rparr>) (set_function ?f ?fn' st))
         \<lparr>worker_heap := (worker_heap st)(w \<mapsto> worker\<lparr>worker_job := Some ?j\<rparr>)\<rparr>"
  note ta = take_assign_result[OF c tw wk fn tp j jf]
  have j1: "job_at ?st1 ?j = Some (job\<lparr>job_worker := Some w\<rparr>)"
    using job_at_SomeD[OF j] by (simp add: job_at_def set_job_def set_function_def heap_at_update)
  have f1: "function_at ?st1 ?f = Some ?fn'"
    using function_at_SomeD[OF fn]
    by (simp add: function_at_def set_job_def set_function_def heap_at_update)
  have tk: "gearman_server_job_take st c =
             (case gearman_server_job_free ?st1 ?j of
                None \<Rightarrow> None
              | Some st2 \<Rightarrow> gearman_server_job_take st2 c)"
    using ta j1 ig by (subst gearman_server_job_take.simps) simp
  have d: "dispatch_order ?fn' = tl (dispatch_order fn)"
    using pf(4) by (simp add: dispatch_order_def)
  have fr: "\<forall>st2. gearman_server_job_free ?st1 ?j = Some st2 \<longrightarrow>
              job_at st2 ?j = None \<and>
              (\<exists>fn2. function_at st2 ?f = Some fn2 \<and>
                 job_list fn2 = (job_list fn)(p := tl (job_list fn p)) \<and>
                 dispatch_order fn2 = tl (dispatch_order fn) \<and>
                 job_count fn2 = job_count fn - 1 \<and> job_total fn2 = job_total fn - 1 \<and>
                 job_running fn2 = job_running fn)"
  proof (intro allI impI)
    fix st2
    assume a: "gearman_server_job_free ?st1 ?j = Some st2"
    have jf1: "job_function (job\<lparr>job_worker := Some w\<rparr>) = Some ?f" using jf by simp
    note r = job_free_function[OF a j1 jf1 f1]
    have "dispatch_order (freed_function (job\<lparr>job_worker := Some w\<rparr>) ?fn') = dispatch_order ?fn'"
      by (simp add: freed_function_def dispatch_order_def)
    with r d show "job_at st2 ?j = None \<and>
              (\<exists>fn2. function_at st2 ?f = Some fn2 \<and>
                 job_list fn2 = (job_list fn)(p := tl (job_list fn p)) \<and>
                 dispatch_order fn2 = tl (dispatch_order fn) \<and>
                 job_count fn2 = job_count fn - 1 \<and> job_total fn2 = job_total fn - 1 \<and>
                 job_running fn2 = job_running fn)"
      by (simp add: freed_function_def)
  qed
  from j1 tk fr show ?thesis by (intro exI[of _ ?st1] exI[of _ "job\<lparr>job_worker := Some w\<rparr>"]) simp
qed

text \<open>
  Claim C7, amended. For a connection, \<open>gearman_server_job_take\<close> passes by the workers
  whose function has \<open>job_count == 0\<close>, stops at the first other one and scans its
  function's lists from HIGH to LOW; the first non-empty list is the one of \<open>p\<close>, and its
  head is unlinked and given to the worker. If the head is not marked IGNORE it is
  returned, so that the jobs of the function leave in the order HIGH, NORMAL, LOW and, in
  one priority, from the head. If the head is marked IGNORE it is freed instead (it is at
  no address any more, and \<open>job_count\<close> and \<open>job_total\<close> of the function are one less),
  and the result is that of \<open>gearman_server_job_take\<close> in the state without it.
  \<open>gearman_server_job_queue\<close> puts a job that is on no list at the end of the list of
  its priority.
\<close>

theorem job_take_dispatch_order:
  assumes c: "con_heap st c = Some con"
    and tw: "take_worker st (con_worker_list con) = Some (Some w)"
    and wk: "worker_heap st w = Some worker"
    and fn: "function_at st (worker_function worker) = Some fn"
    and tp: "take_priority fn = Some p"
    and j: "job_at st (hd (job_list fn p)) = Some job"
    and jf: "job_function job = Some (worker_function worker)"
  shows "((\<exists>pre post. con_worker_list con = pre @ w # post \<and>
               list_all (worker_idle st) pre \<and> job_count fn \<noteq> 0) \<and>
            job_list fn p \<noteq> [] \<and>
            (\<forall>q. priority_rank q < priority_rank p \<longrightarrow> job_list fn q = []) \<and>
            hd (dispatch_order fn) = hd (job_list fn p) \<and>
            (GEARMAN_SERVER_JOB_IGNORE \<notin> job_options job \<longrightarrow>
               (\<exists>st' fn' job'.
                  gearman_server_job_take st c = Some (Some (hd (job_list fn p)), st') \<and>
                  function_at st' (worker_function worker) = Some fn' \<and>
                  job_list fn' = (job_list fn)(p := tl (job_list fn p)) \<and>
                  dispatch_order fn' = tl (dispatch_order fn) \<and>
                  job_at st' (hd (job_list fn p)) = Some job' \<and> job_worker job' = Some w)) \<and>
            (\<forall>s i jb g gn s'.
               job_at s i = Some jb \<and> job_function jb = Some g \<and> function_at s g = Some gn \<and>
               gearman_server_job_queue s i = Some (GEARMAN_SUCCESS, s') \<longrightarrow>
               (\<exists>gn'. function_at s' g = Some gn' \<and>
                      job_list gn' = (job_list gn)(job_priority jb := job_list gn (job_priority jb) @ [i])))) \<and>
         (GEARMAN_SERVER_JOB_IGNORE \<in> job_options job \<longrightarrow>
            (\<exists>st1 job1.
               job_at st1 (hd (job_list fn p)) = Some job1 \<and> job_worker job1 = Some w \<and>
               gearman_server_job_take st c =
                 (case gearman_server_job_free st1 (hd (job_list fn p)) of
                    None \<Rightarrow> None
                  | Some st2 \<Rightarrow> gearman_server_job_take st2 c) \<and>
               (\<forall>st2. gearman_server_job_free st1 (hd (job_list fn p)) = Some st2 \<longrightarrow>
                  job_at st2 (hd (job_list fn p)) = None \<and>
                  (\<exists>fn2. function_at st2 (worker_function worker) = Some fn2 \<and>
                     job_list fn2 = (job_list fn)(p := tl (job_list fn p)) \<and>
                     dispatch_order fn2 = tl (dispatch_order fn) \<and>
                     job_count fn2 = job_count fn - 1 \<and> job_total fn2 = job_total fn - 1 \<and>
                     job_running fn2 = job_running fn))))"
proof (rule conjI)
  show "(\<exists>pre post. con_worker_list con = pre @ w # post \<and>
               list_all (worker_idle st) pre \<and> job_count fn \<noteq> 0) \<and>
            job_list fn p \<noteq> [] \<and>
            (\<forall>q. priority_rank q < priority_rank p \<longrightarrow> job_list fn q = []) \<and>
            hd (dispatch_order fn) = hd (job_list fn p) \<and>
            (GEARMAN_SERVER_JOB_IGNORE \<notin> job_options job \<longrightarrow>
               (\<exists>st' fn' job'.
                  gearman_server_job_take st c = Some (Some (hd (job_list fn p)), st') \<and>
                  function_at st' (worker_function worker) = Some fn' \<and>
                  job_list fn' = (job_list fn)(p := tl (job_list fn p)) \<and>
                  dispatch_order fn' = tl (dispatch_order fn) \<and>
                  job_at st' (hd (job_list fn p)) = Some job' \<and> job_worker job' = Some w)) \<and>
            (\<forall>s i jb g gn s'.
               job_at s i = Some jb \<and> job_function jb = Some g \<and> function_at s g = Some gn \<and>
               gearman_server_job_queue s i = Some (GEARMAN_SUCCESS, s') \<longrightarrow>
               (\<exists>gn'. function_at s' g = Some gn' \<and>
                      job_list gn' = (job_list gn)(job_priority jb := job_list gn (job_priority jb) @ [i])))"
    by (rule take_head_steps[OF c tw wk fn tp j jf])
next
  show "GEARMAN_SERVER_JOB_IGNORE \<in> job_options job \<longrightarrow>
            (\<exists>st1 job1.
               job_at st1 (hd (job_list fn p)) = Some job1 \<and> job_worker job1 = Some w \<and>
               gearman_server_job_take st c =
                 (case gearman_server_job_free st1 (hd (job_list fn p)) of
                    None \<Rightarrow> None
                  | Some st2 \<Rightarrow> gearman_server_job_take st2 c) \<and>
               (\<forall>st2. gearman_server_job_free st1 (hd (job_list fn p)) = Some st2 \<longrightarrow>
                  job_at st2 (hd (job_list fn p)) = None \<and>
                  (\<exists>fn2. function_at st2 (worker_function worker) = Some fn2 \<and>
                     job_list fn2 = (job_list fn)(p := tl (job_list fn p)) \<and>
                     dispatch_order fn2 = tl (dispatch_order fn) \<and>
                     job_count fn2 = job_count fn - 1 \<and> job_total fn2 = job_total fn - 1 \<and>
                     job_running fn2 = job_running fn)))"
    by (rule impI) (rule take_ignored_head[OF c tw wk fn tp j jf])
qed

definition example_ignored_head :: gearman_server_st where
  "example_ignored_head =
     (case do {
             (a, r1, s1) \<leftarrow> gearman_server_job_add False 0 example_client_server ''f'' ''a'' ''x''
                              GEARMAN_JOB_PRIORITY_NORMAL (Some 0);
             s2 \<leftarrow> gearman_server_client_free s1 0;
             (b, r2, s3) \<leftarrow> gearman_server_job_add False 0 s2 ''f'' ''b'' ''y''
                              GEARMAN_JOB_PRIORITY_NORMAL None;
             Some s3
           } of
        Some s \<Rightarrow> s
      | None \<Rightarrow> example_client_server)"

lemmas example_ignored_defs =
  example_ignored_head_def example_client_server_def example_worker_server_def
  example_server_def example_evals gearman_server_client_free_def

lemma example_ignored_head_facts:
  "con_heap example_ignored_head 0 =
     Some \<lparr>con_options = {}, noop_queued = False, con_worker_list = [0], io_packet_list = []\<rparr> \<and>
   worker_heap example_ignored_head 0 =
     Some \<lparr>worker_con = 0, worker_function = 0, worker_job = None\<rparr> \<and>
   (\<exists>fn. function_at example_ignored_head 0 = Some fn \<and> job_count fn = 2 \<and>
      job_list fn GEARMAN_JOB_PRIORITY_HIGH = [] \<and>
      job_list fn GEARMAN_JOB_PRIORITY_NORMAL = [0, 1] \<and>
      job_list fn GEARMAN_JOB_PRIORITY_LOW = []) \<and>
   (\<exists>job. job_at example_ignored_head 0 = Some job \<and> job_function job = Some 0 \<and>
      GEARMAN_SERVER_JOB_IGNORE \<in> job_options job)"
  by (simp add: example_ignored_defs job_add_defs)


lemma example_ignored_take:
  "map_option fst (gearman_server_job_take example_ignored_head 0) = Some (Some 1)"
  by (simp add: example_ignored_defs job_add_defs take_defs gearman_server_job_free_def)

theorem job_take_dispatch_order_witness:
  "(\<exists>st' fn'. gearman_server_job_take example_three_jobs 0 = Some (Some 2, st') \<and>
      function_at st' 0 = Some fn' \<and> dispatch_order fn' = [1, 0]) \<and>
   do {
     (t1, s4) \<leftarrow> gearman_server_job_take example_three_jobs 0;
     (t2, s5) \<leftarrow> gearman_server_job_take s4 0;
     (t3, s6) \<leftarrow> gearman_server_job_take s5 0;
     (t4, s7) \<leftarrow> gearman_server_job_take s6 0;
     Some (t1, t2, t3, t4)
   } = Some (Some 2, Some 1, Some 0, None) \<and>
   (\<exists>st1 st2 fn2.
      gearman_server_job_free st1 0 = Some st2 \<and> job_at st2 0 = None \<and>
      function_at st2 0 = Some fn2 \<and> dispatch_order fn2 = [1] \<and>
      gearman_server_job_take example_ignored_head 0 = gearman_server_job_take st2 0 \<and>
      map_option fst (gearman_server_job_take st2 0) = Some (Some 1))"
proof (intro conjI)
  let ?S = example_three_jobs
  from example_three_jobs_facts obtain con worker fn job where
    c: "con_heap ?S 0 = Some con" and cw: "con_worker_list con = [0]"
    and wk: "worker_heap ?S 0 = Some worker" and wf: "worker_function worker = 0"
    and fn0: "function_at ?S 0 = Some fn" and jc: "job_count fn = 3"
    and lh: "job_list fn GEARMAN_JOB_PRIORITY_HIGH = [2]"
    and ln: "job_list fn GEARMAN_JOB_PRIORITY_NORMAL = [1]"
    and ll: "job_list fn GEARMAN_JOB_PRIORITY_LOW = [0]"
    and j0: "job_at ?S 2 = Some job" and jf0: "job_function job = Some 0"
    and ni: "GEARMAN_SERVER_JOB_IGNORE \<notin> job_options job"
    by auto
  have tw: "take_worker ?S (con_worker_list con) = Some (Some 0)"
    by (simp add: cw wk wf fn0 jc)
  have fn: "function_at ?S (worker_function worker) = Some fn" by (simp add: wf fn0)
  have tp: "take_priority fn = Some GEARMAN_JOB_PRIORITY_HIGH"
    by (simp add: take_priority_def lh)
  have j: "job_at ?S (hd (job_list fn GEARMAN_JOB_PRIORITY_HIGH)) = Some job"
    by (simp add: lh j0)
  have jf: "job_function job = Some (worker_function worker)" by (simp add: wf jf0)
  from job_take_dispatch_order[OF c tw wk fn tp j jf] ni lh ln ll wf
  show "\<exists>st' fn'. gearman_server_job_take ?S 0 = Some (Some 2, st') \<and>
      function_at st' 0 = Some fn' \<and> dispatch_order fn' = [1, 0]"
    by (auto simp: dispatch_order_def)
next
  show "do {
     (t1, s4) \<leftarrow> gearman_server_job_take example_three_jobs 0;
     (t2, s5) \<leftarrow> gearman_server_job_take s4 0;
     (t3, s6) \<leftarrow> gearman_server_job_take s5 0;
     (t4, s7) \<leftarrow> gearman_server_job_take s6 0;
     Some (t1, t2, t3, t4)
   } = Some (Some 2, Some 1, Some 0, None)"
    by (simp add: example_three_defs job_add_defs take_defs)
next
  let ?S = example_ignored_head
  from example_ignored_head_facts obtain con worker fn job where
    c: "con_heap ?S 0 = Some con" and cw: "con_worker_list con = [0]"
    and wk: "worker_heap ?S 0 = Some worker" and wf: "worker_function worker = 0"
    and fn0: "function_at ?S 0 = Some fn" and jc: "job_count fn = 2"
    and lh: "job_list fn GEARMAN_JOB_PRIORITY_HIGH = []"
    and ln: "job_list fn GEARMAN_JOB_PRIORITY_NORMAL = [0, 1]"
    and ll: "job_list fn GEARMAN_JOB_PRIORITY_LOW = []"
    and j0: "job_at ?S 0 = Some job" and jf0: "job_function job = Some 0"
    and ig: "GEARMAN_SERVER_JOB_IGNORE \<in> job_options job"
    by auto
  have tw: "take_worker ?S (con_worker_list con) = Some (Some 0)"
    by (simp add: cw wk wf fn0 jc)
  have fn: "function_at ?S (worker_function worker) = Some fn" by (simp add: wf fn0)
  have tp: "take_priority fn = Some GEARMAN_JOB_PRIORITY_NORMAL"
    by (simp add: take_priority_def lh ln)
  have j: "job_at ?S (hd (job_list fn GEARMAN_JOB_PRIORITY_NORMAL)) = Some job"
    by (simp add: ln j0)
  have jf: "job_function job = Some (worker_function worker)" by (simp add: wf jf0)
  note ev = example_ignored_take
  note th = mp[OF conjunct2[OF job_take_dispatch_order[OF c tw wk fn tp j jf]] ig]
  from th obtain st1 where
    tk0: "gearman_server_job_take ?S 0 =
           (case gearman_server_job_free st1 (hd (job_list fn GEARMAN_JOB_PRIORITY_NORMAL)) of
              None \<Rightarrow> None
            | Some st2 \<Rightarrow> gearman_server_job_take st2 0)"
    and fr0: "\<forall>st2. gearman_server_job_free st1 (hd (job_list fn GEARMAN_JOB_PRIORITY_NORMAL))
                    = Some st2 \<longrightarrow>
              job_at st2 (hd (job_list fn GEARMAN_JOB_PRIORITY_NORMAL)) = None \<and>
              (\<exists>fn2. function_at st2 (worker_function worker) = Some fn2 \<and>
                 job_list fn2 = (job_list fn)
                   (GEARMAN_JOB_PRIORITY_NORMAL := tl (job_list fn GEARMAN_JOB_PRIORITY_NORMAL)) \<and>
                 dispatch_order fn2 = tl (dispatch_order fn) \<and>
                 job_count fn2 = job_count fn - 1 \<and> job_total fn2 = job_total fn - 1 \<and>
                 job_running fn2 = job_running fn)"
    by blast
  have tk: "gearman_server_job_take ?S 0 =
           (case gearman_server_job_free st1 0 of
              None \<Rightarrow> None
            | Some st2 \<Rightarrow> gearman_server_job_take st2 0)"
    using tk0 by (simp add: ln)
  have fr: "\<forall>st2. gearman_server_job_free st1 0 = Some st2 \<longrightarrow>
              job_at st2 0 = None \<and>
              (\<exists>fn2. function_at st2 0 = Some fn2 \<and>
                 dispatch_order fn2 = tl (dispatch_order fn))"
    using fr0 by (simp add: ln wf) blast
  from tk ev obtain st2 where f2: "gearman_server_job_free st1 0 = Some st2"
    and t2: "gearman_server_job_take ?S 0 = gearman_server_job_take st2 0"
    by (cases "gearman_server_job_free st1 0") auto
  from fr f2 obtain fn2 where "job_at st2 0 = None" "function_at st2 0 = Some fn2"
    "dispatch_order fn2 = tl (dispatch_order fn)" by blast
  moreover have "tl (dispatch_order fn) = [1]" by (simp add: dispatch_order_def lh ln ll)
  ultimately show "\<exists>st1 st2 fn2.
      gearman_server_job_free st1 0 = Some st2 \<and> job_at st2 0 = None \<and>
      function_at st2 0 = Some fn2 \<and> dispatch_order fn2 = [1] \<and>
      gearman_server_job_take ?S 0 = gearman_server_job_take st2 0 \<and>
      map_option fst (gearman_server_job_take st2 0) = Some (Some 1)"
    using f2 t2 ev by auto
qed

section \<open>What the queue answers\<close>

lemma job_add_persist_code:
  assumes "job_add_persist st j fname usize dat prio cl = Some (ret, st')"
    and "job_at st j = Some job"
  shows "ret =
     (if GEARMAN_SERVER_QUEUE_REPLAY \<in> server_options st \<or> cl \<noteq> None then GEARMAN_SUCCESS
      else
        (case queue_add_fn (gearman st) of
           None \<Rightarrow> GEARMAN_SUCCESS
         | Some add \<Rightarrow>
             (if add (queue_calls st) (QUEUE_ADD (job_unique job) usize fname dat prio)
                   \<noteq> GEARMAN_SUCCESS
              then add (queue_calls st) (QUEUE_ADD (job_unique job) usize fname dat prio)
              else
                (case queue_flush_fn (gearman st) of
                   None \<Rightarrow> GEARMAN_SUCCESS
                 | Some flush \<Rightarrow>
                     flush (queue_calls st @ [QUEUE_ADD (job_unique job) usize fname dat prio])
                       QUEUE_FLUSH))))"
  using assms
  by (auto simp: job_add_persist_def Let_def split: option.splits if_splits)

lemma job_add_persist_total:
  assumes "job_at st j = Some job"
  shows "\<exists>ret st'. job_add_persist st j fname usize dat prio cl = Some (ret, st')"
  using assms
  by (auto simp: job_add_persist_def Let_def split: option.splits if_splits)

lemma job_add_fill_total:
  assumes "job_at st j = Some job" and "function_at st f = Some fn"
  shows "\<exists>st'. job_add_fill sg key0 st f key uniq dat prio j = Some st'"
  using assms by (simp add: job_add_fill_def Let_def)

lemma job_add_filled_state:
  assumes fg: "gearman_server_function_get st fname = Some (Some f, st0)"
    and fn: "function_at st0 f = Some fn"
    and cr: "gearman_server_job_create st0 = Some (Some j, st1)"
  shows "\<exists>st2 job2.
           job_add_fill sg key0 st1 f key uniq dat prio j = Some st2 \<and>
           job_at st2 j = Some job2 \<and> job_unique job2 = snprintf_unique uniq \<and>
           gearman st2 = gearman st \<and> server_options st2 = server_options st \<and>
           queue_calls st2 = queue_calls st"
proof -
  note c = job_create_result[OF cr]
  have f1: "function_at st1 f = Some fn"
    using fn arg_cong[OF c(2), of function_heap] by (simp add: function_at_def)
  from job_add_fill_total[OF c(1) f1] obtain st2 where
    fl: "job_add_fill sg key0 st1 f key uniq dat prio j = Some st2" by blast
  note r = job_add_fill_result[OF cr fl fn]
  note ff = function_get_frame[OF fg]
  have "gearman st2 = gearman st0" "server_options st2 = server_options st0"
    "queue_calls st2 = queue_calls st0"
    using arg_cong[OF r(7), of gearman] arg_cong[OF r(7), of server_options]
      arg_cong[OF r(7), of queue_calls] by simp_all
  moreover have "gearman st0 = gearman st" "server_options st0 = server_options st"
    "queue_calls st0 = queue_calls st"
    using arg_cong[OF ff, of gearman] arg_cong[OF ff, of server_options]
      arg_cong[OF ff, of queue_calls] by simp_all
  moreover have "job_unique ((filled_job sg key0 st0 f key uniq dat prio)
            \<lparr>job_options := {GEARMAN_SERVER_JOB_ALLOCATED}\<rparr>) = snprintf_unique uniq"
    by (simp add: filled_job_def zero_job_def)
  ultimately show ?thesis using fl r(1) by simp
qed


text \<open>
  The answer of the persistent queue to a call of \<open>add\<close>, as the two callbacks give it:
  the code of \<open>add\<close>, and after a successful \<open>add\<close> the code of \<open>flush\<close>;
  \<open>GEARMAN_SUCCESS\<close> where a callback is not installed.
\<close>

definition queue_answer :: "gearman_server_st \<Rightarrow> queue_call \<Rightarrow> gearman_return_t" where
  "queue_answer st call =
     (case queue_add_fn (gearman st) of
        None \<Rightarrow> GEARMAN_SUCCESS
      | Some add \<Rightarrow>
          (if add (queue_calls st) call \<noteq> GEARMAN_SUCCESS then add (queue_calls st) call
           else
             (case queue_flush_fn (gearman st) of
                None \<Rightarrow> GEARMAN_SUCCESS
              | Some flush \<Rightarrow> flush (queue_calls st @ [call]) QUEUE_FLUSH)))"

lemma job_add_persisted:
  assumes fg: "gearman_server_function_get st fname = Some (Some f, st0)"
    and fn: "function_at st0 f = Some fn"
    and cr: "gearman_server_job_create st0 = Some (Some j, st1)"
  shows "\<exists>st2 st3.
           job_add_fill sg key0 st1 f key uniq dat prio j = Some st2 \<and>
           job_add_persist st2 j fname (length uniq) dat prio cl =
             Some (if GEARMAN_SERVER_QUEUE_REPLAY \<in> server_options st \<or> cl \<noteq> None
                   then GEARMAN_SUCCESS
                   else queue_answer st
                          (QUEUE_ADD (snprintf_unique uniq) (length uniq) fname dat prio),
                   st3)"
proof -
  from job_add_filled_state[OF fg fn cr, of sg key0 key uniq dat prio] obtain st2 job2 where
    fl: "job_add_fill sg key0 st1 f key uniq dat prio j = Some st2"
    and j2: "job_at st2 j = Some job2" and u2: "job_unique job2 = snprintf_unique uniq"
    and s2: "gearman st2 = gearman st" "server_options st2 = server_options st"
      "queue_calls st2 = queue_calls st"
    by blast
  from job_add_persist_total[OF j2] obtain ret st3 where
    ps: "job_add_persist st2 j fname (length uniq) dat prio cl = Some (ret, st3)" by blast
  from job_add_persist_code[OF ps j2, unfolded s2 u2]
  have "ret = (if GEARMAN_SERVER_QUEUE_REPLAY \<in> server_options st \<or> cl \<noteq> None
                   then GEARMAN_SUCCESS
                   else queue_answer st
                          (QUEUE_ADD (snprintf_unique uniq) (length uniq) fname dat prio))"
    by (simp add: queue_answer_def)
  with fl ps show ?thesis by blast
qed

lemma job_add_answer_failed:
  assumes fg: "gearman_server_function_get st fname = Some (Some f, st0)"
    and lk: "job_add_lookup sg st0 f uniq dat = Some (key, None)"
    and fn: "function_at st0 f = Some fn" and nf: "\<not> queue_full fn"
    and cr: "gearman_server_job_create st0 = Some (Some j, st1)"
    and cl: "cl = None" and nr: "GEARMAN_SERVER_QUEUE_REPLAY \<notin> server_options st"
    and e: "queue_answer st (QUEUE_ADD (snprintf_unique uniq) (length uniq) fname dat prio) = e"
      "e \<noteq> GEARMAN_SUCCESS"
  shows "\<exists>st'. gearman_server_job_add sg key0 st fname uniq dat prio cl = Some (None, e, st') \<and>
           job_at st' j = None \<and> unique_hash st' = unique_hash st \<and>
           job_hash st' = job_hash st \<and> function_at st' f = Some fn"
proof -
  from job_add_persisted[OF fg fn cr, of sg key0 key uniq dat prio cl] cl nr e(1)
  obtain st2 st3 where
    fl: "job_add_fill sg key0 st1 f key uniq dat prio j = Some st2"
    and ps: "job_add_persist st2 j fname (length uniq) dat prio cl = Some (e, st3)"
    by auto
  from conjunct1[OF job_add_rollback_steps[OF fg lk fn nf cr fl ps]] e(2)
  show ?thesis by blast
qed


text \<open>
  Claim C5. Let \<open>gearman_server_job_add\<close> create a new job: the function is there, there
  is no duplicate, the queue of the function is not full and the structure is allocated.
  If the queue's \<open>add\<close> is called (no client, no replay) and returns a code other than
  \<open>GEARMAN_SUCCESS\<close>, or if \<open>add\<close> succeeds and \<open>flush\<close> returns such a code, then
  \<open>gearman_server_job_add\<close> returns \<open>NULL\<close> with that code, the job is in no hash table
  and at no address any more, and the function is as it was (so is its \<open>job_total\<close>).
  If the persistence step passes and \<open>gearman_server_job_queue\<close> then fails, the same
  holds with its code, and the queue's \<open>done\<close> is called once when the job has no client
  and the callback is installed.
\<close>

theorem job_add_failed_rollback:
  assumes fg: "gearman_server_function_get st fname = Some (Some f, st0)"
    and lk: "job_add_lookup sg st0 f uniq dat = Some (key, None)"
    and fn: "function_at st0 f = Some fn" and nf: "\<not> queue_full fn"
    and cr: "gearman_server_job_create st0 = Some (Some j, st1)"
  shows "(\<forall>add e. cl = None \<and> GEARMAN_SERVER_QUEUE_REPLAY \<notin> server_options st \<and>
            queue_add_fn (gearman st) = Some add \<and>
            add (queue_calls st) (QUEUE_ADD (snprintf_unique uniq) (length uniq) fname dat prio) = e \<and>
            e \<noteq> GEARMAN_SUCCESS \<longrightarrow>
              (\<exists>st'. gearman_server_job_add sg key0 st fname uniq dat prio cl = Some (None, e, st') \<and>
                 job_at st' j = None \<and> unique_hash st' = unique_hash st \<and>
                 job_hash st' = job_hash st \<and> function_at st' f = Some fn)) \<and>
         (\<forall>add flush e. cl = None \<and> GEARMAN_SERVER_QUEUE_REPLAY \<notin> server_options st \<and>
            queue_add_fn (gearman st) = Some add \<and>
            add (queue_calls st) (QUEUE_ADD (snprintf_unique uniq) (length uniq) fname dat prio) = GEARMAN_SUCCESS \<and>
            queue_flush_fn (gearman st) = Some flush \<and>
            flush (queue_calls st @ [QUEUE_ADD (snprintf_unique uniq) (length uniq) fname dat prio]) QUEUE_FLUSH = e \<and>
            e \<noteq> GEARMAN_SUCCESS \<longrightarrow>
              (\<exists>st'. gearman_server_job_add sg key0 st fname uniq dat prio cl = Some (None, e, st') \<and>
                 job_at st' j = None \<and> unique_hash st' = unique_hash st \<and>
                 job_hash st' = job_hash st \<and> function_at st' f = Some fn)) \<and>
         ((cl \<noteq> None \<or> GEARMAN_SERVER_QUEUE_REPLAY \<in> server_options st \<or>
           queue_add_fn (gearman st) = None \<or>
           (\<exists>add. queue_add_fn (gearman st) = Some add \<and>
              add (queue_calls st) (QUEUE_ADD (snprintf_unique uniq) (length uniq) fname dat prio) = GEARMAN_SUCCESS \<and>
              (queue_flush_fn (gearman st) = None \<or>
               (\<exists>flush. queue_flush_fn (gearman st) = Some flush \<and>
                  flush (queue_calls st @ [QUEUE_ADD (snprintf_unique uniq) (length uniq) fname dat prio]) QUEUE_FLUSH = GEARMAN_SUCCESS)))) \<longrightarrow>
            (\<exists>st2 st3.
              job_add_fill sg key0 st1 f key uniq dat prio j = Some st2 \<and>
              job_add_persist st2 j fname (length uniq) dat prio cl = Some (GEARMAN_SUCCESS, st3) \<and>
              (\<forall>e st4. gearman_server_job_queue st3 j = Some (e, st4) \<and> e \<noteq> GEARMAN_SUCCESS \<longrightarrow>
                 (\<exists>st'. gearman_server_job_add sg key0 st fname uniq dat prio cl
                           = Some (None, e, st') \<and>
                    job_at st' j = None \<and> unique_hash st' = unique_hash st \<and>
                    job_hash st' = job_hash st \<and> function_at st' f = Some fn \<and>
                    queue_calls st' = queue_calls st3 @
                      (if cl = None \<and> queue_done_fn (gearman st) \<noteq> None
                       then [QUEUE_DONE (snprintf_unique uniq) (length uniq) fname] else [])))))"
proof (intro conjI allI impI)
  fix add e
  assume a: "cl = None \<and> GEARMAN_SERVER_QUEUE_REPLAY \<notin> server_options st \<and>
            queue_add_fn (gearman st) = Some add \<and>
            add (queue_calls st) (QUEUE_ADD (snprintf_unique uniq) (length uniq) fname dat prio) = e \<and>
            e \<noteq> GEARMAN_SUCCESS"
  then have "queue_answer st (QUEUE_ADD (snprintf_unique uniq) (length uniq) fname dat prio) = e"
    by (auto simp: queue_answer_def)
  from job_add_answer_failed[OF fg lk fn nf cr _ _ this] a
  show "(\<exists>st'. gearman_server_job_add sg key0 st fname uniq dat prio cl = Some (None, e, st') \<and>
                 job_at st' j = None \<and> unique_hash st' = unique_hash st \<and>
                 job_hash st' = job_hash st \<and> function_at st' f = Some fn)"
    by blast
next
  fix add flush e
  assume a: "cl = None \<and> GEARMAN_SERVER_QUEUE_REPLAY \<notin> server_options st \<and>
            queue_add_fn (gearman st) = Some add \<and>
            add (queue_calls st) (QUEUE_ADD (snprintf_unique uniq) (length uniq) fname dat prio) = GEARMAN_SUCCESS \<and>
            queue_flush_fn (gearman st) = Some flush \<and>
            flush (queue_calls st @ [QUEUE_ADD (snprintf_unique uniq) (length uniq) fname dat prio]) QUEUE_FLUSH = e \<and>
            e \<noteq> GEARMAN_SUCCESS"
  then have "queue_answer st (QUEUE_ADD (snprintf_unique uniq) (length uniq) fname dat prio) = e"
    by (auto simp: queue_answer_def)
  from job_add_answer_failed[OF fg lk fn nf cr _ _ this] a
  show "(\<exists>st'. gearman_server_job_add sg key0 st fname uniq dat prio cl = Some (None, e, st') \<and>
                 job_at st' j = None \<and> unique_hash st' = unique_hash st \<and>
                 job_hash st' = job_hash st \<and> function_at st' f = Some fn)"
    by blast
next
  assume p: "(cl \<noteq> None \<or> GEARMAN_SERVER_QUEUE_REPLAY \<in> server_options st \<or>
           queue_add_fn (gearman st) = None \<or>
           (\<exists>add. queue_add_fn (gearman st) = Some add \<and>
              add (queue_calls st) (QUEUE_ADD (snprintf_unique uniq) (length uniq) fname dat prio) = GEARMAN_SUCCESS \<and>
              (queue_flush_fn (gearman st) = None \<or>
               (\<exists>flush. queue_flush_fn (gearman st) = Some flush \<and>
                  flush (queue_calls st @ [QUEUE_ADD (snprintf_unique uniq) (length uniq) fname dat prio]) QUEUE_FLUSH = GEARMAN_SUCCESS))))"
  then have ok: "(if GEARMAN_SERVER_QUEUE_REPLAY \<in> server_options st \<or> cl \<noteq> None
                   then GEARMAN_SUCCESS
                   else queue_answer st (QUEUE_ADD (snprintf_unique uniq) (length uniq) fname dat prio)) = GEARMAN_SUCCESS"
    by (auto simp: queue_answer_def)
  from job_add_persisted[OF fg fn cr, of sg key0 key uniq dat prio cl]
  obtain st2 st3 where
    fl: "job_add_fill sg key0 st1 f key uniq dat prio j = Some st2"
    and ps: "job_add_persist st2 j fname (length uniq) dat prio cl = Some (GEARMAN_SUCCESS, st3)"
    unfolding ok by blast
  from conjunct2[OF job_add_rollback_steps[OF fg lk fn nf cr fl ps]]
  have "\<forall>e st4. gearman_server_job_queue st3 j = Some (e, st4) \<and> e \<noteq> GEARMAN_SUCCESS \<longrightarrow>
                 (\<exists>st'. gearman_server_job_add sg key0 st fname uniq dat prio cl
                           = Some (None, e, st') \<and>
                    job_at st' j = None \<and> unique_hash st' = unique_hash st \<and>
                    job_hash st' = job_hash st \<and> function_at st' f = Some fn \<and>
                    queue_calls st' = queue_calls st3 @
                      (if cl = None \<and> queue_done_fn (gearman st) \<noteq> None
                       then [QUEUE_DONE (snprintf_unique uniq) (length uniq) fname] else []))"
    by simp
  with fl ps show "(\<exists>st2 st3.
              job_add_fill sg key0 st1 f key uniq dat prio j = Some st2 \<and>
              job_add_persist st2 j fname (length uniq) dat prio cl = Some (GEARMAN_SUCCESS, st3) \<and>
              (\<forall>e st4. gearman_server_job_queue st3 j = Some (e, st4) \<and> e \<noteq> GEARMAN_SUCCESS \<longrightarrow>
                 (\<exists>st'. gearman_server_job_add sg key0 st fname uniq dat prio cl
                           = Some (None, e, st') \<and>
                    job_at st' j = None \<and> unique_hash st' = unique_hash st \<and>
                    job_hash st' = job_hash st \<and> function_at st' f = Some fn \<and>
                    queue_calls st' = queue_calls st3 @
                      (if cl = None \<and> queue_done_fn (gearman st) \<noteq> None
                       then [QUEUE_DONE (snprintf_unique uniq) (length uniq) fname] else []))))"
    by blast
qed


text \<open>A server whose queue accepts every \<open>add\<close> and refuses every \<open>flush\<close>.\<close>

definition example_flush_refusing_fn :: queue_fn where
  "example_flush_refusing_fn calls call = GEARMAN_ERRNO"

definition example_flush_refusing_server :: gearman_server_st where
  "example_flush_refusing_server =
     example_worker_server
       \<lparr>gearman := \<lparr>queue_add_fn = Some example_queue_fn,
                    queue_flush_fn = Some example_flush_refusing_fn,
                    queue_done_fn = Some example_queue_fn\<rparr>\<rparr>"

lemmas example_flush_defs =
  example_flush_refusing_server_def example_flush_refusing_fn_def example_queue_defs

theorem job_add_failed_rollback_witness:
  "(\<exists>st'. gearman_server_job_add False 0 example_refusing_server ''f'' ''a'' ''x''
            GEARMAN_JOB_PRIORITY_NORMAL None = Some (None, GEARMAN_QUEUE_ERROR, st') \<and>
          job_at st' 0 = None \<and> unique_hash st' = unique_hash example_refusing_server \<and>
          job_hash st' = job_hash example_refusing_server \<and>
          function_at st' 0 = function_at example_refusing_server 0) \<and>
   (\<exists>st'. gearman_server_job_add False 0 example_flush_refusing_server ''f'' ''a'' ''x''
            GEARMAN_JOB_PRIORITY_NORMAL None = Some (None, GEARMAN_ERRNO, st') \<and>
          job_at st' 0 = None \<and> unique_hash st' = unique_hash example_flush_refusing_server \<and>
          job_hash st' = job_hash example_flush_refusing_server \<and>
          function_at st' 0 = function_at example_flush_refusing_server 0) \<and>
   (\<exists>st'. gearman_server_job_add False 0 example_no_packet_server ''f'' ''a'' ''x''
            GEARMAN_JOB_PRIORITY_NORMAL None
              = Some (None, GEARMAN_MEMORY_ALLOCATION_FAILURE, st') \<and>
          job_at st' 0 = None \<and> unique_hash st' = unique_hash example_no_packet_server \<and>
          job_hash st' = job_hash example_no_packet_server \<and>
          function_at st' 0 = function_at example_no_packet_server 0 \<and>
          queue_calls st' =
            [QUEUE_ADD ''a'' 1 ''f'' ''x'' GEARMAN_JOB_PRIORITY_NORMAL, QUEUE_FLUSH,
             QUEUE_DONE ''a'' 1 ''f''])"
proof (intro conjI)
  let ?S = example_refusing_server
  let ?k = "Some (server_job_hash False ''a'')"
  have fg: "gearman_server_function_get ?S ''f'' = Some (Some 0, ?S)"
    by (simp add: example_queue_defs job_add_defs)
  have lk: "job_add_lookup False ?S 0 ''a'' ''x'' = Some (?k, None)"
    by (simp add: example_queue_defs job_add_defs example_evals)
  obtain fn where fn: "function_at ?S 0 = Some fn" and nf: "\<not> queue_full fn"
    by (simp add: example_queue_defs job_add_defs queue_full_def)
  define st1 where "st1 = (case gearman_server_job_create ?S of Some (r, s) \<Rightarrow> s | None \<Rightarrow> ?S)"
  have cr: "gearman_server_job_create ?S = Some (Some 0, st1)"
    by (simp add: st1_def example_queue_defs job_add_defs)
  have a: "(None :: nat option) = None \<and> GEARMAN_SERVER_QUEUE_REPLAY \<notin> server_options ?S \<and>
        queue_add_fn (gearman ?S) = Some example_refusing_fn \<and>
        example_refusing_fn (queue_calls ?S)
          (QUEUE_ADD (snprintf_unique ''a'') (length ''a'') ''f'' ''x'' GEARMAN_JOB_PRIORITY_NORMAL)
            = GEARMAN_QUEUE_ERROR \<and>
        GEARMAN_QUEUE_ERROR \<noteq> GEARMAN_SUCCESS"
    by (simp add: example_queue_defs)
  note th = conjunct1[OF job_add_failed_rollback[OF fg lk fn nf cr,
        where cl = None and prio = GEARMAN_JOB_PRIORITY_NORMAL, of 0]]
  from th[rule_format, OF a] fn
  show "\<exists>st'. gearman_server_job_add False 0 ?S ''f'' ''a'' ''x''
            GEARMAN_JOB_PRIORITY_NORMAL None = Some (None, GEARMAN_QUEUE_ERROR, st') \<and>
          job_at st' 0 = None \<and> unique_hash st' = unique_hash ?S \<and>
          job_hash st' = job_hash ?S \<and> function_at st' 0 = function_at ?S 0"
    by auto
next
  let ?S = example_flush_refusing_server
  let ?k = "Some (server_job_hash False ''a'')"
  have fg: "gearman_server_function_get ?S ''f'' = Some (Some 0, ?S)"
    by (simp add: example_flush_defs job_add_defs)
  have lk: "job_add_lookup False ?S 0 ''a'' ''x'' = Some (?k, None)"
    by (simp add: example_flush_defs job_add_defs example_evals)
  obtain fn where fn: "function_at ?S 0 = Some fn" and nf: "\<not> queue_full fn"
    by (simp add: example_flush_defs job_add_defs queue_full_def)
  define st1 where "st1 = (case gearman_server_job_create ?S of Some (r, s) \<Rightarrow> s | None \<Rightarrow> ?S)"
  have cr: "gearman_server_job_create ?S = Some (Some 0, st1)"
    by (simp add: st1_def example_flush_defs job_add_defs)
  have a: "(None :: nat option) = None \<and> GEARMAN_SERVER_QUEUE_REPLAY \<notin> server_options ?S \<and>
        queue_add_fn (gearman ?S) = Some example_queue_fn \<and>
        example_queue_fn (queue_calls ?S)
          (QUEUE_ADD (snprintf_unique ''a'') (length ''a'') ''f'' ''x'' GEARMAN_JOB_PRIORITY_NORMAL)
            = GEARMAN_SUCCESS \<and>
        queue_flush_fn (gearman ?S) = Some example_flush_refusing_fn \<and>
        example_flush_refusing_fn (queue_calls ?S @
          [QUEUE_ADD (snprintf_unique ''a'') (length ''a'') ''f'' ''x'' GEARMAN_JOB_PRIORITY_NORMAL])
          QUEUE_FLUSH = GEARMAN_ERRNO \<and>
        GEARMAN_ERRNO \<noteq> GEARMAN_SUCCESS"
    by (simp add: example_flush_defs)
  note th = conjunct1[OF conjunct2[OF job_add_failed_rollback[OF fg lk fn nf cr,
        where cl = None and prio = GEARMAN_JOB_PRIORITY_NORMAL, of 0]]]
  from th[rule_format, OF a] fn
  show "\<exists>st'. gearman_server_job_add False 0 ?S ''f'' ''a'' ''x''
            GEARMAN_JOB_PRIORITY_NORMAL None = Some (None, GEARMAN_ERRNO, st') \<and>
          job_at st' 0 = None \<and> unique_hash st' = unique_hash ?S \<and>
          job_hash st' = job_hash ?S \<and> function_at st' 0 = function_at ?S 0"
    by auto
next
  let ?S = example_no_packet_server
  let ?k = "Some (server_job_hash False ''a'')"
  have fg: "gearman_server_function_get ?S ''f'' = Some (Some 0, ?S)"
    by (simp add: example_queue_defs job_add_defs)
  have lk: "job_add_lookup False ?S 0 ''a'' ''x'' = Some (?k, None)"
    by (simp add: example_queue_defs job_add_defs example_evals)
  obtain fn where fn: "function_at ?S 0 = Some fn" and nf: "\<not> queue_full fn"
    by (simp add: example_queue_defs job_add_defs queue_full_def)
  define st1 where "st1 = (case gearman_server_job_create ?S of Some (r, s) \<Rightarrow> s | None \<Rightarrow> ?S)"
  have cr: "gearman_server_job_create ?S = Some (Some 0, st1)"
    by (simp add: st1_def example_queue_defs job_add_defs)
  define st2 where "st2 = (case job_add_fill False 0 st1 0 ?k ''a'' ''x''
                                  GEARMAN_JOB_PRIORITY_NORMAL 0 of Some s \<Rightarrow> s | None \<Rightarrow> st1)"
  have fl: "job_add_fill False 0 st1 0 ?k ''a'' ''x'' GEARMAN_JOB_PRIORITY_NORMAL 0 = Some st2"
    by (simp add: st2_def st1_def example_queue_defs job_add_defs)
  define st3 where "st3 = (case job_add_persist st2 0 ''f'' (length ''a'') ''x''
                                  GEARMAN_JOB_PRIORITY_NORMAL None of
                             Some (r, s) \<Rightarrow> s | None \<Rightarrow> st2)"
  have ps: "job_add_persist st2 0 ''f'' (length ''a'') ''x'' GEARMAN_JOB_PRIORITY_NORMAL None
              = Some (GEARMAN_SUCCESS, st3)"
    by (simp add: st3_def st2_def st1_def example_queue_defs job_add_defs)
  have qc: "queue_calls st3 = [QUEUE_ADD ''a'' 1 ''f'' ''x'' GEARMAN_JOB_PRIORITY_NORMAL, QUEUE_FLUSH]"
    by (simp add: st3_def st2_def st1_def example_queue_defs job_add_defs)
  obtain st4 where q: "gearman_server_job_queue st3 0 = Some (GEARMAN_MEMORY_ALLOCATION_FAILURE, st4)"
    by (simp add: st3_def st2_def st1_def example_queue_defs job_add_defs)
  have dn: "queue_done_fn (gearman ?S) \<noteq> None" by (simp add: example_queue_defs)
  have p: "(None :: nat option) \<noteq> None \<or> GEARMAN_SERVER_QUEUE_REPLAY \<in> server_options ?S \<or>
           queue_add_fn (gearman ?S) = None \<or>
           (\<exists>add. queue_add_fn (gearman ?S) = Some add \<and>
              add (queue_calls ?S)
                (QUEUE_ADD (snprintf_unique ''a'') (length ''a'') ''f'' ''x''
                   GEARMAN_JOB_PRIORITY_NORMAL) = GEARMAN_SUCCESS \<and>
              (queue_flush_fn (gearman ?S) = None \<or>
               (\<exists>flush. queue_flush_fn (gearman ?S) = Some flush \<and>
                  flush (queue_calls ?S @
                    [QUEUE_ADD (snprintf_unique ''a'') (length ''a'') ''f'' ''x''
                       GEARMAN_JOB_PRIORITY_NORMAL]) QUEUE_FLUSH = GEARMAN_SUCCESS)))"
    by (simp add: example_queue_defs)
  note th = conjunct2[OF conjunct2[OF job_add_failed_rollback[OF fg lk fn nf cr,
        where cl = None and prio = GEARMAN_JOB_PRIORITY_NORMAL, of 0]]]
  from th[THEN mp, OF p] fl ps obtain st' where
    "gearman_server_job_add False 0 ?S ''f'' ''a'' ''x'' GEARMAN_JOB_PRIORITY_NORMAL None
       = Some (None, GEARMAN_MEMORY_ALLOCATION_FAILURE, st')"
    "job_at st' 0 = None" "unique_hash st' = unique_hash ?S" "job_hash st' = job_hash ?S"
    "function_at st' 0 = Some fn"
    "queue_calls st' = queue_calls st3 @
        (if (None :: nat option) = None \<and> queue_done_fn (gearman ?S) \<noteq> None
         then [QUEUE_DONE (snprintf_unique ''a'') (length ''a'') ''f''] else [])"
    using q by fastforce
  with qc dn fn
  show "\<exists>st'. gearman_server_job_add False 0 ?S ''f'' ''a'' ''x''
            GEARMAN_JOB_PRIORITY_NORMAL None
              = Some (None, GEARMAN_MEMORY_ALLOCATION_FAILURE, st') \<and>
          job_at st' 0 = None \<and> unique_hash st' = unique_hash ?S \<and>
          job_hash st' = job_hash ?S \<and> function_at st' 0 = function_at ?S 0 \<and>
          queue_calls st' =
            [QUEUE_ADD ''a'' 1 ''f'' ''x'' GEARMAN_JOB_PRIORITY_NORMAL, QUEUE_FLUSH,
             QUEUE_DONE ''a'' 1 ''f'']"
    by (auto simp: snprintf_unique_def c_str_def GEARMAN_UNIQUE_SIZE_def)
qed


section \<open>The bound of a function's queue\<close>

lemma job_add_full_iff:
  assumes run: "gearman_server_job_add sg key0 st fname uniq dat prio cl = Some (r, ret, st')"
  shows "((r = None \<and> ret = GEARMAN_JOB_QUEUE_FULL) \<longleftrightarrow>
          (\<exists>f st1 key fn.
             gearman_server_function_get st fname = Some (Some f, st1) \<and>
             job_add_lookup sg st1 f uniq dat = Some (key, None) \<and>
             function_at st1 f = Some fn \<and>
             (queue_full fn \<or>
              (\<exists>j s2. gearman_server_job_create st1 = Some (Some j, s2)) \<and>
              cl = None \<and> GEARMAN_SERVER_QUEUE_REPLAY \<notin> server_options st \<and>
              queue_answer st (QUEUE_ADD (snprintf_unique uniq) (length uniq) fname dat prio) = GEARMAN_JOB_QUEUE_FULL)))"
    (is "?L \<longleftrightarrow> ?R")
proof
  assume l: ?L
  from run show ?R
  proof (cases rule: job_add_cases)
    case no_function
    with l show ?thesis by simp
  next
    case (exists f st1 key j)
    from job_add_attach_result(1)[OF exists(3)] l show ?thesis by simp
  next
    case (create f st1 key)
    from create(3) show ?thesis
    proof (cases rule: job_add_create_cases)
      case (full fn)
      with create show ?thesis by auto
    next
      case (no_memory fn)
      with l show ?thesis by simp
    next
      case (persist_failed fn j st2 st3 st4 job3)
      from job_add_persisted[OF create(1) persist_failed(1,3), of sg key0 key uniq dat prio cl]
        persist_failed(4,5)
      have "ret = (if GEARMAN_SERVER_QUEUE_REPLAY \<in> server_options st \<or> cl \<noteq> None
                   then GEARMAN_SUCCESS
                   else queue_answer st (QUEUE_ADD (snprintf_unique uniq) (length uniq) fname dat prio))"
        by auto
      with l have "cl = None \<and> GEARMAN_SERVER_QUEUE_REPLAY \<notin> server_options st \<and>
              queue_answer st (QUEUE_ADD (snprintf_unique uniq) (length uniq) fname dat prio) = GEARMAN_JOB_QUEUE_FULL"
        by (auto split: if_splits)
      with create(1,2) persist_failed(1,3) show ?thesis by blast
    next
      case (enqueue fn j st2 st3 st4)
      from enqueue(6) show ?thesis
      proof (cases rule: job_add_enqueue_cases)
        case (queue_failed st5 job f' fn')
        with job_queue_ret[OF queue_failed(1)] l show ?thesis by simp
      next
        case (queued st5)
        from job_add_attach_result(1)[OF queued(2)] l show ?thesis by simp
      qed
    qed
  qed
next
  assume ?R
  then obtain f st1 key fn where
    fg: "gearman_server_function_get st fname = Some (Some f, st1)"
    and lk: "job_add_lookup sg st1 f uniq dat = Some (key, None)"
    and fn: "function_at st1 f = Some fn"
    and d: "queue_full fn \<or>
              (\<exists>j s2. gearman_server_job_create st1 = Some (Some j, s2)) \<and>
              cl = None \<and> GEARMAN_SERVER_QUEUE_REPLAY \<notin> server_options st \<and>
              queue_answer st (QUEUE_ADD (snprintf_unique uniq) (length uniq) fname dat prio) = GEARMAN_JOB_QUEUE_FULL"
    by blast
  show ?L
  proof (cases "queue_full fn")
    case True
    with run fg lk fn show ?thesis
      by (auto simp: gearman_server_job_add_def job_add_create_def queue_full_def)
  next
    case False
    with d obtain j s2 where cr: "gearman_server_job_create st1 = Some (Some j, s2)"
      and cl: "cl = None" and nr: "GEARMAN_SERVER_QUEUE_REPLAY \<notin> server_options st"
      and a: "queue_answer st (QUEUE_ADD (snprintf_unique uniq) (length uniq) fname dat prio) = GEARMAN_JOB_QUEUE_FULL"
      by blast
    from job_add_answer_failed[OF fg lk fn False cr cl nr a, of key0] run
    show ?thesis by auto
  qed
qed


text \<open>
  Submissions for one function, one after the other with nothing in between, so that the
  jobs they create are all there at the same time. The result lists what each call
  returned.
\<close>

fun submit_all ::
  "bool \<Rightarrow> u32 \<Rightarrow> gearman_server_st \<Rightarrow> string
     \<Rightarrow> (string \<times> string \<times> gearman_job_priority_t \<times> nat option) list
     \<Rightarrow> ((nat option \<times> gearman_return_t) list \<times> gearman_server_st) option" where
  "submit_all sg key0 st fname [] = Some ([], st)"
| "submit_all sg key0 st fname ((uniq, dat, prio, cl) # rest) =
     (case gearman_server_job_add sg key0 st fname uniq dat prio cl of
        None \<Rightarrow> None
      | Some (r, ret, st1) \<Rightarrow>
          (case submit_all sg key0 st1 fname rest of
             None \<Rightarrow> None
           | Some (rs, st2) \<Rightarrow> Some ((r, ret) # rs, st2)))"

definition created :: "nat option \<times> gearman_return_t \<Rightarrow> bool" where
  "created x \<longleftrightarrow> fst x \<noteq> None \<and> snd x = GEARMAN_SUCCESS"

lemma submit_all_total:
  assumes "submit_all sg key0 st fname reqs = Some (rs, st1)" and "list_all created rs"
    and "function_find (function_heap st) fname (function_list st) = Some (Some f)"
    and "function_at st f = Some fn"
  shows "function_find (function_heap st1) fname (function_list st1) = Some (Some f) \<and>
         (\<exists>fn1. function_at st1 f = Some fn1 \<and> max_queue_size fn1 = max_queue_size fn \<and>
            job_total fn1 = job_total fn + of_nat (length reqs))"
  using assms
proof (induction reqs arbitrary: st rs fn)
  case Nil
  then show ?case by simp
next
  case (Cons q reqs)
  obtain uniq dat prio cl where q: "q = (uniq, dat, prio, cl)" by (cases q)
  from Cons.prems(1) q obtain r ret s1 rs' where
    a: "gearman_server_job_add sg key0 st fname uniq dat prio cl = Some (r, ret, s1)"
    and b: "submit_all sg key0 s1 fname reqs = Some (rs', st1)"
    and rs: "rs = (r, ret) # rs'"
    by (auto split: option.splits)
  from Cons.prems(2) rs have c: "list_all created rs'" and cr: "created (r, ret)"
    by simp_all
  from cr obtain j where r: "r = Some j" "ret = GEARMAN_SUCCESS"
    by (auto simp: created_def)
  have fg: "gearman_server_function_get st fname = Some (Some f, st)"
    using Cons.prems(3) by (simp add: gearman_server_function_get_def)
  from a[unfolded r] show ?case
  proof (cases rule: job_add_first_lookup)
    case (1 f' s0 key fn0 job1)
    with fg Cons.prems(4) have e: "f' = f" "s0 = st" "fn0 = fn" by simp_all
    note ih = Cons.IH[OF b c 1(4)[unfolded e] 1(5)[unfolded e]]
    then show ?thesis by (auto simp: algebra_simps)
  qed
qed


lemma queue_answer_full:
  "(cl = None \<and> GEARMAN_SERVER_QUEUE_REPLAY \<notin> server_options st \<and>
               (\<exists>add. queue_add_fn (gearman st) = Some add \<and>
                  (add (queue_calls st) (QUEUE_ADD (snprintf_unique uniq) (length uniq) fname dat prio) = GEARMAN_JOB_QUEUE_FULL \<or>
                   add (queue_calls st) (QUEUE_ADD (snprintf_unique uniq) (length uniq) fname dat prio) = GEARMAN_SUCCESS \<and>
                   (\<exists>flush. queue_flush_fn (gearman st) = Some flush \<and>
                      flush (queue_calls st @ [QUEUE_ADD (snprintf_unique uniq) (length uniq) fname dat prio]) QUEUE_FLUSH = GEARMAN_JOB_QUEUE_FULL)))) \<longleftrightarrow>
   cl = None \<and> GEARMAN_SERVER_QUEUE_REPLAY \<notin> server_options st \<and>
   queue_answer st (QUEUE_ADD (snprintf_unique uniq) (length uniq) fname dat prio) = GEARMAN_JOB_QUEUE_FULL"
  by (auto simp: queue_answer_def split: option.splits)

lemma job_add_full_null:
  assumes run: "gearman_server_job_add sg key0 st fname uniq dat prio cl = Some (r, ret, st')"
    and full: "ret = GEARMAN_JOB_QUEUE_FULL"
  shows "r = None"
proof (cases r)
  case (Some j)
  from run show ?thesis
  proof (cases rule: job_add_cases)
    case no_function
    then show ?thesis by simp
  next
    case (exists f st1 key j')
    from job_add_attach_result(2)[OF exists(3)] full show ?thesis by simp
  next
    case (create f st1 key)
    from create(3)[unfolded Some] show ?thesis
      by (cases rule: job_add_create_created) (use full in simp)
  qed
qed simp

text \<open>
  Claim C6 as stated fails where a persistent queue is installed: the code of its \<open>add\<close>
  is returned as it is, and a callback that answers \<open>GEARMAN_JOB_QUEUE_FULL\<close> makes
  \<open>gearman_server_job_add\<close> return \<open>NULL\<close> with that code for a function with
  \<open>max_queue_size == 0\<close> and no job at all.
\<close>

definition example_full_fn :: queue_fn where
  "example_full_fn calls call = GEARMAN_JOB_QUEUE_FULL"

definition example_answering_server :: gearman_server_st where
  "example_answering_server =
     example_worker_server
       \<lparr>gearman := \<lparr>queue_add_fn = Some example_full_fn, queue_flush_fn = None,
                    queue_done_fn = None\<rparr>\<rparr>"

theorem queue_callback_answers_full:
  "do {
     fn \<leftarrow> function_at example_answering_server 0;
     (r, ret, s1) \<leftarrow> gearman_server_job_add False 0 example_answering_server ''f'' ''a'' ''x''
                       GEARMAN_JOB_PRIORITY_NORMAL None;
     Some (function_name fn, max_queue_size fn, job_total fn, r, ret)
   } = Some (''f'', 0, 0, None, GEARMAN_JOB_QUEUE_FULL)"
  by (simp add: job_add_defs example_answering_server_def example_full_fn_def
      example_worker_server_def example_server_def example_evals gearman_server_job_free_def)

text \<open>
  Claim C6, amended. \<open>gearman_server_job_add\<close> returns \<open>NULL\<close> and
  \<open>GEARMAN_JOB_QUEUE_FULL\<close> exactly when there is no duplicate and either the function has
  \<open>max_queue_size > 0\<close> and \<open>job_total >= max_queue_size\<close>, or the job is created and
  the persistent queue answers \<open>GEARMAN_JOB_QUEUE_FULL\<close> itself (its \<open>add\<close>, or its
  \<open>flush\<close> after a successful \<open>add\<close>; they are called for a job without a client outside
  the replay). For a function with \<open>max_queue_size == 0\<close> the code can only be that
  answer of the queue. A job that is created adds one to \<open>job_total\<close>, and a function
  that was just created has \<open>max_queue_size == 0\<close>. When a function with the bound \<open>N\<close>
  and no job has received \<open>N\<close> submissions that each created a job, the next submission
  that is no duplicate is rejected as full.
\<close>

theorem job_add_queue_full_iff:
  assumes run: "gearman_server_job_add sg key0 st fname uniq dat prio cl = Some (r, ret, st')"
  shows "((r = None \<and> ret = GEARMAN_JOB_QUEUE_FULL) \<longleftrightarrow>
          (\<exists>f st1 key fn.
             gearman_server_function_get st fname = Some (Some f, st1) \<and>
             job_add_lookup sg st1 f uniq dat = Some (key, None) \<and>
             function_at st1 f = Some fn \<and>
             ((0 < max_queue_size fn \<and> max_queue_size fn \<le> job_total fn) \<or>
              (\<exists>j s2. gearman_server_job_create st1 = Some (Some j, s2)) \<and>
              (cl = None \<and> GEARMAN_SERVER_QUEUE_REPLAY \<notin> server_options st \<and>
               (\<exists>add. queue_add_fn (gearman st) = Some add \<and>
                  (add (queue_calls st) (QUEUE_ADD (snprintf_unique uniq) (length uniq) fname dat prio) = GEARMAN_JOB_QUEUE_FULL \<or>
                   add (queue_calls st) (QUEUE_ADD (snprintf_unique uniq) (length uniq) fname dat prio) = GEARMAN_SUCCESS \<and>
                   (\<exists>flush. queue_flush_fn (gearman st) = Some flush \<and>
                      flush (queue_calls st @ [QUEUE_ADD (snprintf_unique uniq) (length uniq) fname dat prio]) QUEUE_FLUSH = GEARMAN_JOB_QUEUE_FULL))))))) \<and>
         (\<forall>f st1 fn.
             gearman_server_function_get st fname = Some (Some f, st1) \<and>
             function_at st1 f = Some fn \<and> max_queue_size fn = 0 \<and>
             ret = GEARMAN_JOB_QUEUE_FULL \<longrightarrow>
             (cl = None \<and> GEARMAN_SERVER_QUEUE_REPLAY \<notin> server_options st \<and>
               (\<exists>add. queue_add_fn (gearman st) = Some add \<and>
                  (add (queue_calls st) (QUEUE_ADD (snprintf_unique uniq) (length uniq) fname dat prio) = GEARMAN_JOB_QUEUE_FULL \<or>
                   add (queue_calls st) (QUEUE_ADD (snprintf_unique uniq) (length uniq) fname dat prio) = GEARMAN_SUCCESS \<and>
                   (\<exists>flush. queue_flush_fn (gearman st) = Some flush \<and>
                      flush (queue_calls st @ [QUEUE_ADD (snprintf_unique uniq) (length uniq) fname dat prio]) QUEUE_FLUSH = GEARMAN_JOB_QUEUE_FULL))))) \<and>
         (r \<noteq> None \<and> ret = GEARMAN_SUCCESS \<longrightarrow>
            (\<exists>f st1 fn fn'.
               gearman_server_function_get st fname = Some (Some f, st1) \<and>
               function_at st1 f = Some fn \<and> function_at st' f = Some fn' \<and>
               job_total fn' = job_total fn + 1)) \<and>
         (\<forall>s f s'. gearman_server_function_create s = (Some f, s') \<longrightarrow>
            (\<exists>fn. function_at s' f = Some fn \<and> max_queue_size fn = 0)) \<and>
         (\<forall>s k0 reqs rs f fn key.
            gearman_server_function_get s fname = Some (Some f, s) \<and>
            function_at s f = Some fn \<and> job_total fn = 0 \<and> 0 < max_queue_size fn \<and>
            length reqs = unat (max_queue_size fn) \<and>
            submit_all sg k0 s fname reqs = Some (rs, st) \<and> list_all created rs \<and>
            job_add_lookup sg st f uniq dat = Some (key, None) \<longrightarrow>
            r = None \<and> ret = GEARMAN_JOB_QUEUE_FULL)"
proof (intro conjI)
  show iff: "((r = None \<and> ret = GEARMAN_JOB_QUEUE_FULL) \<longleftrightarrow>
          (\<exists>f st1 key fn.
             gearman_server_function_get st fname = Some (Some f, st1) \<and>
             job_add_lookup sg st1 f uniq dat = Some (key, None) \<and>
             function_at st1 f = Some fn \<and>
             ((0 < max_queue_size fn \<and> max_queue_size fn \<le> job_total fn) \<or>
              (\<exists>j s2. gearman_server_job_create st1 = Some (Some j, s2)) \<and>
              (cl = None \<and> GEARMAN_SERVER_QUEUE_REPLAY \<notin> server_options st \<and>
               (\<exists>add. queue_add_fn (gearman st) = Some add \<and>
                  (add (queue_calls st) (QUEUE_ADD (snprintf_unique uniq) (length uniq) fname dat prio) = GEARMAN_JOB_QUEUE_FULL \<or>
                   add (queue_calls st) (QUEUE_ADD (snprintf_unique uniq) (length uniq) fname dat prio) = GEARMAN_SUCCESS \<and>
                   (\<exists>flush. queue_flush_fn (gearman st) = Some flush \<and>
                      flush (queue_calls st @ [QUEUE_ADD (snprintf_unique uniq) (length uniq) fname dat prio]) QUEUE_FLUSH = GEARMAN_JOB_QUEUE_FULL)))))))"
    using job_add_full_iff[OF run] by (simp only: queue_answer_full queue_full_def)
  show "(\<forall>f st1 fn.
             gearman_server_function_get st fname = Some (Some f, st1) \<and>
             function_at st1 f = Some fn \<and> max_queue_size fn = 0 \<and>
             ret = GEARMAN_JOB_QUEUE_FULL \<longrightarrow>
             (cl = None \<and> GEARMAN_SERVER_QUEUE_REPLAY \<notin> server_options st \<and>
               (\<exists>add. queue_add_fn (gearman st) = Some add \<and>
                  (add (queue_calls st) (QUEUE_ADD (snprintf_unique uniq) (length uniq) fname dat prio) = GEARMAN_JOB_QUEUE_FULL \<or>
                   add (queue_calls st) (QUEUE_ADD (snprintf_unique uniq) (length uniq) fname dat prio) = GEARMAN_SUCCESS \<and>
                   (\<exists>flush. queue_flush_fn (gearman st) = Some flush \<and>
                      flush (queue_calls st @ [QUEUE_ADD (snprintf_unique uniq) (length uniq) fname dat prio]) QUEUE_FLUSH = GEARMAN_JOB_QUEUE_FULL)))))"
  proof (intro allI impI)
    fix f st1 fn
    assume a: "gearman_server_function_get st fname = Some (Some f, st1) \<and>
             function_at st1 f = Some fn \<and> max_queue_size fn = 0 \<and>
             ret = GEARMAN_JOB_QUEUE_FULL"
    with job_add_full_null[OF run] have "r = None \<and> ret = GEARMAN_JOB_QUEUE_FULL" by simp
    with iff a show "(cl = None \<and> GEARMAN_SERVER_QUEUE_REPLAY \<notin> server_options st \<and>
               (\<exists>add. queue_add_fn (gearman st) = Some add \<and>
                  (add (queue_calls st) (QUEUE_ADD (snprintf_unique uniq) (length uniq) fname dat prio) = GEARMAN_JOB_QUEUE_FULL \<or>
                   add (queue_calls st) (QUEUE_ADD (snprintf_unique uniq) (length uniq) fname dat prio) = GEARMAN_SUCCESS \<and>
                   (\<exists>flush. queue_flush_fn (gearman st) = Some flush \<and>
                      flush (queue_calls st @ [QUEUE_ADD (snprintf_unique uniq) (length uniq) fname dat prio]) QUEUE_FLUSH = GEARMAN_JOB_QUEUE_FULL))))"
      by auto
  qed
  show "(r \<noteq> None \<and> ret = GEARMAN_SUCCESS \<longrightarrow>
            (\<exists>f st1 fn fn'.
               gearman_server_function_get st fname = Some (Some f, st1) \<and>
               function_at st1 f = Some fn \<and> function_at st' f = Some fn' \<and>
               job_total fn' = job_total fn + 1))"
  proof
    assume "r \<noteq> None \<and> ret = GEARMAN_SUCCESS"
    then obtain j where "r = Some j" "ret = GEARMAN_SUCCESS" by auto
    with run show "\<exists>f st1 fn fn'.
               gearman_server_function_get st fname = Some (Some f, st1) \<and>
               function_at st1 f = Some fn \<and> function_at st' f = Some fn' \<and>
               job_total fn' = job_total fn + 1"
      by (auto dest!: job_add_created_total)
  qed
  show "(\<forall>s f s'. gearman_server_function_create s = (Some f, s') \<longrightarrow>
            (\<exists>fn. function_at s' f = Some fn \<and> max_queue_size fn = 0))"
    using function_create_default by blast
  show "(\<forall>s k0 reqs rs f fn key.
            gearman_server_function_get s fname = Some (Some f, s) \<and>
            function_at s f = Some fn \<and> job_total fn = 0 \<and> 0 < max_queue_size fn \<and>
            length reqs = unat (max_queue_size fn) \<and>
            submit_all sg k0 s fname reqs = Some (rs, st) \<and> list_all created rs \<and>
            job_add_lookup sg st f uniq dat = Some (key, None) \<longrightarrow>
            r = None \<and> ret = GEARMAN_JOB_QUEUE_FULL)"
  proof (intro allI impI)
    fix s k0 reqs rs f fn key
    assume a: "gearman_server_function_get s fname = Some (Some f, s) \<and>
            function_at s f = Some fn \<and> job_total fn = 0 \<and> 0 < max_queue_size fn \<and>
            length reqs = unat (max_queue_size fn) \<and>
            submit_all sg k0 s fname reqs = Some (rs, st) \<and> list_all created rs \<and>
            job_add_lookup sg st f uniq dat = Some (key, None)"
    then have ff: "function_find (function_heap s) fname (function_list s) = Some (Some f)"
      by (auto dest: function_get_again)
    from a submit_all_total[OF _ _ ff, of sg k0 reqs rs st fn] obtain fn1 where
      f1: "function_find (function_heap st) fname (function_list st) = Some (Some f)"
      and fn1: "function_at st f = Some fn1" "max_queue_size fn1 = max_queue_size fn"
        "job_total fn1 = job_total fn + of_nat (length reqs)"
      by auto
    from a fn1 have "job_total fn1 = max_queue_size fn1" by simp
    with a fn1 have full: "queue_full fn1" by (simp add: queue_full_def)
    have fg: "gearman_server_function_get st fname = Some (Some f, st)"
      using f1 by (simp add: gearman_server_function_get_def)
    from job_add_full_iff[OF run] fg a fn1(1) full
    show "r = None \<and> ret = GEARMAN_JOB_QUEUE_FULL" by blast
  qed
qed


text \<open>A function with the bound 2, and the state after two submissions for it.\<close>

definition example_two_bounded_server :: gearman_server_st where
  "example_two_bounded_server =
     example_server
       \<lparr>function_list := [0], function_count := 1,
        function_heap :=
          [Some \<lparr>function_options = {GEARMAN_SERVER_FUNCTION_ALLOCATED}, job_count = 0,
                 job_total = 0, job_running = 0, max_queue_size = 2, function_name = ''f'',
                 worker_list = [], job_list = (\<lambda>p. [])\<rparr>]\<rparr>"

definition example_two_requests ::
  "(string \<times> string \<times> gearman_job_priority_t \<times> nat option) list" where
  "example_two_requests =
     [(''a'', ''x'', GEARMAN_JOB_PRIORITY_NORMAL, None),
      (''b'', ''y'', GEARMAN_JOB_PRIORITY_HIGH, None)]"

definition example_two_submitted :: gearman_server_st where
  "example_two_submitted =
     (case submit_all False 0 example_two_bounded_server ''f'' example_two_requests of
        Some (rs, s) \<Rightarrow> s
      | None \<Rightarrow> example_two_bounded_server)"

lemma example_two_bound: "((2::u32) \<le> 1) = False" "((2::u32) \<le> 0) = False"
  by (simp_all add: word_le_nat_alt)

lemmas example_two_defs =
  example_two_submitted_def example_two_requests_def example_two_bounded_server_def
  example_server_def example_evals example_two_bound

theorem job_add_queue_full_iff_witness:
  "\<exists>st2.
     submit_all False 0 example_two_bounded_server ''f'' example_two_requests =
       Some ([(Some 0, GEARMAN_SUCCESS), (Some 1, GEARMAN_SUCCESS)], example_two_submitted) \<and>
     gearman_server_job_add False 0 example_two_submitted ''f'' ''c'' ''z''
        GEARMAN_JOB_PRIORITY_LOW None = Some (None, GEARMAN_JOB_QUEUE_FULL, st2)"
proof -
  let ?S = example_two_bounded_server
  have sa: "submit_all False 0 ?S ''f'' example_two_requests =
       Some ([(Some 0, GEARMAN_SUCCESS), (Some 1, GEARMAN_SUCCESS)], example_two_submitted)"
    by (simp add: example_two_defs job_add_defs)
  obtain r ret st2 where run2:
    "gearman_server_job_add False 0 example_two_submitted ''f'' ''c'' ''z''
        GEARMAN_JOB_PRIORITY_LOW None = Some (r, ret, st2)"
    by (simp add: example_two_defs job_add_defs)
  have fg: "gearman_server_function_get ?S ''f'' = Some (Some 0, ?S)"
    by (simp add: example_two_defs job_add_defs)
  obtain fn where fn: "function_at ?S 0 = Some fn" and t: "job_total fn = 0"
    and m: "max_queue_size fn = 2"
    by (simp add: example_two_defs job_add_defs)
  have len: "length example_two_requests = unat (max_queue_size fn)"
    by (simp add: m example_two_requests_def)
  have cr: "list_all created [(Some (0::nat), GEARMAN_SUCCESS), (Some 1, GEARMAN_SUCCESS)]"
    by (simp add: created_def)
  obtain key where lk: "job_add_lookup False example_two_submitted 0 ''c'' ''z'' = Some (key, None)"
    by (simp add: example_two_defs job_add_defs)
  have h: "gearman_server_function_get ?S ''f'' = Some (Some 0, ?S) \<and>
            function_at ?S 0 = Some fn \<and> job_total fn = 0 \<and> 0 < max_queue_size fn \<and>
            length example_two_requests = unat (max_queue_size fn) \<and>
            submit_all False 0 ?S ''f'' example_two_requests =
              Some ([(Some 0, GEARMAN_SUCCESS), (Some 1, GEARMAN_SUCCESS)], example_two_submitted) \<and>
            list_all created [(Some (0::nat), GEARMAN_SUCCESS), (Some 1, GEARMAN_SUCCESS)] \<and>
            job_add_lookup False example_two_submitted 0 ''c'' ''z'' = Some (key, None)"
    using fg fn t m len sa cr lk by simp
  note th = conjunct2[OF conjunct2[OF conjunct2[OF conjunct2[OF job_add_queue_full_iff[OF run2]]]]]
  from th[rule_format, OF h] have "r = None \<and> ret = GEARMAN_JOB_QUEUE_FULL" .
  with sa run2 show ?thesis by blast
qed

end
